(* ===== verification/Prelude.thy ===== *)
theory Prelude
  imports Main "HOL-Library.Word" "HOL-Library.Signed_Division"
    "HOL-Library.List_Lexorder" "HOL-Library.Char_ord"
begin

text \<open>
  What the components share: the machine types, the constants of the protocol definitions
  (\<^verbatim>\<open>protocol-definitions\<close>), C arrays and memory copies, \<^verbatim>\<open>std::map\<close> as an
  association list in iteration order, and the lemmas about them that carry the
  component proofs.
\<close>

section \<open>Machine types and constants\<close>

type_synonym byte = "8 word"
type_synonym u32 = "32 word"
type_synonym u64 = "64 word"

text \<open>A protobuf enum is an unscoped C++ enum: the code casts arbitrary integers to it, so its
  values are integers here and the enumerators are named constants.\<close>

type_synonym message_type = int

abbreviation (input) MSG_TYPE_INVALID :: message_type where "MSG_TYPE_INVALID \<equiv> 0"
abbreviation (input) MSG_TYPE_DBUS :: message_type where "MSG_TYPE_DBUS \<equiv> 1"
abbreviation (input) MSG_TYPE_RESOURCE_MONITOR :: message_type where "MSG_TYPE_RESOURCE_MONITOR \<equiv> 2"
abbreviation (input) MSG_TYPE_PROT_HNDLR_CONTROL :: message_type where "MSG_TYPE_PROT_HNDLR_CONTROL \<equiv> 3"
abbreviation (input) MSG_TYPE_GENIVI_DLT_MONITOR :: message_type where "MSG_TYPE_GENIVI_DLT_MONITOR \<equiv> 10"
abbreviation (input) MSG_TYPE_SOCKET_READER :: message_type where "MSG_TYPE_SOCKET_READER \<equiv> 14"
abbreviation (input) MSG_TYPE_LINUX_APP_STATS :: message_type where "MSG_TYPE_LINUX_APP_STATS \<equiv> 20"
abbreviation (input) MSG_TYPE_DBUSCMDCTRL :: message_type where "MSG_TYPE_DBUSCMDCTRL \<equiv> 25"
abbreviation (input) MSG_TYPE_LOG4J :: message_type where "MSG_TYPE_LOG4J \<equiv> 28"
abbreviation (input) MSG_TYPE_CHRONOGRAPH_CALIBRATION :: message_type
  where "MSG_TYPE_CHRONOGRAPH_CALIBRATION \<equiv> 99"

named_theorems state_simps \<open>unfolding rules for the small state-passing operations\<close>

lemma uint_of_int_u64: "0 \<le> k \<Longrightarrow> k < 2 ^ 64 \<Longrightarrow> uint (word_of_int k :: u64) = k"
  by (simp add: uint_word_of_int take_bit_int_eq_self)

lemma uint_of_int_u32: "0 \<le> k \<Longrightarrow> k < 2 ^ 32 \<Longrightarrow> uint (word_of_int k :: u32) = k"
  by (simp add: uint_word_of_int take_bit_int_eq_self)

section \<open>Periodic timers\<close>

text \<open>How the monitors compute the seconds and nanoseconds of a period given in milliseconds, in
  \<^verbatim>\<open>unsigned long\<close>.\<close>

definition timer_interval :: "u32 \<Rightarrow> u64 \<times> u64" where
  "timer_interval samplingRateInMs =
     (let rate = ucast samplingRateInMs :: u64;
          sec = rate div 1000
      in (sec, (rate - sec * 1000) * 1000000))"

text \<open>The period is exact for every rate; a rate of zero gives zero, which disarms the timer.\<close>

lemma timer_interval_exact:
  "timer_interval r = (sec, ns) \<Longrightarrow>
     uint sec * 1000 + uint ns div 1000000 = uint r \<and> uint ns < 1000000000 \<and> uint ns mod 1000000 = 0"
proof -
  assume i: "timer_interval r = (sec, ns)"
  define R where "R = uint r"
  have R: "0 \<le> R" "R < 2 ^ 32"
    using unsigned_less [of r] by (simp_all add: R_def)
  have u: "uint (ucast r :: u64) = R"
    using R by (simp add: R_def unsigned_ucast_eq take_bit_int_eq_self)
  have s: "uint sec = R div 1000"
    using i u by (auto simp: timer_interval_def Let_def uint_div)
  have m: "uint (sec * 1000) = R div 1000 * 1000"
    using R s by (simp add: uint_word_ariths)
  have d: "uint (ucast r - sec * 1000 :: u64) = R mod 1000"
    using R u m by (simp add: uint_word_ariths minus_div_mult_eq_mod)
  define w where "w = (ucast r - sec * 1000 :: u64)"
  have "ns = w * 1000000"
    using i unfolding timer_interval_def Let_def w_def by blast
  moreover have "uint w = R mod 1000"
    using d by (simp only: w_def)
  ultimately have n: "uint ns = R mod 1000 * 1000000"
    by (simp add: uint_word_ariths)
  show ?thesis
    using R s n by (simp add: R_def)
qed

section \<open>State and exceptions\<close>

text \<open>An operation that mutates its object and may raise: it returns the error or the result, and in
  both cases the state it leaves behind, so that a handler sees what had already happened.\<close>

type_synonym ('e, 's, 'a) op = "'s \<Rightarrow> ('e + 'a) \<times> 's"

definition returnE :: "'a \<Rightarrow> ('e, 's, 'a) op" where
  "returnE x = (\<lambda>s. (Inr x, s))"

definition throwE :: "'e \<Rightarrow> ('e, 's, 'a) op" where
  "throwE e = (\<lambda>s. (Inl e, s))"

definition bindE :: "('e, 's, 'a) op \<Rightarrow> ('a \<Rightarrow> ('e, 's, 'b) op) \<Rightarrow> ('e, 's, 'b) op" where
  "bindE m f = (\<lambda>s. case m s of (Inl e, s') \<Rightarrow> (Inl e, s') | (Inr x, s') \<Rightarrow> f x s')"

definition thenE :: "('e, 's, 'a) op \<Rightarrow> ('e, 's, 'b) op \<Rightarrow> ('e, 's, 'b) op" where
  "thenE m n = bindE m (\<lambda>_. n)"

definition modifyE :: "('s \<Rightarrow> 's) \<Rightarrow> ('e, 's, unit) op" where
  "modifyE f = (\<lambda>s. (Inr (), f s))"

text \<open>\<open>catchE P h m\<close>: the errors in \<open>P\<close> are handled by \<open>h\<close>, the others pass.\<close>

definition catchE :: "('e \<Rightarrow> bool) \<Rightarrow> ('e \<Rightarrow> ('e, 's, 'a) op) \<Rightarrow> ('e, 's, 'a) op \<Rightarrow> ('e, 's, 'a) op" where
  "catchE P h m = (\<lambda>s. case m s of
      (Inl e, s') \<Rightarrow> (if P e then h e s' else (Inl e, s'))
    | (Inr x, s') \<Rightarrow> (Inr x, s'))"

fun seqE :: "('e, 's, unit) op list \<Rightarrow> ('e, 's, unit) op" where
  "seqE [] = returnE ()"
| "seqE (m # ms) = thenE m (seqE ms)"

lemma op_simps [simp]:
  "returnE x s = (Inr x, s)"
  "throwE e s = (Inl e, s)"
  "modifyE f s = (Inr (), f s)"
  by (simp_all add: returnE_def throwE_def modifyE_def)

lemma bindE_Inr [simp]: "m s = (Inr x, s') \<Longrightarrow> bindE m f s = f x s'"
  by (simp add: bindE_def)

lemma bindE_Inl [simp]: "m s = (Inl e, s') \<Longrightarrow> bindE m f s = (Inl e, s')"
  by (simp add: bindE_def)

lemma thenE_Inr [simp]: "m s = (Inr x, s') \<Longrightarrow> thenE m n s = n s'"
  by (simp add: thenE_def)

lemma thenE_Inl [simp]: "m s = (Inl e, s') \<Longrightarrow> thenE m n s = (Inl e, s')"
  by (simp add: thenE_def)

lemma catchE_Inr [simp]: "m s = (Inr x, s') \<Longrightarrow> catchE P h m s = (Inr x, s')"
  by (simp add: catchE_def)

lemma catchE_Inl [simp]:
  "m s = (Inl e, s') \<Longrightarrow> catchE P h m s = (if P e then h e s' else (Inl e, s'))"
  by (simp add: catchE_def)

lemma bindE_assoc: "bindE (bindE m f) g = bindE m (\<lambda>x. bindE (f x) g)"
  by (rule ext) (simp add: bindE_def split: prod.split sum.split)

lemma bindE_return: "bindE (returnE x) f = f x" "bindE (Pair (Inr x)) f = f x"
  by (rule ext, simp)+

lemma bindE_unit: "bindE m (\<lambda>_. returnE ()) = (m :: ('e, 's, unit) op)"
  "bindE m (\<lambda>_. Pair (Inr ())) = (m :: ('e, 's, unit) op)"
  "bindE m returnE = (m :: ('e, 's, unit) op)"
  by (rule ext, simp add: bindE_def split: prod.split sum.split)+

lemma seqE_append: "seqE (ms @ ns) = bindE (seqE ms) (\<lambda>_. seqE ns)"
  by (induction ms) (simp_all add: thenE_def bindE_assoc bindE_return)

text \<open>An observation \<open>f\<close> of the state that an operation does not change, whether it raises or not.\<close>

definition keepsE :: "('s \<Rightarrow> 'b) \<Rightarrow> ('e, 's, 'a) op \<Rightarrow> bool" where
  "keepsE f m \<longleftrightarrow> (\<forall>s. f (snd (m s)) = f s)"

lemma keepsE_D: "keepsE f m \<Longrightarrow> m s = (r, s') \<Longrightarrow> f s' = f s"
  unfolding keepsE_def by (metis snd_conv)

lemma keepsE_snd: "keepsE f m \<Longrightarrow> f (snd (m s)) = f s"
  by (simp add: keepsE_def)

lemma keepsE_return [intro, simp]: "keepsE f (returnE x)"
  by (simp add: keepsE_def)

lemma keepsE_Pair [intro, simp]: "keepsE f (Pair x)"
  by (simp add: keepsE_def)

lemma keepsE_throw [intro, simp]: "keepsE f (throwE x)"
  by (simp add: keepsE_def)

lemma keepsE_modify: "(\<And>s. f (g s) = f s) \<Longrightarrow> keepsE f (modifyE g)"
  by (simp add: keepsE_def)

lemma keepsE_bind: "keepsE f m \<Longrightarrow> (\<And>x. keepsE f (n x)) \<Longrightarrow> keepsE f (bindE m n)"
  by (auto simp: keepsE_def bindE_def split: prod.splits sum.splits) (metis snd_conv)+

lemma keepsE_then: "keepsE f m \<Longrightarrow> keepsE f n \<Longrightarrow> keepsE f (thenE m n)"
  by (simp add: thenE_def keepsE_bind)

lemma keepsE_seq: "\<forall>m \<in> set ms. keepsE f m \<Longrightarrow> keepsE f (seqE ms)"
  by (induction ms) (auto intro: keepsE_then)

lemma seqE_two_keeps:
  assumes "m1 s = (Inr (), s1)" "m2 s1 = (Inr (), s2)" "\<forall>m \<in> set ms. keepsE f m"
  shows "f (snd (seqE (m1 # m2 # ms) s)) = f s2"
  using keepsE_snd [OF keepsE_seq [OF assms(3)]] assms(1,2) by (simp add: thenE_def bindE_def)

lemma keepsE_catch: "keepsE f m \<Longrightarrow> (\<And>e. keepsE f (h e)) \<Longrightarrow> keepsE f (catchE P h m)"
  by (auto simp: keepsE_def catchE_def split: prod.splits sum.splits) (metis snd_conv)+

section \<open>C arrays\<close>

text \<open>\<^verbatim>\<open>memcpy(dst, src, n)\<close> as the bytes it delivers: reading past the end of the source
  is undefined in C++, and unspecified here as well (\<^const>\<open>nth\<close> beyond the list).\<close>

definition memcpy_read :: "nat \<Rightarrow> 'a list \<Rightarrow> 'a list" where
  "memcpy_read n src = map (\<lambda>i. src ! i) [0..<n]"

lemma memcpy_read_take: "n \<le> length src \<Longrightarrow> memcpy_read n src = take n src"
  by (simp add: memcpy_read_def list_eq_iff_nth_eq)

lemma length_memcpy_read [simp]: "length (memcpy_read n src) = n"
  by (simp add: memcpy_read_def)

lemma memcpy_read_self [simp]: "memcpy_read (length src) src = src"
  by (simp add: memcpy_read_take)

lemma memcpy_read_int [simp]: "int (length p) = n \<Longrightarrow> memcpy_read (nat n) p = p"
  by auto

lemma memcpy_read_append [simp]: "memcpy_read (length xs) (xs @ ys) = xs"
  by (simp add: memcpy_read_take)

lemma memcpy_read_map: "n \<le> length xs \<Longrightarrow> memcpy_read n (map f xs) = map f (memcpy_read n xs)"
  by (simp add: memcpy_read_take take_map)

text \<open>Writing a block of bytes into a buffer at an offset. The C++ code does not check the bounds
  itself, so the write is partial: \<^const>\<open>None\<close> when a byte would land outside the buffer.\<close>

definition buf_write :: "nat \<Rightarrow> 'a list \<Rightarrow> 'a list \<Rightarrow> 'a list option" where
  "buf_write off src dst =
     (if off + length src \<le> length dst
      then Some (take off dst @ src @ drop (off + length src) dst) else None)"

lemma buf_write_length: "buf_write off src dst = Some dst' \<Longrightarrow> length dst' = length dst"
  by (auto simp: buf_write_def split: if_splits)

lemma buf_write_Some_iff:
  "(\<exists>dst'. buf_write off src dst = Some dst') \<longleftrightarrow> off + length src \<le> length dst"
  by (simp add: buf_write_def)

lemma buf_write_take:
  "buf_write off src dst = Some dst' \<Longrightarrow> take (off + length src) dst' = take off dst @ src"
  by (auto simp: buf_write_def split: if_splits)

section \<open>\<^verbatim>\<open>std::map\<close>\<close>

text \<open>A map in its iteration order, keys strictly ascending. \<open>cmap_insert\<close> is
  \<^verbatim>\<open>map::insert\<close> (an existing key keeps its value), \<open>cmap_assign\<close> is
  \<^verbatim>\<open>m[k] = v\<close>.\<close>

fun cmap_insert :: "'k::linorder \<Rightarrow> 'v \<Rightarrow> ('k \<times> 'v) list \<Rightarrow> ('k \<times> 'v) list" where
  "cmap_insert k v [] = [(k, v)]"
| "cmap_insert k v ((k', v') # m) =
     (if k < k' then (k, v) # (k', v') # m
      else if k = k' then (k', v') # m else (k', v') # cmap_insert k v m)"

fun cmap_assign :: "'k::linorder \<Rightarrow> 'v \<Rightarrow> ('k \<times> 'v) list \<Rightarrow> ('k \<times> 'v) list" where
  "cmap_assign k v [] = [(k, v)]"
| "cmap_assign k v ((k', v') # m) =
     (if k < k' then (k, v) # (k', v') # m
      else if k = k' then (k', v) # m else (k', v') # cmap_assign k v m)"

definition cmap_ok :: "('k::linorder \<times> 'v) list \<Rightarrow> bool" where
  "cmap_ok m = (sorted_wrt (<) (List.map fst m))"

lemma set_cmap_insert_keys [simp]: "fst ` set (cmap_insert k v m) = insert k (fst ` set m)"
  by (induction k v m rule: cmap_insert.induct) (simp_all add: insert_commute)

lemma set_cmap_assign_keys [simp]: "fst ` set (cmap_assign k v m) = insert k (fst ` set m)"
  by (induction k v m rule: cmap_assign.induct) (simp_all add: insert_commute)

lemma cmap_ok_Nil [simp]: "cmap_ok []"
  by (simp add: cmap_ok_def)

lemma cmap_ok_Cons: "cmap_ok ((k, v) # m) \<longleftrightarrow> (\<forall>k' \<in> fst ` set m. k < k') \<and> cmap_ok m"
  by (auto simp: cmap_ok_def)

lemma cmap_ok_insert [simp, intro]: "cmap_ok m \<Longrightarrow> cmap_ok (cmap_insert k v m)"
proof (induction m)
  case (Cons p m)
  obtain k' v' where p: "p = (k', v')" by force
  have "\<forall>k''\<in>fst ` set (cmap_insert k v m). k' < k''" if "k' < k"
    using Cons.prems that unfolding p cmap_ok_Cons set_cmap_insert_keys by auto
  then show ?case
    using Cons unfolding p by (force simp: cmap_ok_Cons)
qed (simp add: cmap_ok_Cons)

lemma cmap_ok_assign [simp, intro]: "cmap_ok m \<Longrightarrow> cmap_ok (cmap_assign k v m)"
proof (induction m)
  case (Cons p m)
  obtain k' v' where p: "p = (k', v')" by force
  have "\<forall>k''\<in>fst ` set (cmap_assign k v m). k' < k''" if "k' < k"
    using Cons.prems that unfolding p cmap_ok_Cons set_cmap_assign_keys by auto
  then show ?case
    using Cons unfolding p by (force simp: cmap_ok_Cons)
qed (simp add: cmap_ok_Cons)

lemma cmap_notin: "\<forall>k' \<in> fst ` set m. (k :: 'k::linorder) < k' \<Longrightarrow> map_of m k = None"
  by (induction m) auto

lemma map_of_cmap_insert:
  "cmap_ok m \<Longrightarrow> map_of (cmap_insert k v m) =
     (case map_of m k of None \<Rightarrow> (map_of m)(k \<mapsto> v) | Some _ \<Rightarrow> map_of m)"
proof (induction m)
  case (Cons p m)
  obtain k' v' where p: "p = (k', v')" by force
  have nk: "map_of m k = None" if "k < k'"
    using Cons.prems that unfolding p cmap_ok_Cons by (intro cmap_notin) force
  then show ?case
    using Cons unfolding p
    by (auto simp: cmap_ok_Cons fun_eq_iff split: option.splits)
qed (simp add: fun_eq_iff)

lemma map_of_cmap_assign: "cmap_ok m \<Longrightarrow> map_of (cmap_assign k v m) = (map_of m)(k \<mapsto> v)"
proof (induction m)
  case (Cons p m)
  then show ?case
    by (cases p) (auto simp: cmap_ok_Cons fun_eq_iff)
qed (simp add: fun_eq_iff)

end
