(* ===== verification/Messages.thy ===== *)
theory Messages
  imports Prelude
begin

text \<open>
  The message object every component passes around
  (\<^verbatim>\<open>plugin-provider/src/protocol_message.cpp\<close>) and the timestamp providers it asks for
  its time (\<^verbatim>\<open>plugin-provider/src/CTimestampProvider.cpp\<close>).

  A \<open>msg_env\<close> carries what the constructor reads from outside the object: whether
  \<^verbatim>\<open>new (std::nothrow)\<close> of a given size succeeds, the value the timestamp provider returns at this
  moment and the generated constant \<^verbatim>\<open>raceTaProtocolVersion\<close>.
\<close>

section \<open>Timestamp providers\<close>

datatype ts_provider = CUpTimeTsProvider | CAbsoluteTimeTsProvider

datatype time_ref = eTimeRefInvalid | eTimeRefUpTime | eTimeRefAbsoluteTime | eTimeRefMax

text \<open>\<open>monotonic\<close> is the result of \<^verbatim>\<open>clock_gettime(CLOCK_MONOTONIC)\<close>: \<^const>\<open>None\<close> when the
  call fails, else seconds and nanoseconds (the Linux branch). Both casts are to
  \<^verbatim>\<open>uint32_t\<close>; the product with 1000 stays 32 bits wide, the division by
  \<^verbatim>\<open>1000000LL\<close> and the sum do not.\<close>

definition uptime_createTimestamp :: "(int \<times> int) option \<Rightarrow> u64" where
  "uptime_createTimestamp monotonic =
     (case monotonic of
        None \<Rightarrow> 0
      | Some (tv_sec, tv_nsec) \<Rightarrow>
          word_of_int (uint ((word_of_int tv_sec :: u32) * 1000)
                       + uint (word_of_int tv_nsec :: u32) div 1000000))"

definition absolute_createTimestamp :: "int \<Rightarrow> u64" where
  "absolute_createTimestamp epochMicroseconds = word_of_int (epochMicroseconds sdiv 1000)"

fun createTimestamp :: "ts_provider \<Rightarrow> (int \<times> int) option \<Rightarrow> int \<Rightarrow> u64" where
  "createTimestamp CUpTimeTsProvider monotonic epoch = uptime_createTimestamp monotonic"
| "createTimestamp CAbsoluteTimeTsProvider monotonic epoch = absolute_createTimestamp epoch"

text \<open>The factory keeps every pointer it returned, the null pointer included.\<close>

definition factory_createTimestamp ::
    "time_ref \<Rightarrow> ts_provider option list \<Rightarrow> ts_provider option \<times> ts_provider option list" where
  "factory_createTimestamp timeUnit tsProviders =
     (let ptr = (case timeUnit of
                   eTimeRefUpTime \<Rightarrow> Some CUpTimeTsProvider
                 | eTimeRefAbsoluteTime \<Rightarrow> Some CAbsoluteTimeTsProvider
                 | _ \<Rightarrow> None)
      in (ptr, tsProviders @ [ptr]))"

section \<open>The message\<close>

record msg_env =
  e_alloc :: "nat \<Rightarrow> bool"
  e_now :: u64
  e_version :: u32

record protocol_message =
  mType :: message_type
  mPayloadLength :: int
  mPayload :: "byte list option"
  mIsValid :: bool
  mIsUrgent :: bool
  mTimestampInMS :: u64
  mVersionToken :: u32
  mMmsgContextInfo :: "(string \<times> string) list"

text \<open>The payload after the call and the return value.\<close>

definition setupMessageBuffer :: "msg_env \<Rightarrow> int \<Rightarrow> byte list \<Rightarrow> byte list option \<times> bool" where
  "setupMessageBuffer env payloadLength payloadBuffer =
     (if payloadLength > 0 then
        (if e_alloc env (nat payloadLength)
         then (Some (memcpy_read (nat payloadLength) payloadBuffer), True)
         else (None, False))
      else (None, True))"

definition setTimestamp :: "msg_env \<Rightarrow> u64 \<Rightarrow> u64" where
  "setTimestamp env timestamp = (if timestamp = 0 then e_now env else timestamp)"

definition new_ProtocolMessage ::
    "msg_env \<Rightarrow> message_type \<Rightarrow> int \<Rightarrow> byte list \<Rightarrow> bool \<Rightarrow> u64 \<Rightarrow> (string \<times> string) list option
       \<Rightarrow> protocol_message" where
  "new_ProtocolMessage env ty payloadLength payloadBuffer urgent timestamp msgContextInfo =
     (let (payload, ok) = setupMessageBuffer env payloadLength payloadBuffer in
      \<lparr> mType = ty, mPayloadLength = payloadLength, mPayload = payload, mIsValid = ok,
        mIsUrgent = urgent, mTimestampInMS = setTimestamp env timestamp,
        mVersionToken = e_version env,
        mMmsgContextInfo = (case msgContextInfo of None \<Rightarrow> [] | Some m \<Rightarrow> m) \<rparr>)"

definition isValid :: "protocol_message \<Rightarrow> bool" where
  "isValid m = mIsValid m"

definition isUrgent :: "protocol_message \<Rightarrow> bool" where
  "isUrgent m = mIsUrgent m"

definition getTimestamp :: "protocol_message \<Rightarrow> u64" where
  "getTimestamp m = mTimestampInMS m"

definition getVersionToken :: "protocol_message \<Rightarrow> u32" where
  "getVersionToken m = mVersionToken m"

definition getContextInfo :: "protocol_message \<Rightarrow> (string \<times> string) list" where
  "getContextInfo m = mMmsgContextInfo m"

definition getMessageLength :: "protocol_message \<Rightarrow> int" where
  "getMessageLength m = (if mIsValid m then mPayloadLength m else 0)"

definition getMessageType :: "protocol_message \<Rightarrow> message_type" where
  "getMessageType m = (if mIsValid m then mType m else MSG_TYPE_INVALID)"

definition getPayloadData :: "protocol_message \<Rightarrow> byte list option" where
  "getPayloadData m = (if mIsValid m then mPayload m else None)"

text \<open>The part the copy constructor and the assignment share: allocate and copy the payload of
  \<open>rhs\<close> under its own length field. \<open>rhs\<close> may be invalid, with a positive length and no
  payload: the \<^verbatim>\<open>memcpy\<close> then reads from a null pointer.\<close>

definition copyPayload :: "msg_env \<Rightarrow> protocol_message \<Rightarrow> byte list option \<times> bool" where
  "copyPayload env rhs =
     setupMessageBuffer env (mPayloadLength rhs)
       (case mPayload rhs of None \<Rightarrow> [] | Some p \<Rightarrow> p)"

text \<open>Assignment; \<open>same\<close> is the test \<^verbatim>\<open>this == &rhs\<close>. Only type, length, payload and
  validity come from \<open>rhs\<close>: the context is assigned to itself
  (\<^verbatim>\<open>this->mMmsgContextInfo = mMmsgContextInfo\<close>), the urgent flag and the timestamp are left
  alone. (The previous payload is not freed, which the value does not show.)\<close>

definition assign_message ::
    "msg_env \<Rightarrow> bool \<Rightarrow> protocol_message \<Rightarrow> protocol_message \<Rightarrow> protocol_message" where
  "assign_message env same this rhs =
     (if same then this else
      (let (payload, ok) = copyPayload env rhs in
       this\<lparr> mType := mType rhs, mPayloadLength := mPayloadLength rhs, mPayload := payload,
             mIsValid := ok, mMmsgContextInfo := mMmsgContextInfo this \<rparr>))"

definition copy_message :: "msg_env \<Rightarrow> protocol_message \<Rightarrow> protocol_message" where
  "copy_message env msg =
     (let (payload, ok) = copyPayload env msg in
      \<lparr> mType = mType msg, mPayloadLength = mPayloadLength msg, mPayload = payload,
        mIsValid = ok, mIsUrgent = isUrgent msg, mTimestampInMS = getTimestamp msg,
        mVersionToken = e_version env, mMmsgContextInfo = getContextInfo msg \<rparr>)"

section \<open>The message invariant\<close>

text \<open>A message object is well formed when a valid one has exactly the payload its length
  announces, and an invalid one has no payload at all.\<close>

definition message_wf :: "protocol_message \<Rightarrow> bool" where
  "message_wf m =
     (if mIsValid m
      then (if mPayloadLength m > 0
            then (\<exists>p. mPayload m = Some p \<and> int (length p) = mPayloadLength m)
            else mPayload m = None)
      else mPayload m = None \<and> mPayloadLength m > 0)"

lemmas message_getters = isValid_def isUrgent_def getTimestamp_def getVersionToken_def
  getContextInfo_def getMessageLength_def getMessageType_def getPayloadData_def

lemma setupMessageBuffer_cases:
  assumes "setupMessageBuffer env n buf = (p, ok)"
  obtains (empty) "n \<le> 0" "p = None" "ok"
    | (copied) "n > 0" "e_alloc env (nat n)" "p = Some (memcpy_read (nat n) buf)" "ok"
    | (failed) "n > 0" "\<not> e_alloc env (nat n)" "p = None" "\<not> ok"
  using assms by (auto simp: setupMessageBuffer_def split: if_splits)

lemma message_wf_new [simp]:
  "message_wf (new_ProtocolMessage env ty n buf urgent ts ctx)"
  by (simp add: message_wf_def new_ProtocolMessage_def setupMessageBuffer_def)

lemma message_wf_copy [simp]: "message_wf (copy_message env msg)"
  by (simp add: message_wf_def copy_message_def copyPayload_def setupMessageBuffer_def)

lemma message_wf_assign [simp]: "message_wf this \<Longrightarrow> message_wf (assign_message env same this rhs)"
  by (auto simp: message_wf_def assign_message_def copyPayload_def setupMessageBuffer_def
      split: if_splits)

lemma new_ProtocolMessage_sel [simp]:
  "getTimestamp (new_ProtocolMessage env ty n buf urgent ts ctx) = setTimestamp env ts"
  "isUrgent (new_ProtocolMessage env ty n buf urgent ts ctx) = urgent"
  "getVersionToken (new_ProtocolMessage env ty n buf urgent ts ctx) = e_version env"
  "getContextInfo (new_ProtocolMessage env ty n buf urgent ts ctx) =
     (case ctx of None \<Rightarrow> [] | Some m \<Rightarrow> m)"
  "isValid (new_ProtocolMessage env ty n buf urgent ts ctx) = (n \<le> 0 \<or> e_alloc env (nat n))"
  by (auto simp: message_getters new_ProtocolMessage_def setupMessageBuffer_def Let_def)

lemma new_ProtocolMessage_valid_sel:
  assumes "n \<le> 0 \<or> e_alloc env (nat n)"
  shows "getMessageLength (new_ProtocolMessage env ty n buf urgent ts ctx) = n"
    and "getMessageType (new_ProtocolMessage env ty n buf urgent ts ctx) = ty"
    and "getPayloadData (new_ProtocolMessage env ty n buf urgent ts ctx) =
           (if n > 0 then Some (memcpy_read (nat n) buf) else None)"
  using assms by (auto simp: message_getters new_ProtocolMessage_def setupMessageBuffer_def)

text \<open>The constructor only looks at the bytes it copies.\<close>

lemma new_ProtocolMessage_cong:
  "memcpy_read (nat n) b = memcpy_read (nat n) b' \<Longrightarrow>
     new_ProtocolMessage env ty n b urgent ts ctx = new_ProtocolMessage env ty n b' urgent ts ctx"
  by (simp add: new_ProtocolMessage_def setupMessageBuffer_def)

text \<open>The bytes a message stands for on the wire and in a file.\<close>

definition payload_bytes :: "protocol_message \<Rightarrow> byte list" where
  "payload_bytes m = (case getPayloadData m of None \<Rightarrow> [] | Some p \<Rightarrow> p)"

lemma message_wf_payload_length:
  "message_wf m \<Longrightarrow> length (payload_bytes m) = nat (getMessageLength m)"
  by (auto simp: message_wf_def payload_bytes_def message_getters split: if_splits)

section \<open>Properties\<close>

text \<open>The copy constructor is faithful: copying a valid message that was built by the
  constructor, when the allocation succeeds, yields a valid message with the same type, length,
  payload bytes, urgency, timestamp and context; only the version token is taken afresh.\<close>

theorem copy_message_faithful:
  assumes "message_wf m" "isValid m" "e_alloc env (nat (getMessageLength m))"
  shows "copy_message env m = m\<lparr> mVersionToken := e_version env \<rparr>"
  using assms
  by (cases m) (auto simp: message_wf_def message_getters copy_message_def copyPayload_def
      setupMessageBuffer_def split: if_splits)

theorem copy_message_faithful_witness:
  "let env = \<lparr> e_alloc = (\<lambda>_. True), e_now = 5, e_version = 7 \<rparr>;
       m = new_ProtocolMessage env 1 2 [10, 20] True 9 (Some [(''k'', ''v'')])
   in copy_message env m = m\<lparr> mVersionToken := 7 \<rparr>"
  unfolding Let_def
  by (subst copy_message_faithful) (auto simp: new_ProtocolMessage_valid_sel)

text \<open>Assignment between messages loses what it does not copy: when the right-hand side has a
  different context, or is urgent where the target is not, the assigned object keeps the old
  context and the old urgency (the code assigns the context to itself), although type, length and
  payload are those of the right-hand side.\<close>

theorem assign_message_keeps_context:
  "getContextInfo (assign_message env False this rhs) = getContextInfo this \<and>
   isUrgent (assign_message env False this rhs) = isUrgent this \<and>
   getTimestamp (assign_message env False this rhs) = getTimestamp this \<and>
   (message_wf rhs \<and> isValid rhs \<and> (\<forall>n. e_alloc env n) \<longrightarrow>
      getMessageType (assign_message env False this rhs) = getMessageType rhs \<and>
      payload_bytes (assign_message env False this rhs) = payload_bytes rhs)"
  by (auto simp: assign_message_def copyPayload_def setupMessageBuffer_def message_getters
      message_wf_def payload_bytes_def split: if_splits)

theorem assign_message_keeps_context_witness:
  "let env = \<lparr> e_alloc = (\<lambda>_. True), e_now = 5, e_version = 7 \<rparr>;
       m1 = new_ProtocolMessage env 1 1 [1] False 9 (Some [(''a'', ''x'')]);
       m2 = new_ProtocolMessage env 2 2 [8, 9] True 11 (Some [(''b'', ''y'')])
   in getContextInfo (assign_message env False m1 m2) = [(''a'', ''x'')] \<and>
      getContextInfo m2 = [(''b'', ''y'')] \<and>
      getMessageType (assign_message env False m1 m2) = 2"
  unfolding Let_def
  using assign_message_keeps_context
    [of "\<lparr> e_alloc = (\<lambda>_. True), e_now = 5, e_version = 7 \<rparr>"
      "new_ProtocolMessage \<lparr> e_alloc = (\<lambda>_. True), e_now = 5, e_version = 7 \<rparr> 1 1 [1] False 9
         (Some [(''a'', ''x'')])"
      "new_ProtocolMessage \<lparr> e_alloc = (\<lambda>_. True), e_now = 5, e_version = 7 \<rparr> 2 2 [8, 9] True 11
         (Some [(''b'', ''y'')])"]
  by (simp add: new_ProtocolMessage_valid_sel)

text \<open>The up-time timestamp is the monotonic clock in milliseconds up to a wrap of the seconds
  part: for a clock reading with a non-negative number of seconds and a nanosecond part below one
  second it equals \<open>(1000 * sec) mod 2^32 + nsec div 10^6\<close>, so it is the true number of
  milliseconds exactly as long as \<open>1000 * sec\<close> fits 32 bits (49.7 days).\<close>

theorem uptime_timestamp_value:
  assumes "0 \<le> sec" "0 \<le> nsec" "nsec < 1000000000"
  shows "uint (uptime_createTimestamp (Some (sec, nsec))) =
           (sec * 1000) mod 2 ^ 32 + nsec div 1000000 \<and>
         (uint (uptime_createTimestamp (Some (sec, nsec))) = sec * 1000 + nsec div 1000000
           \<longleftrightarrow> sec * 1000 < 2 ^ 32)"
proof -
  have ns: "uint (word_of_int nsec :: u32) = nsec"
    using assms by (simp add: uint_of_int_u32)
  have s: "uint ((word_of_int sec :: u32) * 1000) = (sec * 1000) mod 2 ^ 32"
    by (simp add: uint_word_arith_bintrs uint_word_of_int take_bit_eq_mod mod_mult_left_eq)
  have lt: "(sec * 1000) mod 2 ^ 32 < 2 ^ 32" "nsec div 1000000 < 1000"
    using assms by auto
  have ge: "0 \<le> (sec * 1000) mod 2 ^ 32" "0 \<le> nsec div 1000000"
    using assms by auto
  have "uint (uptime_createTimestamp (Some (sec, nsec))) =
      (sec * 1000) mod 2 ^ 32 + nsec div 1000000"
    unfolding uptime_createTimestamp_def option.case prod.case s ns
    using lt ge by (intro uint_of_int_u64) simp_all
  then show ?thesis
    using assms lt ge by (auto simp: mod_pos_pos_trivial)
qed

theorem uptime_timestamp_value_witness:
  "uint (uptime_createTimestamp (Some (4294968, 5000000))) = 704 + 5 \<and>
   uint (uptime_createTimestamp (Some (4294967, 0))) = 4294967000"
  using uptime_timestamp_value [of 4294968 5000000] uptime_timestamp_value [of 4294967 0]
  by simp

end
