(* ===== verification/Serializer.thy ===== *)
theory Serializer
  imports Messages
begin

text \<open>
  The frame header (\<^verbatim>\<open>target_agent_prot_frame.proto\<close>) and the file serializer of the message
  recorder (\<^verbatim>\<open>message-recorder/src/Serializer.cpp\<close>).

  The generated protobuf code is a parameter: a \<open>codec\<close> is the pair of
  \<^verbatim>\<open>SerializeToArray\<close> (with \<^verbatim>\<open>ByteSize\<close> its length) and \<^verbatim>\<open>ParseFromArray\<close>.
  What is relied on is that parsing the serialized bytes of a header returns that header
  (\<open>codec_on\<close>).

  A file is its bytes. An output stream is the file it appends to, with its write position; an
  input stream is the rest of the bytes and the \<^verbatim>\<open>good()\<close> bit. What the file system decides is
  in \<open>rec_env\<close>: whether a path can be opened and written, the position \<^verbatim>\<open>tellp()\<close> reports right after
  a file of a given length has been opened for appending (0 with libstdc++ on POSIX, the length
  elsewhere), and the names of the files.
\<close>

section \<open>The frame header\<close>

record frame_header =
  h_length :: int
  h_type :: message_type
  h_timestamp :: u64
  h_versionToken :: u32
  h_meta :: "(string \<times> string) list"

record codec =
  enc :: "frame_header \<Rightarrow> byte list"
  dec :: "byte list \<Rightarrow> frame_header option"

definition ByteSize :: "codec \<Rightarrow> frame_header \<Rightarrow> nat" where
  "ByteSize C h = length (enc C h)"

definition codec_on :: "codec \<Rightarrow> frame_header \<Rightarrow> bool" where
  "codec_on C h \<longleftrightarrow> dec C (enc C h) = Some h \<and> enc C h \<noteq> []"

definition empty_header :: frame_header where
  "empty_header = \<lparr> h_length = 0, h_type = 0, h_timestamp = 0, h_versionToken = 0, h_meta = [] \<rparr>"

definition writeMessageHeader :: "protocol_message \<Rightarrow> frame_header" where
  "writeMessageHeader msg =
     \<lparr> h_length = getMessageLength msg, h_type = getMessageType msg,
       h_timestamp = getTimestamp msg, h_versionToken = getVersionToken msg,
       h_meta = getContextInfo msg \<rparr>"

lemma writeMessageHeader_sel [simp]:
  "h_length (writeMessageHeader m) = getMessageLength m"
  "h_type (writeMessageHeader m) = getMessageType m"
  "h_timestamp (writeMessageHeader m) = getTimestamp m"
  "h_versionToken (writeMessageHeader m) = getVersionToken m"
  "h_meta (writeMessageHeader m) = getContextInfo m"
  by (simp_all add: writeMessageHeader_def)

section \<open>The serializer\<close>

text \<open>The faults the C++ code can run into: an \<^verbatim>\<open>ios_base::failure\<close> exception, a write past the end
  of an array, \<^verbatim>\<open>back()\<close> of an empty vector, a Poco exception of a file operation,
  and \<^verbatim>\<open>out_of_range\<close> of a checked access.\<close>

datatype rec_error = IosFailure | BufferOverflow | EmptyVector | PocoException | OutOfRange

record ostream =
  o_path :: string
  o_pos :: nat

type_synonym files = "string \<Rightarrow> byte list option"

record rec_env =
  re_codec :: codec
  re_canOpen :: "string \<Rightarrow> bool"
  re_canWrite :: "string \<Rightarrow> bool"
  re_appendPos :: "nat \<Rightarrow> nat"
  re_createPath :: "u32 \<Rightarrow> string"
  re_tempName :: "nat \<Rightarrow> string"
  re_recorderOn :: bool
  re_fileSizeLimit :: u32
  re_msgEnv :: msg_env

text \<open>The serializer's fields, and the file system it writes to; the recorder that owns the serializer
  extends this record.\<close>

record serializer =
  sr_stream :: "ostream option"
  sr_headerBuffer :: "byte list"
  sr_payloadBuffer :: "byte list"
  sr_header :: frame_header
  sr_crtAmountOfBytes :: u64
  sr_fs :: files

abbreviation MAX_HEADER_SIZE :: nat where "MAX_HEADER_SIZE \<equiv> 255"

definition new_serializer :: "files \<Rightarrow> serializer" where
  "new_serializer fs =
     \<lparr> sr_stream = None, sr_headerBuffer = replicate (MAX_HEADER_SIZE + 1) 0,
       sr_payloadBuffer = replicate 1 0, sr_header = empty_header, sr_crtAmountOfBytes = 0,
       sr_fs = fs \<rparr>"

definition file_content :: "files \<Rightarrow> string \<Rightarrow> byte list" where
  "file_content fs file = (case fs file of None \<Rightarrow> [] | Some c \<Rightarrow> c)"

text \<open>Opening for appending creates the file. Opening an open stream, or a path that cannot be opened,
  sets the fail bit, which the exception mask turns into an exception.\<close>

definition openStream :: "rec_env \<Rightarrow> string \<Rightarrow> (rec_error, 'z serializer_scheme, unit) op" where
  "openStream E file = (\<lambda>s.
     (if sr_stream s \<noteq> None \<or> \<not> re_canOpen E file then (Inl IosFailure, s)
      else (let content = file_content (sr_fs s) file in
            (Inr (), s\<lparr> sr_stream := Some \<lparr> o_path = file, o_pos = re_appendPos E (length content) \<rparr>,
                       sr_fs := (sr_fs s)(file \<mapsto> content) \<rparr>))))"

definition closeStream :: "(rec_error, 'z serializer_scheme, unit) op" where
  "closeStream = (\<lambda>s. (if sr_stream s = None then (Inl IosFailure, s)
                      else (Inr (), s\<lparr> sr_stream := None \<rparr>)))"

definition resetCounters :: "(rec_error, 'z serializer_scheme, unit) op" where
  "resetCounters = modifyE (\<lambda>s. s\<lparr> sr_crtAmountOfBytes := 0 \<rparr>)"

text \<open>\<^verbatim>\<open>tellp()\<close> of a closed stream is -1.\<close>

definition getCurentPosition :: "'z serializer_scheme \<Rightarrow> int" where
  "getCurentPosition s = (case sr_stream s of None \<Rightarrow> - 1 | Some os \<Rightarrow> int (o_pos os))"

definition isHeaderSizeValid :: "rec_env \<Rightarrow> 'z serializer_scheme \<Rightarrow> bool" where
  "isHeaderSizeValid E s = (ByteSize (re_codec E) (sr_header s) < MAX_HEADER_SIZE)"

text \<open>The limit is computed in 32 bits before it is compared with the 64-bit counter.\<close>

definition isFileSizeLimitReached :: "rec_env \<Rightarrow> 'z serializer_scheme \<Rightarrow> bool" where
  "isFileSizeLimitReached E s =
     (re_recorderOn E \<and> re_fileSizeLimit E \<noteq> 0 \<and>
      uint (sr_crtAmountOfBytes s) \<ge> uint (re_fileSizeLimit E * 1024 * 1024))"

text \<open>A write to an open stream appends to its file and moves the position to the end of it.
  Writing to a closed stream fails.\<close>

definition stream_write :: "byte list \<Rightarrow> (rec_error, 'z serializer_scheme, unit) op" where
  "stream_write bytes = (\<lambda>s.
     (case sr_stream s of
        None \<Rightarrow> (Inl IosFailure, s)
      | Some os \<Rightarrow>
          (let content = file_content (sr_fs s) (o_path os) @ bytes in
           (Inr (), s\<lparr> sr_stream := Some (os\<lparr> o_pos := length content \<rparr>),
                      sr_fs := (sr_fs s)(o_path os \<mapsto> content) \<rparr>))))"

text \<open>One length byte, the header bytes out of the shared header buffer, the payload.\<close>

definition flushMessage ::
    "rec_env \<Rightarrow> protocol_message \<Rightarrow> (rec_error, 'z serializer_scheme, unit) op" where
  "flushMessage E msg = (\<lambda>s.
     (let n = ByteSize (re_codec E) (sr_header s) in
      thenE (stream_write [word_of_nat n])
        (thenE (stream_write (memcpy_read n (sr_headerBuffer s)))
               (stream_write (memcpy_read (nat (h_length (sr_header s))) (payload_bytes msg)))) s))"

text \<open>The header is serialized into the 256-byte static buffer before its size is checked. The result
  is the return value and the final value of the reference parameter \<^verbatim>\<open>limitReached\<close>.\<close>

definition serializeMessage ::
    "rec_env \<Rightarrow> protocol_message \<Rightarrow> bool \<Rightarrow> (rec_error, 'z serializer_scheme, bool \<times> bool) op" where
  "serializeMessage E msg limitReached = (\<lambda>s.
     (if sr_stream s = None then (Inr (False, limitReached), s)
      else
       (let h = writeMessageHeader msg; s1 = s\<lparr> sr_header := h \<rparr> in
        case buf_write 0 (enc (re_codec E) h) (sr_headerBuffer s) of
          None \<Rightarrow> (Inl BufferOverflow, s1)
        | Some buf \<Rightarrow>
           (let s2 = s1\<lparr> sr_headerBuffer := buf \<rparr> in
            if \<not> isHeaderSizeValid E s2 then (Inr (False, limitReached), s2)
            else
             (let s3 = s2\<lparr> sr_crtAmountOfBytes := sr_crtAmountOfBytes s2
                             + word_of_int (int (ByteSize (re_codec E) h) + 1 + h_length h) \<rparr> in
              if isFileSizeLimitReached E s3
              then thenE resetCounters (returnE (False, True)) s3
              else thenE (flushMessage E msg) (returnE (True, limitReached)) s3)))))"

section \<open>Reading a file back\<close>

record istream =
  i_rest :: "byte list"
  i_good :: bool

text \<open>\<^verbatim>\<open>readRaw(buf, n)\<close>: what is left is copied, up to \<open>n\<close> bytes; running out of input clears
  \<^verbatim>\<open>good()\<close>, and a stream that is not good delivers nothing.\<close>

definition readRaw :: "nat \<Rightarrow> istream \<Rightarrow> byte list \<Rightarrow> byte list \<times> istream" where
  "readRaw n inp buf =
     (if i_good inp
      then (take n (i_rest inp) @ drop (min n (length (i_rest inp))) buf,
            \<lparr> i_rest = drop n (i_rest inp), i_good = (n \<le> length (i_rest inp)) \<rparr>)
      else (buf, inp))"

definition adjustMessageBuffer :: "u32 \<Rightarrow> byte list \<Rightarrow> byte list" where
  "adjustMessageBuffer expectedSize buffer =
     (if unat expectedSize > length buffer then replicate (unat expectedSize) 0 else buffer)"

definition deserialzeMessage ::
    "rec_env \<Rightarrow> 'z serializer_scheme \<Rightarrow> istream
       \<Rightarrow> protocol_message option \<times> 'z serializer_scheme \<times> istream" where
  "deserialzeMessage E s inp =
     (let (lb, inp1) = readRaw 1 inp [0]; headerLength = unat (hd lb) in
      if headerLength > 0 then
        (let (hb, inp2) = readRaw headerLength inp1 (sr_headerBuffer s);
             s1 = s\<lparr> sr_headerBuffer := hb \<rparr> in
         case dec (re_codec E) (memcpy_read headerLength hb) of
           None \<Rightarrow> (None, s1, inp2)
         | Some h \<Rightarrow>
            (let pb0 = adjustMessageBuffer (word_of_int (h_length h)) (sr_payloadBuffer s);
                 (pb, inp3) = readRaw (nat (h_length h)) inp2 pb0
             in (Some (new_ProtocolMessage (re_msgEnv E) (h_type h) (h_length h) pb False
                         (h_timestamp h) None),
                 s1\<lparr> sr_header := h, sr_payloadBuffer := pb \<rparr>, inp3)))
      else (None, s, inp1))"

section \<open>Frames\<close>

text \<open>The bytes \<^verbatim>\<open>flushMessage\<close> leaves in the file for one message, the messages that can be stored
  (valid, header short enough for its length byte, header codec faithful on it), and what a stored
  message is when it is read back.\<close>

definition frame_bytes :: "rec_env \<Rightarrow> protocol_message \<Rightarrow> byte list" where
  "frame_bytes E m = word_of_nat (ByteSize (re_codec E) (writeMessageHeader m))
     # enc (re_codec E) (writeMessageHeader m) @ payload_bytes m"

definition recordable :: "rec_env \<Rightarrow> protocol_message \<Rightarrow> bool" where
  "recordable E m \<longleftrightarrow>
     message_wf m \<and> isValid m \<and> 0 \<le> getMessageLength m \<and> getMessageLength m < 2 ^ 31 \<and>
     codec_on (re_codec E) (writeMessageHeader m) \<and>
     ByteSize (re_codec E) (writeMessageHeader m) < MAX_HEADER_SIZE \<and>
     e_alloc (re_msgEnv E) (nat (getMessageLength m))"

definition replayed :: "rec_env \<Rightarrow> protocol_message \<Rightarrow> protocol_message" where
  "replayed E m = new_ProtocolMessage (re_msgEnv E) (getMessageType m) (getMessageLength m)
     (payload_bytes m) False (getTimestamp m) None"

definition serializer_wf :: "'z serializer_scheme \<Rightarrow> bool" where
  "serializer_wf s \<longleftrightarrow> length (sr_headerBuffer s) = MAX_HEADER_SIZE + 1"

text \<open>What reading may change in the serializer: its buffers and its header object.\<close>

definition buffers_changed :: "'z serializer_scheme \<Rightarrow> 'z serializer_scheme \<Rightarrow> bool" where
  "buffers_changed s s' \<longleftrightarrow>
     (\<exists>hb pb h. s' = s\<lparr> sr_headerBuffer := hb, sr_payloadBuffer := pb, sr_header := h \<rparr>)"

lemma buffers_changed_refl [simp]: "buffers_changed s s"
  unfolding buffers_changed_def
  by (rule exI [of _ "sr_headerBuffer s"], rule exI [of _ "sr_payloadBuffer s"],
      rule exI [of _ "sr_header s"], simp)

lemma buffers_changed_upd [simp]:
  "buffers_changed s (s\<lparr> sr_headerBuffer := a, sr_header := h, sr_payloadBuffer := b \<rparr>)"
  "buffers_changed s (s\<lparr> sr_headerBuffer := a \<rparr>)"
  unfolding buffers_changed_def
   apply (rule exI [of _ a], rule exI [of _ b], rule exI [of _ h], simp)
  apply (rule exI [of _ a], rule exI [of _ "sr_payloadBuffer s"], rule exI [of _ "sr_header s"], simp)
  done

lemma buffers_changed_trans: "buffers_changed a b \<Longrightarrow> buffers_changed b c \<Longrightarrow> buffers_changed a c"
  by (force simp: buffers_changed_def)

lemma buffers_changed_sel:
  "buffers_changed s s' \<Longrightarrow> sr_stream s' = sr_stream s \<and> sr_fs s' = sr_fs s
     \<and> sr_crtAmountOfBytes s' = sr_crtAmountOfBytes s \<and> serializer.more s' = serializer.more s"
  by (auto simp: buffers_changed_def)

lemma recordable_payload_length:
  "recordable E m \<Longrightarrow> length (payload_bytes m) = nat (getMessageLength m)"
  by (simp add: recordable_def message_wf_payload_length)

lemma readRaw_append:
  "length xs = n \<Longrightarrow> n \<le> length buf \<Longrightarrow>
   readRaw n \<lparr> i_rest = xs @ ys, i_good = True \<rparr> buf
     = (xs @ drop n buf, \<lparr> i_rest = ys, i_good = True \<rparr>)"
  by (simp add: readRaw_def)

lemma length_adjustMessageBuffer: "unat n \<le> length (adjustMessageBuffer n buf)"
  by (simp add: adjustMessageBuffer_def)

text \<open>Reading a frame back consumes exactly its bytes and rebuilds the message.\<close>

lemma deserialze_frame:
  assumes m: "recordable E m" and wf: "serializer_wf s"
  shows "\<exists>s'. deserialzeMessage E s \<lparr> i_rest = frame_bytes E m @ rest, i_good = True \<rparr>
            = (Some (replayed E m), s', \<lparr> i_rest = rest, i_good = True \<rparr>) \<and>
          serializer_wf s' \<and> buffers_changed s s'"
proof -
  let ?h = "writeMessageHeader m" and ?C = "re_codec E"
  let ?n = "length (enc ?C ?h)"
  have n: "0 < ?n" "?n < 255" and d: "dec ?C (enc ?C ?h) = Some ?h"
    using m by (auto simp: recordable_def codec_on_def ByteSize_def)
  have un: "unat (word_of_nat ?n :: byte) = ?n"
    using n by (simp add: unat_of_nat)
  let ?L = "nat (getMessageLength m)"
  have len: "length (payload_bytes m) = ?L" "0 \<le> getMessageLength m" "getMessageLength m < 2 ^ 31"
    using m by (auto simp: recordable_payload_length recordable_def)
  let ?head = "enc ?C ?h @ drop ?n (sr_headerBuffer s)"
  let ?buf = "adjustMessageBuffer (word_of_int (getMessageLength m)) (sr_payloadBuffer s)"
  let ?out = "payload_bytes m @ drop ?L ?buf"
  have r1: "readRaw (Suc 0) \<lparr> i_rest = frame_bytes E m @ rest, i_good = True \<rparr> [0]
     = ([word_of_nat ?n], \<lparr> i_rest = enc ?C ?h @ payload_bytes m @ rest, i_good = True \<rparr>)"
    by (simp add: readRaw_def frame_bytes_def ByteSize_def)
  have r2: "readRaw ?n \<lparr> i_rest = enc ?C ?h @ payload_bytes m @ rest, i_good = True \<rparr>
       (sr_headerBuffer s) = (?head, \<lparr> i_rest = payload_bytes m @ rest, i_good = True \<rparr>)"
    using n wf by (intro readRaw_append) (auto simp: serializer_wf_def)
  have "?L \<le> length ?buf"
    using len length_adjustMessageBuffer [of "word_of_int (getMessageLength m)" "sr_payloadBuffer s"]
    by (simp add: unat_eq_nat_uint uint_of_int_u32)
  then have r3: "readRaw ?L \<lparr> i_rest = payload_bytes m @ rest, i_good = True \<rparr> ?buf
     = (?out, \<lparr> i_rest = rest, i_good = True \<rparr>)"
    using len by (intro readRaw_append) auto
  have new: "new_ProtocolMessage (re_msgEnv E) (getMessageType m) (getMessageLength m) ?out False
      (getTimestamp m) None = replayed E m"
    using len unfolding replayed_def new_ProtocolMessage_def setupMessageBuffer_def
    by (metis memcpy_read_append memcpy_read_self)
  show ?thesis
    unfolding deserialzeMessage_def
    using n wf
    by (simp add: r1 un r2 d Let_def r3 new serializer_wf_def)
qed

text \<open>What one successful \<^verbatim>\<open>serializeMessage\<close> leaves: the frame appended to the open file.\<close>

definition frame_size :: "rec_env \<Rightarrow> protocol_message \<Rightarrow> u64" where
  "frame_size E m =
     word_of_int (int (ByteSize (re_codec E) (writeMessageHeader m)) + 1 + getMessageLength m)"

definition limit_hit :: "rec_env \<Rightarrow> u64 \<Rightarrow> bool" where
  "limit_hit E n \<longleftrightarrow> re_recorderOn E \<and> re_fileSizeLimit E \<noteq> 0 \<and>
     uint n \<ge> uint (re_fileSizeLimit E * 1024 * 1024)"

lemma isFileSizeLimitReached_hit [simp]:
  "isFileSizeLimitReached E s \<longleftrightarrow> limit_hit E (sr_crtAmountOfBytes s)"
  by (simp add: isFileSizeLimitReached_def limit_hit_def)

lemma stream_write_open:
  "sr_stream s = Some os \<Longrightarrow>
   stream_write b s = (Inr (), s\<lparr> sr_stream := Some (os\<lparr> o_pos := length (file_content (sr_fs s) (o_path os) @ b) \<rparr>),
      sr_fs := (sr_fs s)(o_path os \<mapsto> file_content (sr_fs s) (o_path os) @ b) \<rparr>)"
  by (simp add: stream_write_def Let_def)

lemma file_content_upd [simp]: "file_content (fs(p \<mapsto> c)) p = c"
  by (simp add: file_content_def)

lemma serialize_recordable:
  assumes m: "recordable E m" and wf: "serializer_wf s" and os: "sr_stream s = Some os"
    and lim: "\<not> limit_hit E (sr_crtAmountOfBytes s + frame_size E m)"
  defines "content \<equiv> file_content (sr_fs s) (o_path os) @ frame_bytes E m"
  shows "\<exists>hb. serializeMessage E m b s = (Inr (True, b),
           s\<lparr> sr_stream := Some \<lparr> o_path = o_path os, o_pos = length content \<rparr>,
              sr_headerBuffer := hb, sr_header := writeMessageHeader m,
              sr_crtAmountOfBytes := sr_crtAmountOfBytes s + frame_size E m,
              sr_fs := (sr_fs s)(o_path os \<mapsto> content) \<rparr>) \<and> length hb = MAX_HEADER_SIZE + 1"
proof -
  let ?e = "enc (re_codec E) (writeMessageHeader m)"
  have n: "length ?e < 255"
    using m by (auto simp: recordable_def ByteSize_def)
  let ?hb = "?e @ drop (length ?e) (sr_headerBuffer s)"
  have w: "buf_write 0 ?e (sr_headerBuffer s) = Some ?hb"
    using n wf by (simp add: buf_write_def serializer_wf_def)
  have pl: "memcpy_read (nat (getMessageLength m)) (payload_bytes m) = payload_bytes m"
    by (metis memcpy_read_self recordable_payload_length m)
  have e: "memcpy_read (length ?e) ?hb = ?e"
    by simp
  have lim': "\<not> limit_hit E (sr_crtAmountOfBytes s
                + word_of_int (int (length ?e) + 1 + getMessageLength m))"
    using lim by (simp add: frame_size_def ByteSize_def)
  have "serializeMessage E m b s = (Inr (True, b),
           s\<lparr> sr_stream := Some \<lparr> o_path = o_path os, o_pos = length content \<rparr>,
              sr_headerBuffer := ?hb, sr_header := writeMessageHeader m,
              sr_crtAmountOfBytes := sr_crtAmountOfBytes s + frame_size E m,
              sr_fs := (sr_fs s)(o_path os \<mapsto> content) \<rparr>)"
    unfolding serializeMessage_def
    using os w n lim'
    by (cases os)
      (simp add: Let_def ByteSize_def isHeaderSizeValid_def flushMessage_def thenE_def bindE_def
        stream_write_open pl content_def frame_bytes_def frame_size_def del: of_int_add)
  moreover have "length ?hb = MAX_HEADER_SIZE + 1"
    using n wf by (simp add: serializer_wf_def)
  ultimately show ?thesis
    by blast
qed

section \<open>A codec and an environment for examples\<close>

text \<open>A header codec that is faithful on small headers without context (type, length, timestamp and
  version below 256): it shows that the assumptions about the generated code can be met.\<close>

definition sample_codec :: codec where
  "sample_codec =
     \<lparr> enc = (\<lambda>h. [word_of_int (h_type h), word_of_int (h_length h), ucast (h_timestamp h),
                   ucast (h_versionToken h)]),
       dec = (\<lambda>bs. if length bs = 4
                   then Some \<lparr> h_length = uint (bs ! 1), h_type = uint (bs ! 0),
                               h_timestamp = ucast (bs ! 2), h_versionToken = ucast (bs ! 3),
                               h_meta = [] \<rparr>
                   else None) \<rparr>"

definition sample_msgEnv :: msg_env where
  "sample_msgEnv = \<lparr> e_alloc = (\<lambda>_. True), e_now = 77, e_version = 3 \<rparr>"

definition sample_env :: "bool \<Rightarrow> u32 \<Rightarrow> (nat \<Rightarrow> nat) \<Rightarrow> rec_env" where
  "sample_env recorderOn limit appendPos =
     \<lparr> re_codec = sample_codec, re_canOpen = (\<lambda>_. True), re_canWrite = (\<lambda>_. True),
       re_appendPos = appendPos, re_createPath = (\<lambda>k. replicate (unat k) CHR ''p''),
       re_tempName = (\<lambda>k. replicate k CHR ''t''), re_recorderOn = recorderOn,
       re_fileSizeLimit = limit, re_msgEnv = sample_msgEnv \<rparr>"

definition sample_message :: "message_type \<Rightarrow> byte list \<Rightarrow> u64 \<Rightarrow> protocol_message" where
  "sample_message ty payload ts =
     new_ProtocolMessage sample_msgEnv ty (int (length payload)) payload False ts None"

lemma sample_message_recordable:
  assumes "0 \<le> ty" "ty < 256" "length payload < 256" "ts \<noteq> 0" "ts < 256"
  shows "recordable (sample_env recorderOn limit appendPos) (sample_message ty payload ts)"
proof -
  have ok: "int (length payload) \<le> 0 \<or> e_alloc sample_msgEnv (nat (int (length payload)))"
    by (simp add: sample_msgEnv_def)
  have ts': "ucast (ucast ts :: byte) = ts"
    using assms(5)
    by (simp add: word_unat_eq_iff unsigned_ucast_eq take_bit_eq_mod word_less_nat_alt unat_mod)
  show ?thesis
    unfolding recordable_def sample_message_def
    using assms ok ts'
    by (simp add: new_ProtocolMessage_valid_sel codec_on_def sample_env_def sample_codec_def
        writeMessageHeader_def ByteSize_def sample_msgEnv_def setTimestamp_def
        uint_word_of_int take_bit_int_eq_self unsigned_of_nat take_bit_nat_eq_self)
qed

lemma sample_env_sel [simp]:
  "re_codec (sample_env b l a) = sample_codec" "re_canOpen (sample_env b l a) f"
  "re_canWrite (sample_env b l a) f" "re_appendPos (sample_env b l a) = a"
  "re_createPath (sample_env b l a) k = replicate (unat k) CHR ''p''"
  "re_tempName (sample_env b l a) n = replicate n CHR ''t''"
  "re_recorderOn (sample_env b l a) = b" "re_fileSizeLimit (sample_env b l a) = l"
  "re_msgEnv (sample_env b l a) = sample_msgEnv"
  by (simp_all add: sample_env_def)

lemma sample_message_sel [simp]:
  "getMessageLength (sample_message ty p ts) = int (length p)"
  "getMessageType (sample_message ty p ts) = ty"
  "payload_bytes (sample_message ty p ts) = p"
  by (auto simp: sample_message_def new_ProtocolMessage_valid_sel payload_bytes_def sample_msgEnv_def)

lemma sample_ByteSize [simp]: "ByteSize sample_codec h = 4"
  by (simp add: ByteSize_def sample_codec_def)

lemma sample_frame_size [simp]:
  "frame_size (sample_env b l a) (sample_message ty p ts) = word_of_int (5 + int (length p))"
  by (simp add: frame_size_def)

end
