(* ===== verification/Recorder.thy ===== *)
theory Recorder
  imports Serializer
begin

text \<open>
  The message recorder (\<^verbatim>\<open>message-recorder/src/MessageRecorder.cpp\<close>) in its two variants: the
  buffering handler (\<^verbatim>\<open>BufferingHandler.cpp\<close>: a temporary file for the time without a client)
  and the offline recorder (\<^verbatim>\<open>OfflineRecorder.cpp\<close>: one recording, split by size, that is kept).

  The base class and its subclasses are one record with a kind; a virtual call is a definition that
  looks at the kind. What a client hands to \<^verbatim>\<open>mSender->sendMessage\<close> is the returned list of messages.
  The mutex is recursive and held for a whole operation, so operations do not interleave.

  The interface the plugin proxy relies on is the locale \<open>message_store\<close>: recording appends to
  what is held for the client, sending hands it over once and in order, resuming starts afresh. It is
  interpreted on both variants.
\<close>

section \<open>State\<close>

datatype recorder_kind = BufferingHandler | OfflineRecorder

record recorder = serializer +
  r_kind :: recorder_kind
  r_partNumber :: u32
  r_fileHandles :: "string list"
  r_lastPosition :: "int \<times> nat"
  r_tempCount :: nat

type_synonym 'a rec_op = "(rec_error, recorder, 'a) op"

definition new_recorder :: "recorder_kind \<Rightarrow> files \<Rightarrow> recorder" where
  "new_recorder k fs = serializer.extend (new_serializer fs)
     \<lparr> r_kind = k, r_partNumber = 0, r_fileHandles = [], r_lastPosition = (0, 0),
       r_tempCount = 0 \<rparr>"

section \<open>Operations\<close>

text \<open>\<^verbatim>\<open>fileFactory\<close>: a temporary file with a fresh name, or the next part of the recording.\<close>

definition fileFactory :: "rec_env \<Rightarrow> string rec_op" where
  "fileFactory E = (\<lambda>r.
     (case r_kind r of
        BufferingHandler \<Rightarrow>
          (Inr (re_tempName E (r_tempCount r)), r\<lparr> r_tempCount := r_tempCount r + 1 \<rparr>)
      | OfflineRecorder \<Rightarrow>
          (Inr (re_createPath E (r_partNumber r)), r\<lparr> r_partNumber := r_partNumber r + 1 \<rparr>)))"

definition fileHandles_back :: "string rec_op" where
  "fileHandles_back = (\<lambda>r. if r_fileHandles r = [] then (Inl EmptyVector, r)
                          else (Inr (last (r_fileHandles r)), r))"

definition remove_back :: "unit rec_op" where
  "remove_back = bindE fileHandles_back (\<lambda>f r.
     (if sr_fs r f = None then (Inl PocoException, r)
      else (Inr (), r\<lparr> sr_fs := (sr_fs r)(f := None) \<rparr>)))"

definition resumeRecording :: "rec_env \<Rightarrow> unit rec_op" where
  "resumeRecording E = bindE fileHandles_back (openStream E)"

definition startRecording :: "rec_env \<Rightarrow> unit rec_op" where
  "startRecording E = bindE (fileFactory E) (\<lambda>f.
     thenE (modifyE (\<lambda>r. r\<lparr> r_fileHandles := r_fileHandles r @ [f] \<rparr>)) (resumeRecording E))"

definition pauseRecording :: "unit rec_op" where
  "pauseRecording = closeStream"

definition base_stopRecording :: "unit rec_op" where
  "base_stopRecording = thenE pauseRecording resetCounters"

definition stopRecording :: "unit rec_op" where
  "stopRecording = (\<lambda>r.
     (case r_kind r of
        BufferingHandler \<Rightarrow> thenE base_stopRecording remove_back r
      | OfflineRecorder \<Rightarrow> base_stopRecording r))"

definition create_recorder :: "rec_env \<Rightarrow> recorder_kind \<Rightarrow> files \<Rightarrow> (rec_error + unit) \<times> recorder" where
  "create_recorder E k fs = startRecording E (new_recorder k fs)"

text \<open>The handlers of \<^verbatim>\<open>recordMessage\<close> catch \<^verbatim>\<open>ios_base::failure\<close> and Poco exceptions; the other two
  faults are undefined behaviour and are not caught. The result says whether \<open>msg\<close> was deleted.\<close>

definition caught :: "rec_error \<Rightarrow> bool" where
  "caught e \<longleftrightarrow> e = IosFailure \<or> e = PocoException"

definition recordMessage :: "rec_env \<Rightarrow> protocol_message \<Rightarrow> bool \<Rightarrow> bool rec_op" where
  "recordMessage E msg doCleanup =
     thenE
       (catchE caught (\<lambda>_. returnE ())
         (bindE fileHandles_back (\<lambda>f r.
            (if \<not> re_canWrite E f \<or> sr_fs r f = None then returnE () r
             else bindE (serializeMessage E msg False) (\<lambda>(_, limitReached).
                    if limitReached
                    then thenE stopRecording
                          (thenE (startRecording E)
                            (thenE (serializeMessage E msg limitReached) (returnE ())))
                    else returnE ()) r))))
       (returnE doCleanup)"

definition istream_measure :: "istream \<Rightarrow> nat" where
  "istream_measure inp = length (i_rest inp) + (if i_good inp then 1 else 0)"

lemma readRaw_measure: "istream_measure (snd (readRaw n inp buf)) \<le> istream_measure inp"
  by (simp add: readRaw_def istream_measure_def)

lemma readRaw_1_measure:
  "i_good inp \<Longrightarrow> istream_measure (snd (readRaw (Suc 0) inp buf)) < istream_measure inp"
  by (cases "i_rest inp") (simp_all add: readRaw_def istream_measure_def)

lemma deserialze_measure:
  assumes "i_good inp" "deserialzeMessage E s inp = (mo, s', inp')"
  shows "istream_measure inp' < istream_measure inp"
proof -
  obtain lb i1 where r1: "readRaw 1 inp [0] = (lb, i1)" by force
  have m1: "istream_measure i1 < istream_measure inp"
    using readRaw_1_measure [OF assms(1), of "[0]"] r1 by simp
  obtain hb i2 where r2: "readRaw (unat (hd lb)) i1 (sr_headerBuffer s) = (hb, i2)" by force
  have m2: "istream_measure i2 \<le> istream_measure i1"
    using readRaw_measure [of "unat (hd lb)" i1 "sr_headerBuffer s"] r2 by simp
  have m3: "istream_measure (snd (readRaw n i2 buf)) \<le> istream_measure i2" for n buf
    by (rule readRaw_measure)
  have "inp' = i1 \<or> inp' = i2 \<or> (\<exists>n buf. inp' = snd (readRaw n i2 buf))"
  proof (cases "0 < unat (hd lb)")
    case False
    then show ?thesis
      using assms(2) unfolding deserialzeMessage_def r1 Let_def prod.case by simp
  next
    case True
    show ?thesis
    proof (cases "dec (re_codec E) (memcpy_read (unat (hd lb)) hb)")
      case None
      then show ?thesis
        using assms(2) True unfolding deserialzeMessage_def r1 Let_def prod.case r2 by simp
    next
      case (Some h)
      have "inp' = snd (readRaw (nat (h_length h)) i2
          (adjustMessageBuffer (word_of_int (h_length h)) (sr_payloadBuffer s)))"
        using assms(2) True unfolding deserialzeMessage_def r1 Let_def prod.case r2 Some
        by (simp only: if_True option.case case_prod_beta prod.inject)
      then show ?thesis
        by blast
    qed
  qed
  then show ?thesis
    using m1 m2 m3 by (elim disjE exE) (simp, simp, metis le_less_trans)
qed

function sendMessagesInOneFile ::
    "rec_env \<Rightarrow> 'z serializer_scheme \<Rightarrow> istream \<Rightarrow> protocol_message list \<times> 'z serializer_scheme" where
  "sendMessagesInOneFile E s fileReader =
     (if i_good fileReader then
        (case deserialzeMessage E s fileReader of (msg, s', fileReader') \<Rightarrow>
           (case sendMessagesInOneFile E s' fileReader' of (sent, s'') \<Rightarrow>
              (case msg of None \<Rightarrow> (sent, s'') | Some m \<Rightarrow> (m # sent, s''))))
      else ([], s))"
  by pat_completeness auto
termination
  by (relation "measure (\<lambda>(E, s, inp). istream_measure inp)") (auto dest: deserialze_measure [OF _ sym])

declare sendMessagesInOneFile.simps [simp del]

text \<open>\<^verbatim>\<open>ifstream\<close> on a missing file and \<^verbatim>\<open>seekg\<close> to a negative position leave a stream that is not
  \<^verbatim>\<open>good()\<close>.\<close>

definition open_reader :: "files \<Rightarrow> string \<Rightarrow> int option \<Rightarrow> istream" where
  "open_reader fs f seek =
     (case fs f of
        None \<Rightarrow> \<lparr> i_rest = [], i_good = False \<rparr>
      | Some c \<Rightarrow>
          (case seek of
             None \<Rightarrow> \<lparr> i_rest = c, i_good = True \<rparr>
           | Some p \<Rightarrow> (if p < 0 then \<lparr> i_rest = c, i_good = False \<rparr>
                       else \<lparr> i_rest = drop (nat p) c, i_good = True \<rparr>)))"

fun send_files ::
    "rec_env \<Rightarrow> int \<times> nat \<Rightarrow> (nat \<times> string) list \<Rightarrow> recorder \<Rightarrow> protocol_message list \<times> recorder" where
  "send_files E lastPos [] r = ([], r)"
| "send_files E lastPos ((i, f) # its) r =
     (let seek = (if fst lastPos \<noteq> 0 \<and> i = snd lastPos then Some (fst lastPos) else None);
          (sent, r') = sendMessagesInOneFile E r (open_reader (sr_fs r) f seek);
          (sent', r'') = send_files E lastPos its r'
      in (sent @ sent', r''))"

definition base_sendBufferedData :: "rec_env \<Rightarrow> protocol_message list rec_op" where
  "base_sendBufferedData E = (\<lambda>r.
     (let start = (if fst (r_lastPosition r) \<noteq> 0 then snd (r_lastPosition r) else 0);
          its = drop start (List.enumerate 0 (r_fileHandles r));
          (sent, r') = send_files E (r_lastPosition r) its r
      in thenE fileHandles_back (returnE sent) r'))"

text \<open>\<^verbatim>\<open>mFileHandles.at(mPartNumber - 1)\<close> is checked, and raises beyond the end.\<close>

definition sendBufferedData :: "rec_env \<Rightarrow> protocol_message list rec_op" where
  "sendBufferedData E = (\<lambda>r.
     (case r_kind r of
        BufferingHandler \<Rightarrow>
          thenE base_stopRecording
            (bindE (base_sendBufferedData E) (\<lambda>sent.
              thenE remove_back
                (thenE (modifyE (\<lambda>r. r\<lparr> r_fileHandles := butlast (r_fileHandles r) \<rparr>))
                  (returnE sent)))) r
      | OfflineRecorder \<Rightarrow>
          thenE pauseRecording
            (bindE (base_sendBufferedData E) (\<lambda>sent.
              thenE (resumeRecording E) (\<lambda>r.
                (if unat (r_partNumber r - 1) < length (r_fileHandles r)
                 then (Inr sent, r) else (Inl OutOfRange, r))))) r))"

definition resumeBuffering :: "rec_env \<Rightarrow> unit rec_op" where
  "resumeBuffering E = (\<lambda>r.
     (case r_kind r of
        BufferingHandler \<Rightarrow> startRecording E r
      | OfflineRecorder \<Rightarrow>
          (Inr (), r\<lparr> r_lastPosition := (getCurentPosition r, length (r_fileHandles r) - 1) \<rparr>)))"

text \<open>The destructor removes every file that is still in the list.\<close>

fun destroy_files :: "string list \<Rightarrow> unit rec_op" where
  "destroy_files [] r = (Inr (), r)"
| "destroy_files (f # fs) r =
     (if sr_fs r f = None then (Inl PocoException, r)
      else destroy_files fs (r\<lparr> sr_fs := (sr_fs r)(f := None) \<rparr>))"

definition destroy_recorder :: "unit rec_op" where
  "destroy_recorder = (\<lambda>r.
     thenE (destroy_files (r_fileHandles r)) (modifyE (\<lambda>r. r\<lparr> r_fileHandles := [] \<rparr>)) r)"

section \<open>Reading back a file of frames\<close>

lemma send_file_empty:
  "sendMessagesInOneFile E s \<lparr> i_rest = [], i_good = True \<rparr> = ([], s)"
  "sendMessagesInOneFile E s \<lparr> i_rest = rest, i_good = False \<rparr> = ([], s)"
  by (simp_all add: sendMessagesInOneFile.simps [of _ _ "\<lparr> i_rest = _, i_good = _ \<rparr>"]
      deserialzeMessage_def readRaw_def)

lemma send_file_frames:
  assumes "\<forall>m \<in> set ms. recordable E m" "serializer_wf s"
  shows "\<exists>s'. sendMessagesInOneFile E s \<lparr> i_rest = concat (List.map (frame_bytes E) ms), i_good = True \<rparr>
             = (List.map (replayed E) ms, s') \<and> serializer_wf s' \<and> buffers_changed s s'"
  using assms
proof (induction ms arbitrary: s)
  case (Cons m ms)
  obtain s1 where s1: "deserialzeMessage E s
        \<lparr> i_rest = frame_bytes E m @ concat (List.map (frame_bytes E) ms), i_good = True \<rparr>
      = (Some (replayed E m), s1, \<lparr> i_rest = concat (List.map (frame_bytes E) ms), i_good = True \<rparr>)"
    "serializer_wf s1" "buffers_changed s s1"
    using deserialze_frame [of E m s "concat (List.map (frame_bytes E) ms)"] Cons.prems by auto
  obtain s2 where "sendMessagesInOneFile E s1
        \<lparr> i_rest = concat (List.map (frame_bytes E) ms), i_good = True \<rparr> = (List.map (replayed E) ms, s2)"
    "serializer_wf s2" "buffers_changed s1 s2"
    using Cons.IH [of s1] Cons.prems s1(2) by auto
  then show ?case
    using s1 by (subst sendMessagesInOneFile.simps) (auto intro: buffers_changed_trans)
qed (simp add: send_file_empty)

section \<open>The interface of a message store\<close>

text \<open>\<open>holding s ms\<close>: there is no client and \<open>ms\<close> waits for the next one, in order. \<open>idle s\<close>: a client
  is connected. \<open>live\<close>: messages are recorded while a client is connected, too. \<open>replay\<close> is what a
  stored message looks like when it is sent.\<close>

locale message_store =
  fixes record_op :: "protocol_message \<Rightarrow> bool \<Rightarrow> ('e, 's, bool) op"
    and send_op :: "('e, 's, protocol_message list) op"
    and resume_op :: "('e, 's, unit) op"
    and storable :: "protocol_message \<Rightarrow> bool"
    and replay :: "protocol_message \<Rightarrow> protocol_message"
    and live :: bool
    and holding :: "'s \<Rightarrow> protocol_message list \<Rightarrow> bool"
    and idle :: "'s \<Rightarrow> bool"
  assumes record_holding: "holding s ms \<Longrightarrow> storable m \<Longrightarrow>
      \<exists>s'. record_op m False s = (Inr False, s') \<and> holding s' (ms @ [m])"
    and record_idle: "live \<Longrightarrow> idle s \<Longrightarrow> storable m \<Longrightarrow>
      \<exists>s'. record_op m False s = (Inr False, s') \<and> idle s'"
    and send_holding: "holding s ms \<Longrightarrow>
      \<exists>s'. send_op s = (Inr (List.map replay ms), s') \<and> idle s'"
    and resume_idle: "idle s \<Longrightarrow> \<exists>s'. resume_op s = (Inr (), s') \<and> holding s' []"
begin

fun record_all :: "protocol_message list \<Rightarrow> 's \<Rightarrow> ('e + unit) \<times> 's" where
  "record_all [] s = (Inr (), s)"
| "record_all (m # ms) s = thenE (record_op m False) (record_all ms) s"

lemma record_all_holding:
  "holding s ms0 \<Longrightarrow> \<forall>m \<in> set ms. storable m \<Longrightarrow>
     \<exists>s'. record_all ms s = (Inr (), s') \<and> holding s' (ms0 @ ms)"
proof (induction ms arbitrary: s ms0)
  case (Cons m ms)
  obtain s1 where s1: "record_op m False s = (Inr False, s1)" "holding s1 (ms0 @ [m])"
    using record_holding Cons.prems by fastforce
  obtain s2 where "record_all ms s1 = (Inr (), s2)" "holding s2 ((ms0 @ [m]) @ ms)"
    using Cons.IH [OF s1(2)] Cons.prems by auto
  then show ?case
    using s1 by (simp add: thenE_def bindE_def)
qed simp

end

section \<open>The buffering handler is a message store\<close>

definition buffering_env :: "rec_env \<Rightarrow> bool" where
  "buffering_env E \<longleftrightarrow> \<not> re_recorderOn E \<and> inj (re_tempName E) \<and>
     (\<forall>k. re_canOpen E (re_tempName E k) \<and> re_canWrite E (re_tempName E k))"

definition fresh_temps :: "rec_env \<Rightarrow> recorder \<Rightarrow> bool" where
  "fresh_temps E r \<longleftrightarrow> (\<forall>k \<ge> r_tempCount r. sr_fs r (re_tempName E k) = None)"

definition buffering_idle :: "rec_env \<Rightarrow> recorder \<Rightarrow> bool" where
  "buffering_idle E r \<longleftrightarrow> buffering_env E \<and> r_kind r = BufferingHandler \<and> serializer_wf r \<and>
     sr_stream r = None \<and> r_fileHandles r = [] \<and> fst (r_lastPosition r) = 0 \<and> fresh_temps E r"

definition buffering_holding :: "rec_env \<Rightarrow> recorder \<Rightarrow> protocol_message list \<Rightarrow> bool" where
  "buffering_holding E r ms \<longleftrightarrow>
     buffering_env E \<and> r_kind r = BufferingHandler \<and> serializer_wf r \<and>
     fst (r_lastPosition r) = 0 \<and> fresh_temps E r \<and> (\<forall>m \<in> set ms. recordable E m) \<and>
     (\<exists>f k pos. f = re_tempName E k \<and> k < r_tempCount r \<and> r_fileHandles r = [f] \<and>
        sr_stream r = Some \<lparr> o_path = f, o_pos = pos \<rparr> \<and>
        sr_fs r f = Some (concat (List.map (frame_bytes E) ms)))"

lemma serialize_frame_appended:
  assumes "recordable E m" "serializer_wf r" "sr_stream r = Some \<lparr> o_path = f, o_pos = pos \<rparr>"
    "sr_fs r f = Some c" "\<not> limit_hit E (sr_crtAmountOfBytes r + frame_size E m)"
    "r_fileHandles r = [f]" "re_canWrite E f"
  shows "\<exists>hb. recordMessage E m doCleanup r = (Inr doCleanup,
           r\<lparr> sr_stream := Some \<lparr> o_path = f, o_pos = length (c @ frame_bytes E m) \<rparr>,
              sr_headerBuffer := hb, sr_header := writeMessageHeader m,
              sr_crtAmountOfBytes := sr_crtAmountOfBytes r + frame_size E m,
              sr_fs := (sr_fs r)(f \<mapsto> c @ frame_bytes E m) \<rparr>) \<and> length hb = MAX_HEADER_SIZE + 1"
proof -
  obtain hb where hb: "serializeMessage E m False r = (Inr (True, False),
      r\<lparr> sr_stream := Some \<lparr> o_path = f, o_pos = length (c @ frame_bytes E m) \<rparr>,
              sr_headerBuffer := hb, sr_header := writeMessageHeader m,
              sr_crtAmountOfBytes := sr_crtAmountOfBytes r + frame_size E m,
              sr_fs := (sr_fs r)(f \<mapsto> c @ frame_bytes E m) \<rparr>)" "length hb = MAX_HEADER_SIZE + 1"
    using serialize_recordable [OF assms(1-3,5), of False] assms(4)
    by (auto simp: file_content_def)
  show ?thesis
    by (rule exI [of _ hb])
      (use assms hb in \<open>simp add: recordMessage_def thenE_def catchE_def bindE_def fileHandles_back_def\<close>)
qed

lemma buffering_record:
  assumes h: "buffering_holding E r ms" and m: "recordable E m"
  shows "\<exists>r'. recordMessage E m False r = (Inr False, r') \<and> buffering_holding E r' (ms @ [m])"
proof -
  obtain k pos where f: "k < r_tempCount r" "r_fileHandles r = [re_tempName E k]"
      "sr_stream r = Some \<lparr> o_path = re_tempName E k, o_pos = pos \<rparr>"
      "sr_fs r (re_tempName E k) = Some (concat (List.map (frame_bytes E) ms))"
    using h by (auto simp: buffering_holding_def)
  have env: "buffering_env E" "serializer_wf r" "fresh_temps E r"
    using h by (auto simp: buffering_holding_def)
  have "\<not> limit_hit E (sr_crtAmountOfBytes r + frame_size E m)" "re_canWrite E (re_tempName E k)"
    using env by (auto simp: limit_hit_def buffering_env_def)
  from serialize_frame_appended [OF m env(2) f(3,4) this(1) f(2) this(2), of False] obtain hb where
    hb: "recordMessage E m False r = (Inr False,
           r\<lparr> sr_stream := Some \<lparr> o_path = re_tempName E k,
                 o_pos = length (concat (List.map (frame_bytes E) ms) @ frame_bytes E m) \<rparr>,
              sr_headerBuffer := hb, sr_header := writeMessageHeader m,
              sr_crtAmountOfBytes := sr_crtAmountOfBytes r + frame_size E m,
              sr_fs := (sr_fs r)(re_tempName E k \<mapsto>
                 concat (List.map (frame_bytes E) ms) @ frame_bytes E m) \<rparr>)"
    "length hb = MAX_HEADER_SIZE + 1"
    by blast
  show ?thesis
    unfolding hb(1)
    using h m f hb(2) env
    by (auto simp: buffering_holding_def serializer_wf_def fresh_temps_def buffering_env_def
        dest: injD)
qed

lemma buffering_send:
  assumes h: "buffering_holding E r ms"
  shows "\<exists>r'. sendBufferedData E r = (Inr (List.map (replayed E) ms), r') \<and> buffering_idle E r'"
proof -
  obtain k pos where f: "k < r_tempCount r" "r_fileHandles r = [re_tempName E k]"
      "sr_stream r = Some \<lparr> o_path = re_tempName E k, o_pos = pos \<rparr>"
      "sr_fs r (re_tempName E k) = Some (concat (List.map (frame_bytes E) ms))"
    using h by (auto simp: buffering_holding_def)
  let ?r1 = "r\<lparr> sr_stream := None, sr_crtAmountOfBytes := 0 \<rparr>"
  have "serializer_wf ?r1" "\<forall>m \<in> set ms. recordable E m"
    using h by (auto simp: buffering_holding_def serializer_wf_def)
  then obtain r2 where r2: "sendMessagesInOneFile E ?r1
        \<lparr> i_rest = concat (List.map (frame_bytes E) ms), i_good = True \<rparr>
      = (List.map (replayed E) ms, r2)" "serializer_wf r2" "buffers_changed ?r1 r2"
    using send_file_frames by blast
  obtain hb pb hd where r2': "r2 = ?r1\<lparr> sr_headerBuffer := hb, sr_payloadBuffer := pb, sr_header := hd \<rparr>"
    using r2(3) by (auto simp: buffers_changed_def)
  have lp: "fst (r_lastPosition r) = 0" "r_kind r = BufferingHandler"
    using h by (auto simp: buffering_holding_def)
  have send: "sendBufferedData E r = (Inr (List.map (replayed E) ms),
      r2\<lparr> sr_fs := (sr_fs r2)(re_tempName E k := None), r_fileHandles := [] \<rparr>)"
    using f lp r2(1)
    by (simp add: sendBufferedData_def thenE_def bindE_def base_stopRecording_def
        pauseRecording_def closeStream_def resetCounters_def base_sendBufferedData_def
        open_reader_def remove_back_def fileHandles_back_def r2')
  show ?thesis
    unfolding send
    using h r2(2) f(1) unfolding r2'
    by (auto simp: buffering_idle_def buffering_holding_def fresh_temps_def serializer_wf_def)
qed

lemma buffering_resume:
  assumes "buffering_idle E r"
  shows "\<exists>r'. resumeBuffering E r = (Inr (), r') \<and> buffering_holding E r' []"
  using assms
  by (auto simp: buffering_idle_def buffering_holding_def resumeBuffering_def startRecording_def
      bindE_def thenE_def fileFactory_def resumeRecording_def fileHandles_back_def openStream_def
      buffering_env_def fresh_temps_def file_content_def serializer_wf_def dest: injD)

interpretation buffering: message_store "recordMessage E" "sendBufferedData E" "resumeBuffering E"
  "recordable E" "replayed E" False "buffering_holding E" "buffering_idle E" for E
  by unfold_locales (simp_all add: buffering_record buffering_send buffering_resume)

lemma create_buffering_holding:
  assumes "buffering_env E" "\<forall>k. fs (re_tempName E k) = None"
  shows "\<exists>r. create_recorder E BufferingHandler fs = (Inr (), r) \<and> buffering_holding E r []"
proof -
  have "buffering_idle E (new_recorder BufferingHandler fs)"
    using assms
    by (simp add: buffering_idle_def new_recorder_def new_serializer_def serializer.defs
        serializer_wf_def fresh_temps_def)
  moreover have "r_kind (new_recorder BufferingHandler fs) = BufferingHandler"
    by (simp add: new_recorder_def new_serializer_def serializer.defs)
  ultimately show ?thesis
    using buffering_resume by (fastforce simp: create_recorder_def resumeBuffering_def)
qed

section \<open>The offline recorder is a message store\<close>

text \<open>Without splitting (\<open>fileSizeLimit = 0\<close>) there is one file, and what waits for the next client is
  its tail after the position noted when the last client went away. This needs \<^verbatim>\<open>tellp()\<close> of a
  file that was just opened for appending to be its length.\<close>

definition offline_env :: "rec_env \<Rightarrow> bool" where
  "offline_env E \<longleftrightarrow> re_recorderOn E \<and> re_fileSizeLimit E = 0 \<and> re_canOpen E (re_createPath E 0) \<and>
     re_canWrite E (re_createPath E 0)"

definition append_at_end :: "rec_env \<Rightarrow> bool" where
  "append_at_end E \<longleftrightarrow> (\<forall>n. re_appendPos E n = n)"

definition offline_open :: "rec_env \<Rightarrow> recorder \<Rightarrow> byte list \<Rightarrow> nat \<Rightarrow> bool" where
  "offline_open E r c pos \<longleftrightarrow>
     offline_env E \<and> r_kind r = OfflineRecorder \<and> serializer_wf r \<and> r_partNumber r = 1 \<and>
     r_fileHandles r = [re_createPath E 0] \<and> sr_fs r (re_createPath E 0) = Some c \<and>
     sr_stream r = Some \<lparr> o_path = re_createPath E 0, o_pos = pos \<rparr>"

definition offline_idle :: "rec_env \<Rightarrow> recorder \<Rightarrow> bool" where
  "offline_idle E r \<longleftrightarrow> append_at_end E \<and> (\<exists>c. offline_open E r c (length c))"

definition offline_holding :: "rec_env \<Rightarrow> recorder \<Rightarrow> protocol_message list \<Rightarrow> bool" where
  "offline_holding E r ms \<longleftrightarrow> append_at_end E \<and> (\<forall>m \<in> set ms. recordable E m) \<and>
     (\<exists>c p. offline_open E r c (length c) \<and> r_lastPosition r = (int p, 0) \<and> p \<le> length c \<and>
        drop p c = concat (List.map (frame_bytes E) ms))"

lemma offline_record_open:
  assumes o: "offline_open E r c pos" and m: "recordable E m"
  shows "\<exists>r'. recordMessage E m False r = (Inr False, r') \<and>
           offline_open E r' (c @ frame_bytes E m) (length (c @ frame_bytes E m)) \<and>
            r_lastPosition r' = r_lastPosition r"
proof -
  have env: "re_canWrite E (re_createPath E 0)"
    "\<not> limit_hit E (sr_crtAmountOfBytes r + frame_size E m)"
    using o by (auto simp: offline_open_def offline_env_def limit_hit_def)
  have f: "sr_stream r = Some \<lparr> o_path = re_createPath E 0, o_pos = pos \<rparr>" "serializer_wf r"
    "sr_fs r (re_createPath E 0) = Some c" "r_fileHandles r = [re_createPath E 0]"
    using o by (auto simp: offline_open_def)
  obtain hb where hb: "recordMessage E m False r = (Inr False,
           r\<lparr> sr_stream := Some \<lparr> o_path = re_createPath E 0, o_pos = length (c @ frame_bytes E m) \<rparr>,
              sr_headerBuffer := hb, sr_header := writeMessageHeader m,
              sr_crtAmountOfBytes := sr_crtAmountOfBytes r + frame_size E m,
              sr_fs := (sr_fs r)(re_createPath E 0 \<mapsto> c @ frame_bytes E m) \<rparr>)"
    "length hb = MAX_HEADER_SIZE + 1"
    using serialize_frame_appended [OF m f(2,1,3) env(2) f(4) env(1), of False] by blast
  show ?thesis
    unfolding hb(1) using o hb(2) by (simp add: offline_open_def serializer_wf_def)
qed

lemma offline_record_holding:
  assumes h: "offline_holding E r ms" and m: "recordable E m"
  shows "\<exists>r'. recordMessage E m False r = (Inr False, r') \<and> offline_holding E r' (ms @ [m])"
proof -
  obtain c p where c: "offline_open E r c (length c)" "r_lastPosition r = (int p, 0)" "p \<le> length c"
      "drop p c = concat (List.map (frame_bytes E) ms)"
    using h by (auto simp: offline_holding_def)
  obtain r' where r': "recordMessage E m False r = (Inr False, r')"
      "offline_open E r' (c @ frame_bytes E m) (length (c @ frame_bytes E m))" "r_lastPosition r' = r_lastPosition r"
    using offline_record_open [OF c(1) m] by blast
  have "drop p (c @ frame_bytes E m) = concat (List.map (frame_bytes E) (ms @ [m]))"
    using c(3,4) by simp
  then show ?thesis
    using r' c h m unfolding offline_holding_def
    by (intro exI [of _ r'] conjI exI [of _ "c @ frame_bytes E m"] exI [of _ p]) auto
qed

lemma offline_record_idle:
  "offline_idle E r \<Longrightarrow> recordable E m \<Longrightarrow>
     \<exists>r'. recordMessage E m False r = (Inr False, r') \<and> offline_idle E r'"
  unfolding offline_idle_def using offline_record_open by blast

lemma offline_send_from:
  assumes c: "offline_open E r c pos" "r_lastPosition r = (int p, 0)" "p \<le> length c"
      "drop p c = concat (List.map (frame_bytes E) ms)" and ms: "\<forall>m \<in> set ms. recordable E m"
  shows "\<exists>r'. sendBufferedData E r = (Inr (List.map (replayed E) ms), r') \<and>
           offline_open E r' c (re_appendPos E (length c))"
proof -
  let ?f = "re_createPath E 0"
  note o = c(1) [unfolded offline_open_def offline_env_def]
  let ?r1 = "r\<lparr> sr_stream := None \<rparr>"
  have "serializer_wf ?r1"
    using o by (simp add: serializer_wf_def)
  then obtain r2 where r2: "sendMessagesInOneFile E ?r1
        \<lparr> i_rest = concat (List.map (frame_bytes E) ms), i_good = True \<rparr>
      = (List.map (replayed E) ms, r2)" "serializer_wf r2" "buffers_changed ?r1 r2"
    using send_file_frames [OF ms] by blast
  obtain hb pb hd where r2': "r2 = ?r1\<lparr> sr_headerBuffer := hb, sr_payloadBuffer := pb, sr_header := hd \<rparr>"
    using r2(3) by (auto simp: buffers_changed_def)
  have reader: "open_reader (sr_fs r) ?f (if p = 0 then None else Some (int p)) =
      \<lparr> i_rest = concat (List.map (frame_bytes E) ms), i_good = True \<rparr>"
    using o c(4) by (auto simp: open_reader_def)
  have sent: "send_files E (r_lastPosition r) [(0, ?f)] ?r1 = (List.map (replayed E) ms, r2)"
    using reader r2(1) c(2) by (auto split: if_splits)
  have its: "drop (if fst (r_lastPosition r) \<noteq> 0 then snd (r_lastPosition r) else 0)
      (List.enumerate 0 (r_fileHandles r)) = [(0, ?f)]"
    using o c(2) by simp
  have base: "base_sendBufferedData E ?r1 = (Inr (List.map (replayed E) ms), r2)"
  proof -
    have sel: "r_lastPosition ?r1 = r_lastPosition r" "r_fileHandles ?r1 = r_fileHandles r"
      by simp_all
    show ?thesis
      unfolding base_sendBufferedData_def Let_def sel its sent prod.case
      using o by (simp add: thenE_def bindE_def fileHandles_back_def r2')
  qed
  have send: "sendBufferedData E r = (Inr (List.map (replayed E) ms),
      r2\<lparr> sr_stream := Some \<lparr> o_path = ?f, o_pos = re_appendPos E (length c) \<rparr>,
          sr_fs := (sr_fs r2)(?f \<mapsto> c) \<rparr>)"
    using base o
    by (simp add: sendBufferedData_def thenE_def bindE_def pauseRecording_def closeStream_def
        resumeRecording_def fileHandles_back_def openStream_def file_content_def r2')
  show ?thesis
    unfolding send
    by (intro exI conjI, rule refl)
      (use o r2(2) in \<open>simp add: offline_open_def offline_env_def serializer_wf_def r2'\<close>)
qed

lemma offline_send:
  assumes h: "offline_holding E r ms"
  shows "\<exists>r'. sendBufferedData E r = (Inr (List.map (replayed E) ms), r') \<and> offline_idle E r'"
proof -
  obtain c p where c: "offline_open E r c (length c)" "r_lastPosition r = (int p, 0)" "p \<le> length c"
      "drop p c = concat (List.map (frame_bytes E) ms)" and ms: "\<forall>m \<in> set ms. recordable E m"
      and a: "append_at_end E"
    using h by (auto simp: offline_holding_def)
  show ?thesis
    using offline_send_from [OF c ms] a by (auto simp: offline_idle_def append_at_end_def)
qed

lemma offline_resume_at:
  assumes "offline_open E r c pos"
  shows "resumeBuffering E r = (Inr (), r\<lparr> r_lastPosition := (int pos, 0) \<rparr>)"
    and "offline_open E (r\<lparr> r_lastPosition := (int pos, 0) \<rparr>) c pos"
  using assms
  by (simp_all add: resumeBuffering_def offline_open_def getCurentPosition_def serializer_wf_def)

lemma offline_resume:
  assumes "offline_idle E r"
  shows "\<exists>r'. resumeBuffering E r = (Inr (), r') \<and> offline_holding E r' []"
  using assms offline_resume_at by (fastforce simp: offline_idle_def offline_holding_def)

interpretation offline: message_store "recordMessage E" "sendBufferedData E" "resumeBuffering E"
  "recordable E" "replayed E" True "offline_holding E" "offline_idle E" for E
  by unfold_locales
    (simp_all add: offline_record_holding offline_record_idle offline_send offline_resume)

section \<open>Properties\<close>

text \<open>C13: A file of frames is read back completely: for messages whose headers the codec renders
  faithfully and short enough for the length byte, the read loop over the concatenated frames of
  \<open>ms\<close> ends and sends exactly one message per frame, in order, with type, length, payload and
  timestamp of the original (context, version token and urgency are not restored).\<close>

theorem replay_of_frames:
  assumes "\<forall>m \<in> set ms. recordable E m" "serializer_wf s"
  shows "fst (sendMessagesInOneFile E s
           \<lparr> i_rest = concat (List.map (frame_bytes E) ms), i_good = True \<rparr>)
         = List.map (\<lambda>m. new_ProtocolMessage (re_msgEnv E) (getMessageType m) (getMessageLength m)
                       (payload_bytes m) False (getTimestamp m) None) ms"
  using send_file_frames [OF assms] by (force simp: replayed_def)

theorem replay_of_frames_witness:
  "length (fst (sendMessagesInOneFile (sample_env False 0 id) (new_serializer (\<lambda>_. None))
     \<lparr> i_rest = concat (List.map (frame_bytes (sample_env False 0 id))
                 [sample_message 1 [10, 20] 9, sample_message 2 [] 8]), i_good = True \<rparr>)) = 2"
  by (subst replay_of_frames)
    (simp_all add: sample_message_recordable serializer_wf_def new_serializer_def)

lemma limit_refuses:
  assumes "serializer_wf s" "recordable E m" "sr_stream s \<noteq> None"
    and "limit_hit E (sr_crtAmountOfBytes s + frame_size E m)"
  obtains hb where "length hb = length (sr_headerBuffer s)"
    and "serializeMessage E m False s =
      (Inr (False, True), s\<lparr> sr_header := writeMessageHeader m, sr_headerBuffer := hb, sr_crtAmountOfBytes := 0 \<rparr>)"
proof -
  let ?h = "enc (re_codec E) (writeMessageHeader m)"
  have n: "length ?h < 255"
    using assms(2) by (auto simp: recordable_def ByteSize_def)
  have w: "buf_write 0 ?h (sr_headerBuffer s) = Some (?h @ drop (length ?h) (sr_headerBuffer s))"
    using n assms(1) by (simp add: buf_write_def serializer_wf_def)
  show thesis
    using that [of "?h @ drop (length ?h) (sr_headerBuffer s)"] assms(1,3,4) w n
    by (auto simp: serializeMessage_def Let_def isHeaderSizeValid_def ByteSize_def frame_size_def thenE_def
        bindE_def resetCounters_def serializer_wf_def simp del: of_int_add)
qed

text \<open>Closing a part and opening the next.\<close>

lemma next_part_opened:
  assumes "r_kind r = OfflineRecorder" "r_fileHandles r = fs @ [f]" "sr_stream r = Some \<lparr> o_path = f, o_pos = pos \<rparr>"
    and "sr_crtAmountOfBytes r = 0" "g = re_createPath E (r_partNumber r)" "re_canOpen E g" "sr_fs r g = None"
  shows "stopRecording r = (Inr (), r\<lparr> sr_stream := None \<rparr>)"
    and "startRecording E (r\<lparr> sr_stream := None \<rparr>) = (Inr (), r\<lparr>
      sr_stream := Some \<lparr> o_path = g, o_pos = re_appendPos E 0 \<rparr>, r_partNumber := r_partNumber r + 1,
      r_fileHandles := fs @ [f, g], sr_fs := (sr_fs r)(g \<mapsto> []) \<rparr>)"
  using assms
  by (simp_all add: stopRecording_def base_stopRecording_def pauseRecording_def closeStream_def resetCounters_def
      startRecording_def fileFactory_def resumeRecording_def fileHandles_back_def
      openStream_def file_content_def thenE_def bindE_def)

text \<open>C33: When a message would take the recording over the size limit, \<^verbatim>\<open>recordMessage\<close> of the
  offline recorder closes the current part, opens the next one and puts the whole message there:
  the old part is unchanged, the new part holds exactly this frame, and the counter restarts with it.\<close>

theorem record_rotates_part:
  assumes "r_kind r = OfflineRecorder" "serializer_wf r" "recordable E m"
    and "r_fileHandles r = fs @ [f]" "sr_stream r = Some \<lparr> o_path = f, o_pos = pos \<rparr>"
    and "sr_fs r f = Some c" "re_canWrite E f"
    and "limit_hit E (sr_crtAmountOfBytes r + frame_size E m)" "\<not> limit_hit E (frame_size E m)"
    and "g = re_createPath E (r_partNumber r)" "re_canOpen E g" "sr_fs r g = None"
  shows "\<exists>r'. recordMessage E m False r = (Inr False, r') \<and>
           r_fileHandles r' = fs @ [f, g] \<and> r_partNumber r' = r_partNumber r + 1 \<and>
           sr_fs r' f = Some c \<and> sr_fs r' g = Some (frame_bytes E m) \<and>
           sr_crtAmountOfBytes r' = frame_size E m"
proof -
  obtain hb where hb: "length hb = length (sr_headerBuffer r)" and first: "serializeMessage E m False r =
      (Inr (False, True), r\<lparr> sr_header := writeMessageHeader m, sr_headerBuffer := hb, sr_crtAmountOfBytes := 0 \<rparr>)"
    using limit_refuses [OF assms(2,3) _ assms(8)] assms(5) by auto
  let ?r0 = "r\<lparr> sr_header := writeMessageHeader m, sr_headerBuffer := hb, sr_crtAmountOfBytes := 0 \<rparr>"
  let ?r1 = "?r0\<lparr> sr_stream := Some \<lparr> o_path = g, o_pos = re_appendPos E 0 \<rparr>, r_partNumber := r_partNumber r + 1,
                r_fileHandles := fs @ [f, g], sr_fs := (sr_fs r)(g \<mapsto> []) \<rparr>"
  have opened: "stopRecording ?r0 = (Inr (), ?r0\<lparr> sr_stream := None \<rparr>)"
      "startRecording E (?r0\<lparr> sr_stream := None \<rparr>) = (Inr (), ?r1)"
    using next_part_opened [of ?r0 fs f pos g E] assms(1,4,5,10,11,12) by simp_all
  have "serializer_wf ?r1"
    using hb assms(2) by (simp add: serializer_wf_def)
  then obtain hb2 where second: "serializeMessage E m True ?r1 = (Inr (True, True),
      ?r1\<lparr> sr_stream := Some \<lparr> o_path = g, o_pos = length (frame_bytes E m) \<rparr>,
           sr_headerBuffer := hb2, sr_header := writeMessageHeader m, sr_crtAmountOfBytes := frame_size E m,
           sr_fs := (sr_fs r)(g \<mapsto> frame_bytes E m) \<rparr>)"
    using serialize_recordable [of E m ?r1 "\<lparr> o_path = g, o_pos = re_appendPos E 0 \<rparr>" True] assms(3,9)
    by (auto simp: file_content_def)
  have "recordMessage E m False r = (Inr False,
      ?r1\<lparr> sr_stream := Some \<lparr> o_path = g, o_pos = length (frame_bytes E m) \<rparr>,
           sr_headerBuffer := hb2, sr_header := writeMessageHeader m, sr_crtAmountOfBytes := frame_size E m,
           sr_fs := (sr_fs r)(g \<mapsto> frame_bytes E m) \<rparr>)"
    using first opened second assms(4,6,7)
    by (simp add: recordMessage_def thenE_def catchE_def bindE_def fileHandles_back_def)
  then show ?thesis
    using assms(6,12) by auto
qed

definition sample_recorder :: "recorder_kind \<Rightarrow> u64 \<Rightarrow> recorder" where
  "sample_recorder k counter =
     (new_recorder k [[] \<mapsto> [1, 2]])\<lparr> r_fileHandles := [[]], r_partNumber := 1,
        sr_stream := Some \<lparr> o_path = [], o_pos = 2 \<rparr>, sr_crtAmountOfBytes := counter \<rparr>"

lemma sample_recorder_sel [simp]:
  "r_kind (sample_recorder k n) = k" "r_fileHandles (sample_recorder k n) = [[]]"
  "r_partNumber (sample_recorder k n) = 1" "serializer_wf (sample_recorder k n)"
  "sr_stream (sample_recorder k n) = Some \<lparr> o_path = [], o_pos = 2 \<rparr>"
  "sr_fs (sample_recorder k n) = [[] \<mapsto> [1, 2]]" "sr_crtAmountOfBytes (sample_recorder k n) = n"
  by (simp_all add: sample_recorder_def new_recorder_def new_serializer_def serializer.defs
      serializer_wf_def)

theorem record_rotates_part_witness:
  "\<exists>r'. recordMessage (sample_env True 1 id) (sample_message 1 [10, 20] 9) False
          (sample_recorder OfflineRecorder 1048570) = (Inr False, r') \<and>
        r_fileHandles r' = [[], ''p''] \<and> sr_fs r' [] = Some [1, 2] \<and>
        sr_fs r' ''p'' = Some (frame_bytes (sample_env True 1 id) (sample_message 1 [10, 20] 9))"
  using record_rotates_part
    [of "sample_recorder OfflineRecorder 1048570" "sample_env True 1 id"
      "sample_message 1 [10, 20] 9" "[]" "[]" 2 "[1, 2]" "''p''"]
  by (auto simp: sample_message_recordable limit_hit_def)

text \<open>The size limit is computed in 32 bits: with a limit of 4096 MB the product wraps to 0, every
  message counts as reaching the limit, and \<^verbatim>\<open>serializeMessage\<close> writes nothing, whatever the state.\<close>

theorem limit_4096_never_writes:
  assumes "re_recorderOn E" "re_fileSizeLimit E = 4096"
    and "serializeMessage E m b s = (res, s')"
  shows "sr_fs s' = sr_fs s \<and> (case res of Inl e \<Rightarrow> e = BufferOverflow | Inr (written, _) \<Rightarrow> \<not> written)"
proof -
  have "limit_hit E n" for n
    using assms(1,2) by (simp add: limit_hit_def)
  then show ?thesis
    using assms(3)
    by (auto simp: serializeMessage_def Let_def thenE_def bindE_def resetCounters_def
        split: if_splits option.splits)
qed

theorem limit_4096_never_writes_witness:
  "sr_fs (snd (serializeMessage (sample_env True 4096 id) (sample_message 1 [10, 20] 9) False
      (sample_recorder OfflineRecorder 0))) = [[] \<mapsto> [1, 2]]"
  using limit_4096_never_writes
    [of "sample_env True 4096 id" "sample_message 1 [10, 20] 9" False
      "sample_recorder OfflineRecorder 0", OF _ _ prod.collapse [symmetric]]
  by (simp add: sample_env_def)

text \<open>The header is serialized into the 256-byte static buffer before its size is checked: a message
  whose header (for instance through a long context) takes more than 256 bytes makes
  \<^verbatim>\<open>recordMessage\<close> write past the end of the buffer, and no handler catches that.\<close>

theorem long_header_overflows:
  assumes "serializer_wf r" "sr_stream r \<noteq> None" "r_fileHandles r = fs @ [f]" "re_canWrite E f"
    and "sr_fs r f \<noteq> None" "ByteSize (re_codec E) (writeMessageHeader m) > 256"
  shows "fst (recordMessage E m doCleanup r) = Inl BufferOverflow"
proof -
  have "buf_write 0 (enc (re_codec E) (writeMessageHeader m)) (sr_headerBuffer r) = None"
    using assms(1,6) by (simp add: buf_write_def ByteSize_def serializer_wf_def)
  then show ?thesis
    using assms(2-5)
    by (simp add: recordMessage_def thenE_def catchE_def bindE_def fileHandles_back_def caught_def
        serializeMessage_def Let_def)
qed

theorem long_header_overflows_witness:
  "fst (recordMessage ((sample_env False 0 id)\<lparr> re_codec := sample_codec\<lparr> enc := \<lambda>_. replicate 300 0 \<rparr> \<rparr>)
     (sample_message 1 [10, 20] 9) False (sample_recorder BufferingHandler 0)) = Inl BufferOverflow"
  by (rule long_header_overflows [of _ "[]" "[]"]) (simp_all add: sample_env_def ByteSize_def)

text \<open>Stopping the buffering handler while a client is connected fails: its stream is closed and its
  list of files is empty, so \<^verbatim>\<open>stopRecording\<close> (called by the runtime's \<^verbatim>\<open>shutdown\<close>) raises
  \<^verbatim>\<open>ios_base::failure\<close>, and without that would take \<^verbatim>\<open>back()\<close> of an empty vector; while it is
  buffering it succeeds and removes the temporary file.\<close>

theorem stop_buffering:
  "(buffering_idle E r \<longrightarrow>
      stopRecording r = (Inl IosFailure, r) \<and> fileHandles_back r = (Inl EmptyVector, r)) \<and>
   (buffering_holding E r ms \<longrightarrow>
      fst (stopRecording r) = Inr () \<and>
      sr_fs (snd (stopRecording r)) (last (r_fileHandles r)) = None)"
  by (auto simp: buffering_idle_def buffering_holding_def stopRecording_def base_stopRecording_def
      pauseRecording_def closeStream_def resetCounters_def remove_back_def fileHandles_back_def
      thenE_def bindE_def)

lemma sample_buffering_env: "buffering_env (sample_env False limit appendPos)"
proof -
  have "inj (\<lambda>k. replicate k CHR ''t'')"
    by (rule injI) (metis length_replicate)
  then show ?thesis
    by (simp add: buffering_env_def sample_env_def)
qed

lemma sample_buffering_idle:
  "buffering_idle (sample_env False 0 id) (new_recorder BufferingHandler (\<lambda>_. None))"
  using sample_buffering_env
  by (simp add: buffering_idle_def new_recorder_def new_serializer_def serializer.defs
      serializer_wf_def fresh_temps_def)

theorem stop_buffering_witness:
  "stopRecording (new_recorder BufferingHandler (\<lambda>_. None)) =
     (Inl IosFailure, new_recorder BufferingHandler (\<lambda>_. None))"
  using stop_buffering [of "sample_env False 0 id" "new_recorder BufferingHandler (\<lambda>_. None)" "[]"]
    sample_buffering_idle by simp

text \<open>Where a file opened for appending reports position 0 (libstdc++ on POSIX), the offline
  recorder repeats itself: after the recording \<open>ms\<close> has been sent to a client that goes away
  before anything new is recorded, the next client is sent all of \<open>ms\<close> again. Where the reported
  position is the end of the file, the second client is sent nothing.\<close>

theorem offline_reconnect_resends:
  assumes "offline_open E r (concat (List.map (frame_bytes E) ms)) pos" "r_lastPosition r = (0, 0)"
    and "\<forall>m \<in> set ms. recordable E m"
  shows "\<exists>r1 r2. sendBufferedData E r = (Inr (List.map (replayed E) ms), r1) \<and>
           resumeBuffering E r1 = (Inr (), r2) \<and>
           (re_appendPos E (length (concat (List.map (frame_bytes E) ms))) = 0 \<longrightarrow>
              (\<exists>r3. sendBufferedData E r2 = (Inr (List.map (replayed E) ms), r3))) \<and>
           (append_at_end E \<longrightarrow> (\<exists>r3. sendBufferedData E r2 = (Inr [], r3)))"
proof -
  let ?c = "concat (List.map (frame_bytes E) ms)"
  let ?p = "re_appendPos E (length ?c)"
  obtain r1 where r1: "sendBufferedData E r = (Inr (List.map (replayed E) ms), r1)"
      "offline_open E r1 ?c ?p"
    using offline_send_from [OF assms(1), of 0 ms] assms by auto
  let ?r2 = "r1\<lparr> r_lastPosition := (int ?p, 0) \<rparr>"
  have r2: "resumeBuffering E r1 = (Inr (), ?r2)" "offline_open E ?r2 ?c ?p"
    using offline_resume_at [OF r1(2)] by auto
  have "?p = 0 \<Longrightarrow> \<exists>r3. sendBufferedData E ?r2 = (Inr (List.map (replayed E) ms), r3)"
    using offline_send_from [OF r2(2), of 0 ms] assms(3) by auto
  moreover have "append_at_end E \<Longrightarrow> \<exists>r3. sendBufferedData E ?r2 = (Inr [], r3)"
    using offline_send_from [OF r2(2), of "length ?c" "[]"] by (auto simp: append_at_end_def)
  ultimately show ?thesis
    using r1(1) r2(1) by - (rule exI [of _ r1], rule exI [of _ ?r2], simp)
qed

theorem offline_reconnect_resends_witness:
  "\<exists>r r1 r2 r3.
     create_recorder (sample_env True 0 (\<lambda>_. 0)) OfflineRecorder (\<lambda>_. None) = (Inr (), r) \<and>
     sendBufferedData (sample_env True 0 (\<lambda>_. 0))
       (r\<lparr> sr_fs := [[] \<mapsto> frame_bytes (sample_env True 0 (\<lambda>_. 0)) (sample_message 1 [7] 9)] \<rparr>)
       = (Inr [replayed (sample_env True 0 (\<lambda>_. 0)) (sample_message 1 [7] 9)], r1) \<and>
     resumeBuffering (sample_env True 0 (\<lambda>_. 0)) r1 = (Inr (), r2) \<and>
     sendBufferedData (sample_env True 0 (\<lambda>_. 0)) r2
       = (Inr [replayed (sample_env True 0 (\<lambda>_. 0)) (sample_message 1 [7] 9)], r3)"
proof -
  let ?E = "sample_env True 0 (\<lambda>_. 0)" and ?m = "sample_message 1 [7] 9"
  obtain r where r: "create_recorder ?E OfflineRecorder (\<lambda>_. None) = (Inr (), r)"
    "r_kind r = OfflineRecorder" "serializer_wf r" "r_partNumber r = 1" "r_fileHandles r = [[]]"
    "sr_stream r = Some \<lparr> o_path = [], o_pos = 0 \<rparr>" "r_lastPosition r = (0, 0)"
    by (simp add: create_recorder_def startRecording_def fileFactory_def new_recorder_def
        new_serializer_def serializer.defs resumeRecording_def fileHandles_back_def openStream_def
        file_content_def thenE_def bindE_def serializer_wf_def)
  have "offline_open ?E (r\<lparr> sr_fs := [[] \<mapsto> frame_bytes ?E ?m] \<rparr>)
      (concat (List.map (frame_bytes ?E) [?m])) 0"
    using r by (simp add: offline_open_def offline_env_def serializer_wf_def)
  from offline_reconnect_resends [OF this] r show ?thesis
    by (auto simp: sample_message_recordable)
qed

end
