(* ===== verification/Config.thy ===== *)
theory Config
  imports Messages
begin

text \<open>
  The configuration provider (\<^verbatim>\<open>config-provider/src/config_provider.cpp\<close>).

  The parsed XML file is a parameter: what \<^verbatim>\<open>getInt\<close>, \<^verbatim>\<open>getBool\<close> and \<^verbatim>\<open>getString\<close> return for a full key
  (\<^const>\<open>None\<close> where Poco raises) and the child keys of a view. \<^verbatim>\<open>initialize\<close> fills the fields in
  order and swallows the exception, so a failure leaves the rest at the defaults.
\<close>

section \<open>State\<close>

record plugin_config =
  pc_name :: string
  pc_path :: string
  pc_properties :: "(string \<times> string) list"

record config_channel =
  ch_active :: bool
  ch_name :: string

record config_provider =
  cf_streamingPort :: "16 word"
  cf_cmdCtrlPort :: "16 word"
  cf_pluginList :: "plugin_config list"
  cf_logLevel :: string
  cf_logChannels :: "config_channel list"
  cf_recorderOn :: bool
  cf_fileSizeLimit :: u32
  cf_createOutputPath :: bool
  cf_recorderFilePrefix :: string
  cf_targetDirPath :: string
  cf_timeReference :: time_ref

record xml_conf =
  x_loads :: bool
  x_int :: "string \<Rightarrow> int option"
  x_bool :: "string \<Rightarrow> bool option"
  x_string :: "string \<Rightarrow> string option"
  x_keys :: "string \<Rightarrow> string list"

type_synonym 'a cfg_op = "(unit, config_provider, 'a) op"

definition new_ConfigProvider :: config_provider where
  "new_ConfigProvider =
     \<lparr> cf_streamingPort = 1234, cf_cmdCtrlPort = 1235, cf_pluginList = [], cf_logLevel = '''',
       cf_logChannels = [], cf_recorderOn = False, cf_fileSizeLimit = 0,
       cf_createOutputPath = False, cf_recorderFilePrefix = '''', cf_targetDirPath = '''',
       cf_timeReference = eTimeRefUpTime \<rparr>"

section \<open>Reading the file\<close>

definition getE :: "'a option \<Rightarrow> ('a \<Rightarrow> config_provider \<Rightarrow> config_provider) \<Rightarrow> unit cfg_op" where
  "getE v upd = (case v of None \<Rightarrow> throwE () | Some x \<Rightarrow> modifyE (upd x))"

definition new_PluginConfigItem :: "string \<Rightarrow> string \<Rightarrow> plugin_config" where
  "new_PluginConfigItem name path = \<lparr> pc_name = name, pc_path = path, pc_properties = [] \<rparr>"

definition addProperty :: "string \<Rightarrow> string \<Rightarrow> plugin_config \<Rightarrow> plugin_config" where
  "addProperty name value item =
     item\<lparr> pc_properties := cmap_insert name value (pc_properties item) \<rparr>"

fun initializeChannels :: "xml_conf \<Rightarrow> string list \<Rightarrow> unit cfg_op" where
  "initializeChannels X [] = returnE ()"
| "initializeChannels X (key # keys) =
     thenE (getE (x_bool X (''Logging.Channels.'' @ key @ ''.ChannelActive'')) (\<lambda>b cf.
              cf\<lparr> cf_logChannels := cf_logChannels cf @ [\<lparr> ch_active = b, ch_name = key \<rparr>] \<rparr>))
           (initializeChannels X keys)"

definition initializeGlobal :: "xml_conf \<Rightarrow> unit cfg_op" where
  "initializeGlobal X = seqE
     [if x_loads X then returnE () else throwE (),
      getE (x_int X ''Network.Port'') (\<lambda>v cf. cf\<lparr> cf_streamingPort := word_of_int v \<rparr>),
      getE (x_int X ''Network.CmdCtrlPort'') (\<lambda>v cf. cf\<lparr> cf_cmdCtrlPort := word_of_int v \<rparr>),
      initializeChannels X (x_keys X ''Logging.Channels''),
      getE (x_string X ''Logging.LoggingLevel'') (\<lambda>v cf. cf\<lparr> cf_logLevel := v \<rparr>),
      getE (x_bool X ''Recorder.enabled'') (\<lambda>v cf. cf\<lparr> cf_recorderOn := v \<rparr>),
      getE (x_int X ''Recorder.fileSizeLimit'') (\<lambda>v cf. cf\<lparr> cf_fileSizeLimit := word_of_int v \<rparr>),
      getE (x_bool X ''Recorder.doCreateOutputPath'') (\<lambda>v cf. cf\<lparr> cf_createOutputPath := v \<rparr>),
      getE (x_string X ''Recorder.filePrefix'') (\<lambda>v cf. cf\<lparr> cf_recorderFilePrefix := v \<rparr>),
      getE (x_string X ''Recorder.targetDirPath'') (\<lambda>v cf. cf\<lparr> cf_targetDirPath := v \<rparr>),
      getE (x_string X ''Units.TimeReference'') (\<lambda>v cf.
        (if v = ''UP_TIME'' then cf\<lparr> cf_timeReference := eTimeRefUpTime \<rparr>
         else if v = ''ABSOLUTE_SYSTEM_TIME'' then cf\<lparr> cf_timeReference := eTimeRefAbsoluteTime \<rparr>
         else cf))]"

fun pluginProperties ::
    "xml_conf \<Rightarrow> string \<Rightarrow> string list \<Rightarrow> plugin_config \<Rightarrow> plugin_config option" where
  "pluginProperties X pluginKey [] item = Some item"
| "pluginProperties X pluginKey (it # its) item =
     (case x_string X (''Plugin.'' @ pluginKey @ ''.'' @ it @ ''[@attr]'') of
        None \<Rightarrow> None
      | Some v \<Rightarrow> pluginProperties X pluginKey its (addProperty it v item))"

fun initializePlugins_loop :: "xml_conf \<Rightarrow> string list \<Rightarrow> unit cfg_op" where
  "initializePlugins_loop X [] = returnE ()"
| "initializePlugins_loop X (pluginKey # keys) =
     thenE (getE (case x_string X (''Plugin.'' @ pluginKey @ ''.Path[@attr]'') of
                    None \<Rightarrow> None
                  | Some path \<Rightarrow> pluginProperties X pluginKey (x_keys X (''Plugin.'' @ pluginKey))
                                  (new_PluginConfigItem pluginKey path))
             (\<lambda>item cf. cf\<lparr> cf_pluginList := cf_pluginList cf @ [item] \<rparr>))
           (initializePlugins_loop X keys)"

definition initializePlugins :: "xml_conf \<Rightarrow> unit cfg_op" where
  "initializePlugins X = initializePlugins_loop X (x_keys X ''Plugin'')"

definition initialize :: "xml_conf \<Rightarrow> unit cfg_op" where
  "initialize X = catchE (\<lambda>_. True) (\<lambda>_. returnE ())
     (thenE (initializeGlobal X) (initializePlugins X))"

text \<open>The path of the file: \<open>path_find\<close> is \<^verbatim>\<open>Poco::Path::find\<close>, and without a hit the path is the current
  directory itself. \<open>open_xml\<close> is what the parser makes of the file at a path.\<close>

definition findConfigurationFile :: "string \<Rightarrow> (string \<Rightarrow> string \<Rightarrow> string option) \<Rightarrow> string \<Rightarrow> string" where
  "findConfigurationFile current path_find configFileName =
     (case path_find current configFileName of None \<Rightarrow> current | Some path \<Rightarrow> path)"

definition xml_of_agent ::
    "string \<Rightarrow> (string \<Rightarrow> string \<Rightarrow> string option) \<Rightarrow> (string \<Rightarrow> xml_conf) \<Rightarrow> xml_conf" where
  "xml_of_agent current path_find open_xml = open_xml (findConfigurationFile current path_find ''conf.xml'')"

section \<open>Getters\<close>

definition StreamingPort :: "config_provider \<Rightarrow> 16 word" where
  "StreamingPort cf = cf_streamingPort cf"

definition CmdCtrlPort :: "config_provider \<Rightarrow> 16 word" where
  "CmdCtrlPort cf = cf_cmdCtrlPort cf"

definition Plugins :: "config_provider \<Rightarrow> plugin_config list" where
  "Plugins cf = cf_pluginList cf"

definition getFileSizeLimit :: "config_provider \<Rightarrow> u32" where
  "getFileSizeLimit cf = cf_fileSizeLimit cf"

section \<open>Lemmas\<close>

lemma getE_cases:
  "getE v upd cf = (case v of None \<Rightarrow> (Inl (), cf) | Some x \<Rightarrow> (Inr (), upd x cf))"
  by (simp add: getE_def split: option.splits)

lemma initialize_Inr: "\<exists>cf'. initialize X cf = (Inr (), cf')"
  by (auto simp: initialize_def catchE_def split: prod.splits sum.splits)

text \<open>Without the file the settings stay at their defaults.\<close>

lemma no_configuration_file:
  assumes "path_find current ''conf.xml'' = None" "\<not> x_loads (open_xml current)"
  shows "initialize (xml_of_agent current path_find open_xml) cf = (Inr (), cf)"
  using assms by (simp add: xml_of_agent_def findConfigurationFile_def initialize_def initializeGlobal_def)

lemma keeps_getE: "(\<And>x s. f (upd x s) = f s) \<Longrightarrow> keepsE f (getE v upd)"
  by (auto simp: keepsE_def getE_cases split: option.splits)

lemma keeps_channels:
  "(\<And>x s. f (s\<lparr> cf_logChannels := x \<rparr>) = f s) \<Longrightarrow> keepsE f (initializeChannels X keys)"
  by (induction keys) (auto intro!: keepsE_then keeps_getE)

lemma global_keeps_plugins: "keepsE cf_pluginList (initializeGlobal X)"
  unfolding initializeGlobal_def
  by (rule keepsE_seq) (auto intro!: keeps_getE keeps_channels)

lemma plugins_keep_port: "keepsE cf_streamingPort (initializePlugins X)"
proof -
  have "keepsE cf_streamingPort (initializePlugins_loop X keys)" for keys
    by (induction keys) (auto intro!: keepsE_then keeps_getE)
  then show ?thesis
    by (simp add: initializePlugins_def)
qed

text \<open>Everything after the port leaves the port alone.\<close>

lemma initializeGlobal_port:
  assumes "x_loads X" "x_int X ''Network.Port'' = Some p"
  shows "cf_streamingPort (snd (initializeGlobal X cf)) = word_of_int p"
proof -
  have "cf_streamingPort (snd (initializeGlobal X cf)) =
      cf_streamingPort (cf\<lparr> cf_streamingPort := word_of_int p \<rparr>)"
    unfolding initializeGlobal_def
    by (rule seqE_two_keeps [where ?s1.0 = cf])
      (use assms in \<open>auto simp: getE_cases intro!: keeps_getE keeps_channels\<close>)
  then show ?thesis
    by simp
qed

lemma properties_ok:
  "cmap_ok (pc_properties item) \<Longrightarrow> pluginProperties X key its item = Some item' \<Longrightarrow>
     cmap_ok (pc_properties item') \<and> pc_name item' = pc_name item \<and> pc_path item' = pc_path item"
  by (induction X key its item rule: pluginProperties.induct)
    (auto simp: addProperty_def split: option.splits)

section \<open>Properties\<close>

text \<open>Reading the configuration never raises, and a missing key loses everything after it: when
  some key of the global part is missing the plugin list stays empty, and when \<^verbatim>\<open>Network.Port\<close> itself
  is missing every setting keeps its default. A port that is read, up to 65535, survives the signed
  16-bit field unchanged.\<close>

theorem initialize_partial:
  "\<exists>cf. initialize X new_ConfigProvider = (Inr (), cf) \<and>
     (fst (initializeGlobal X new_ConfigProvider) = Inl () \<longrightarrow> Plugins cf = []) \<and>
     (x_int X ''Network.Port'' = None \<longrightarrow> cf = new_ConfigProvider) \<and>
     (\<forall>p. x_loads X \<and> x_int X ''Network.Port'' = Some p \<and> 0 \<le> p \<and> p < 2 ^ 16 \<longrightarrow>
        uint (StreamingPort cf) = p)"
proof -
  let ?g = "initializeGlobal X new_ConfigProvider"
  obtain cf where cf: "initialize X new_ConfigProvider = (Inr (), cf)"
    using initialize_Inr by blast
  have 1: "cf_pluginList cf = []" if "fst ?g = Inl ()"
  proof -
    have "cf = snd ?g"
      using cf that by (cases ?g) (simp add: initialize_def)
    then show ?thesis
      using global_keeps_plugins [of X] by (simp add: keepsE_def new_ConfigProvider_def)
  qed
  have 2: "cf = new_ConfigProvider" if "x_int X ''Network.Port'' = None"
    using cf that by (auto simp: initialize_def initializeGlobal_def getE_def)
  have 3: "uint (StreamingPort cf) = p"
    if p: "x_loads X" "x_int X ''Network.Port'' = Some p" "0 \<le> p" "p < 2 ^ 16" for p
  proof -
    have "cf_streamingPort (snd ?g) = word_of_int p"
      using initializeGlobal_port [OF p(1,2)] by simp
    moreover have "cf_streamingPort cf = cf_streamingPort (snd ?g)"
      using cf plugins_keep_port [of X]
      by (auto simp: initialize_def catchE_def thenE_def bindE_def keepsE_def
          split: prod.splits sum.splits) (metis snd_conv)+
    ultimately show ?thesis
      using p by (simp add: StreamingPort_def uint_word_of_int take_bit_int_eq_self)
  qed
  show ?thesis
    using cf 1 2 3 by (auto simp: Plugins_def)
qed

theorem initialize_partial_witness:
  "\<exists>cf. initialize \<lparr> x_loads = True, x_int = [''Network.Port'' \<mapsto> 40000], x_bool = \<lambda>_. None,
                       x_string = \<lambda>_. None, x_keys = \<lambda>_. [] \<rparr> new_ConfigProvider = (Inr (), cf) \<and>
        Plugins cf = [] \<and> uint (StreamingPort cf) = 40000"
  using initialize_partial [of "\<lparr> x_loads = True, x_int = [''Network.Port'' \<mapsto> 40000],
      x_bool = \<lambda>_. None, x_string = \<lambda>_. None, x_keys = \<lambda>_. [] \<rparr>"]
  by (auto simp: initializeGlobal_def thenE_def bindE_def getE_def)

end
