(* ===== verification/PluginProxy.thy ===== *)
theory PluginProxy
  imports Recorder Config
begin

text \<open>
  The plugin proxy (\<^verbatim>\<open>plugin-provider/src/plugin_provider.cpp\<close>): loading of the plugins, their life
  cycle, the routing of a plugin's message to the recorder or the client, and of a client's message
  to the plugin that serves its type.

  A plugin is external code behind a pointer (a number here); what the proxy does to it is an event
  of the trace \<open>px_trace\<close>, oldest first, and so is a message handed to the communication
  controller. The recorder is reached through virtual functions: the operations below take them as a
  record \<open>recorder_vt\<close>, over any state \<open>'s\<close>.
\<close>

section \<open>State\<close>

datatype proxy_event =
    ToClient protocol_message
  | OnConnectionEstablished nat
  | OnConnectionLost nat
  | SetConfig nat "(string \<times> string) list"
  | StartPlugin nat
  | StopPlugin nat
  | OnMessageReceived nat int "byte list option"
  | UnloadLibrary string

datatype 'e proxy_error = NullPointer | Store 'e

record ('e, 's) recorder_vt =
  vt_recordMessage :: "protocol_message \<Rightarrow> bool \<Rightarrow> ('e, 's, bool) op"
  vt_sendBufferedData :: "('e, 's, protocol_message list) op"
  vt_resumeBuffering :: "('e, 's, unit) op"

record 's plugin_proxy =
  px_connectionEstablished :: bool
  px_sender :: bool
  px_loadedPlugins :: "(nat \<times> plugin_config) list"
  px_isPluginStarted :: bool
  px_recorder :: "'s option"
  px_trace :: "proxy_event list"

type_synonym ('e, 's, 'a) proxy_op = "('e proxy_error, 's plugin_proxy, 'a) op"

definition new_PluginProxy :: "'s option \<Rightarrow> 's plugin_proxy" where
  "new_PluginProxy rec =
     \<lparr> px_connectionEstablished = False, px_sender = False, px_loadedPlugins = [],
       px_isPluginStarted = False, px_recorder = rec, px_trace = [] \<rparr>"

definition emit :: "proxy_event list \<Rightarrow> ('e, 's, unit) proxy_op" where
  "emit evs = modifyE (\<lambda>p. p\<lparr> px_trace := px_trace p @ evs \<rparr>)"

text \<open>A call through \<^verbatim>\<open>getMessageRecorder()\<close>; on the null pointer it faults.\<close>

definition recorder_call :: "('e, 's, 'a) op \<Rightarrow> ('e, 's, 'a) proxy_op" where
  "recorder_call m = (\<lambda>p.
     (case px_recorder p of
        None \<Rightarrow> (Inl NullPointer, p)
      | Some s \<Rightarrow>
          (case m s of
             (Inl e, s') \<Rightarrow> (Inl (Store e), p\<lparr> px_recorder := Some s' \<rparr>)
           | (Inr x, s') \<Rightarrow> (Inr x, p\<lparr> px_recorder := Some s' \<rparr>))))"

section \<open>Loading\<close>

text \<open>What the dynamic loader finds behind a path: whether loading raises, whether the library is
  loaded afterwards, the factory symbol and the instance it returns.\<close>

record plugin_library =
  lib_throws :: bool
  lib_isLoaded :: bool
  lib_hasSymbol :: bool
  lib_symbolNonNull :: bool
  lib_instance :: "nat option"

definition createPluginInstance :: "plugin_library \<Rightarrow> nat option" where
  "createPluginInstance lib =
     (if lib_hasSymbol lib \<and> lib_symbolNonNull lib then lib_instance lib else None)"

definition storePluginInList :: "nat \<Rightarrow> plugin_config \<Rightarrow> 's plugin_proxy \<Rightarrow> 's plugin_proxy" where
  "storePluginInList inst cfg p =
     p\<lparr> px_loadedPlugins := cmap_insert inst cfg (px_loadedPlugins p) \<rparr>"

fun loadPlugins ::
    "(string \<Rightarrow> plugin_library) \<Rightarrow> plugin_config list \<Rightarrow> 's plugin_proxy \<Rightarrow> 's plugin_proxy" where
  "loadPlugins L [] p = p"
| "loadPlugins L (cfg # cfgs) p =
     (let lib = L (pc_path cfg) in
      if lib_throws lib \<or> \<not> lib_isLoaded lib then loadPlugins L cfgs p
      else (case createPluginInstance lib of
              Some inst \<Rightarrow> loadPlugins L cfgs (storePluginInList inst cfg p)
            | None \<Rightarrow> loadPlugins L cfgs
                       (p\<lparr> px_trace := px_trace p @ [UnloadLibrary (pc_path cfg)] \<rparr>)))"

section \<open>Life cycle\<close>

definition plugin_ptrs :: "'s plugin_proxy \<Rightarrow> nat list" where
  "plugin_ptrs p = List.map fst (px_loadedPlugins p)"

definition setPluginsConfig :: "('e, 's, unit) proxy_op" where
  "setPluginsConfig = (\<lambda>p.
     emit (List.map (\<lambda>(i, cfg). SetConfig i (pc_properties cfg)) (px_loadedPlugins p)) p)"

definition startPlugins :: "('e, 's, unit) proxy_op" where
  "startPlugins = (\<lambda>p.
     (if \<not> px_isPluginStarted p
      then thenE (emit (List.map StartPlugin (plugin_ptrs p)))
             (modifyE (\<lambda>p. p\<lparr> px_isPluginStarted := True \<rparr>)) p
      else (Inr (), p)))"

definition stopPlugins :: "('e, 's, unit) proxy_op" where
  "stopPlugins = (\<lambda>p.
     (if px_isPluginStarted p
      then thenE (emit (List.map StopPlugin (plugin_ptrs p)))
             (modifyE (\<lambda>p. p\<lparr> px_isPluginStarted := False \<rparr>)) p
      else (Inr (), p)))"

definition initializePluginProvider ::
    "(string \<Rightarrow> plugin_library) \<Rightarrow> config_provider \<Rightarrow> ('e, 's, unit) proxy_op" where
  "initializePluginProvider L cf =
     seqE [modifyE (\<lambda>p. p\<lparr> px_sender := True \<rparr>),
           modifyE (loadPlugins L (Plugins cf)),
           setPluginsConfig,
           startPlugins]"

definition deinitializePluginProvider :: "('e, 's, unit) proxy_op" where
  "deinitializePluginProvider = stopPlugins"

section \<open>Connection and messages\<close>

definition onHostConnectionEstablished :: "('e, 's) recorder_vt \<Rightarrow> ('e, 's, unit) proxy_op" where
  "onHostConnectionEstablished vt =
     seqE [modifyE (\<lambda>p. p\<lparr> px_connectionEstablished := True \<rparr>),
           (\<lambda>p. if px_recorder p \<noteq> None
                then bindE (recorder_call (vt_sendBufferedData vt))
                       (\<lambda>sent. emit (List.map ToClient sent)) p
                else (Inr (), p)),
           (\<lambda>p. emit (List.map OnConnectionEstablished (plugin_ptrs p)) p)]"

definition onHostConnectionLost :: "('e, 's) recorder_vt \<Rightarrow> ('e, 's, unit) proxy_op" where
  "onHostConnectionLost vt =
     seqE [(\<lambda>p. if px_recorder p \<noteq> None then recorder_call (vt_resumeBuffering vt) p
                else (Inr (), p)),
           (\<lambda>p. emit (List.map OnConnectionLost (plugin_ptrs p)) p),
           modifyE (\<lambda>p. p\<lparr> px_connectionEstablished := False \<rparr>)]"

text \<open>The message goes to the recorder unless a client is connected and nothing is to be recorded; it
  goes to the client, which then owns it, when there is one. The result tells whether the proxy
  deleted it.\<close>

definition sendMessage ::
    "('e, 's) recorder_vt \<Rightarrow> config_provider \<Rightarrow> msg_env \<Rightarrow> message_type \<Rightarrow> int \<Rightarrow> byte list \<Rightarrow> u64
       \<Rightarrow> (string \<times> string) list option \<Rightarrow> ('e, 's, bool) proxy_op" where
  "sendMessage vt cf env type payloadLength payloadBuffer timestamp msgContextInfo = (\<lambda>p.
     (let msg = new_ProtocolMessage env type payloadLength payloadBuffer False timestamp msgContextInfo;
          dispatchToRecorder = (\<not> px_connectionEstablished p \<or>
                                (px_connectionEstablished p \<and> cf_recorderOn cf));
          dispatchToClient = (px_connectionEstablished p \<and> px_sender p)
      in thenE (if dispatchToRecorder
                then bindE (recorder_call (vt_recordMessage vt msg False)) (\<lambda>_. returnE ())
                else returnE ())
           (thenE (if dispatchToClient then emit [ToClient msg] else returnE ())
             (returnE (\<not> dispatchToClient))) p))"

text \<open>The first plugin, in pointer order, that serves the message's type; \<open>serves\<close> is what the plugins
  answer to \<^verbatim>\<open>MessageType()\<close>.\<close>

fun route :: "(nat \<Rightarrow> message_type) \<Rightarrow> message_type \<Rightarrow> (nat \<times> plugin_config) list \<Rightarrow> nat option" where
  "route serves item [] = None"
| "route serves item ((i, cfg) # its) = (if serves i = item then Some i else route serves item its)"

definition onMessageReceived ::
    "(nat \<Rightarrow> message_type) \<Rightarrow> protocol_message \<Rightarrow> ('e, 's, unit) proxy_op" where
  "onMessageReceived serves msg = (\<lambda>p.
     (case route serves (getMessageType msg) (px_loadedPlugins p) of
        None \<Rightarrow> (Inr (), p)
      | Some i \<Rightarrow> emit [OnMessageReceived i (getMessageLength msg) (getPayloadData msg)] p))"

section \<open>Runs of the proxy\<close>

text \<open>What happens to a proxy while the agent runs: clients come and go, plugins send. The communication
  controller reports a new client only after the previous one has gone (\<open>alternating\<close>).\<close>

datatype host_event =
    Connect
  | Disconnect
  | Send msg_env message_type int "byte list" u64 "(string \<times> string) list option"

fun host_step ::
    "('e, 's) recorder_vt \<Rightarrow> config_provider \<Rightarrow> host_event \<Rightarrow> ('e, 's, unit) proxy_op" where
  "host_step vt cf Connect = onHostConnectionEstablished vt"
| "host_step vt cf Disconnect = onHostConnectionLost vt"
| "host_step vt cf (Send env ty n buf ts ctx) =
     thenE (sendMessage vt cf env ty n buf ts ctx) (returnE ())"

definition run_proxy ::
    "('e, 's) recorder_vt \<Rightarrow> config_provider \<Rightarrow> host_event list \<Rightarrow> ('e, 's, unit) proxy_op" where
  "run_proxy vt cf evs = seqE (List.map (host_step vt cf) evs)"

fun alternating :: "bool \<Rightarrow> host_event list \<Rightarrow> bool" where
  "alternating connected [] = True"
| "alternating connected (Connect # evs) = (\<not> connected \<and> alternating True evs)"
| "alternating connected (Disconnect # evs) = (connected \<and> alternating False evs)"
| "alternating connected (Send _ _ _ _ _ _ # evs) = alternating connected evs"

fun sent_messages :: "host_event list \<Rightarrow> protocol_message list" where
  "sent_messages [] = []"
| "sent_messages (Send env ty n buf ts ctx # evs) =
     new_ProtocolMessage env ty n buf False ts ctx # sent_messages evs"
| "sent_messages (_ # evs) = sent_messages evs"

fun to_client :: "proxy_event list \<Rightarrow> protocol_message list" where
  "to_client [] = []"
| "to_client (ToClient m # evs) = m # to_client evs"
| "to_client (_ # evs) = to_client evs"

lemma to_client_append [simp]: "to_client (xs @ ys) = to_client xs @ to_client ys"
  by (induction xs rule: to_client.induct) simp_all

lemma to_client_map [simp]:
  "to_client (List.map ToClient ms) = ms"
  "to_client (List.map OnConnectionEstablished is) = []"
  "to_client (List.map OnConnectionLost is) = []"
  by (induction ms; simp) (induction "is"; simp)+

lemma to_client_map_comp [simp]: "to_client (List.map (ToClient \<circ> f) ms) = List.map f ms"
  by (induction ms) simp_all

lemma emit_run [simp]: "emit evs p = (Inr (), p\<lparr> px_trace := px_trace p @ evs \<rparr>)"
  by (simp add: emit_def)

text \<open>What identifies a message to the client: type, length, payload and timestamp.\<close>

definition wire_key :: "protocol_message \<Rightarrow> message_type \<times> int \<times> byte list \<times> u64" where
  "wire_key m = (getMessageType m, getMessageLength m, payload_bytes m, getTimestamp m)"

context message_store
begin

definition store_vt :: "('e, 's) recorder_vt" where
  "store_vt = \<lparr> vt_recordMessage = record_op, vt_sendBufferedData = send_op,
                vt_resumeBuffering = resume_op \<rparr>"

text \<open>Everything sent so far is either with the client or held by the store, in order.\<close>

definition proxy_inv :: "(protocol_message \<Rightarrow> 'k) \<Rightarrow> (protocol_message \<Rightarrow> bool) \<Rightarrow> 's plugin_proxy
    \<Rightarrow> protocol_message list \<Rightarrow> protocol_message list \<Rightarrow> bool" where
  "proxy_inv key P p sent ms \<longleftrightarrow> px_sender p \<and> (\<forall>m \<in> set ms. P m) \<and>
     List.map key (to_client (px_trace p)) @ List.map key ms = List.map key sent \<and>
     (\<exists>s. px_recorder p = Some s \<and>
        (if px_connectionEstablished p then ms = [] \<and> idle s else holding s ms))"

lemma proxy_step:
  assumes inv: "proxy_inv key P p sent ms" and live: "cf_recorderOn cf = live"
    and P: "\<And>m. P m \<Longrightarrow> storable m \<and> key (replay m) = key m"
    and alt: "alternating (px_connectionEstablished p) [ev]" and ok: "\<forall>m \<in> set (sent_messages [ev]). P m"
  shows "\<exists>p' ms'. host_step store_vt cf ev p = (Inr (), p') \<and>
           proxy_inv key P p' (sent @ sent_messages [ev]) ms' \<and>
           (\<forall>evs. alternating (px_connectionEstablished p) (ev # evs) \<longrightarrow>
              alternating (px_connectionEstablished p') evs)"
proof (cases ev)
  case Connect
  then obtain s where s: "px_recorder p = Some s" "holding s ms" "\<not> px_connectionEstablished p"
    using inv alt by (auto simp: proxy_inv_def)
  obtain s' where s': "send_op s = (Inr (List.map replay ms), s')" "idle s'"
    using send_holding [OF s(2)] by blast
  have "List.map (key \<circ> replay) ms = List.map key ms"
    using inv P by (simp add: proxy_inv_def)
  then have "List.map key (to_client (px_trace p)) @ List.map (key \<circ> replay) ms = List.map key sent"
    using inv by (simp only: proxy_inv_def)
  then show ?thesis
    using inv s s' Connect
    by (auto simp: onHostConnectionEstablished_def thenE_def bindE_def recorder_call_def store_vt_def
        proxy_inv_def)
next
  case Disconnect
  then obtain s where s: "px_recorder p = Some s" "idle s" "px_connectionEstablished p" "ms = []"
    using inv alt by (auto simp: proxy_inv_def)
  obtain s' where s': "resume_op s = (Inr (), s')" "holding s' []"
    using resume_idle [OF s(2)] by blast
  show ?thesis
    using inv s s' Disconnect
    by (auto simp: onHostConnectionLost_def thenE_def bindE_def recorder_call_def store_vt_def
        proxy_inv_def)
next
  case (Send env ty n buf ts ctx)
  let ?m = "new_ProtocolMessage env ty n buf False ts ctx"
  have m: "P ?m" "storable ?m"
    using ok P Send by auto
  obtain s where s: "px_recorder p = Some s"
      "if px_connectionEstablished p then ms = [] \<and> idle s else holding s ms"
    using inv by (auto simp: proxy_inv_def)
  show ?thesis
  proof (cases "px_connectionEstablished p")
    case False
    then obtain s' where "record_op ?m False s = (Inr False, s')" "holding s' (ms @ [?m])"
      using record_holding m s by fastforce
    then show ?thesis
      using inv s Send False m
      by (intro exI [of _ "p\<lparr> px_recorder := Some s' \<rparr>"] exI [of _ "ms @ [?m]"])
        (auto simp: sendMessage_def Let_def thenE_def bindE_def recorder_call_def store_vt_def
          proxy_inv_def)
  next
    case True
    show ?thesis
    proof (cases live)
      case True
      then obtain s' where "record_op ?m False s = (Inr False, s')" "idle s'"
        using record_idle m s \<open>px_connectionEstablished p\<close> by fastforce
      then show ?thesis
        using inv s Send \<open>px_connectionEstablished p\<close> assms(2) True
        by (auto simp: sendMessage_def Let_def thenE_def bindE_def recorder_call_def store_vt_def
            proxy_inv_def)
    next
      case False
      then show ?thesis
        using inv s Send \<open>px_connectionEstablished p\<close> assms(2)
        by (auto simp: sendMessage_def Let_def thenE_def bindE_def proxy_inv_def)
    qed
  qed
qed

theorem proxy_run:
  assumes "proxy_inv key P p sent ms" "cf_recorderOn cf = live"
    and "\<And>m. P m \<Longrightarrow> storable m \<and> key (replay m) = key m"
    and "alternating (px_connectionEstablished p) evs" "\<forall>m \<in> set (sent_messages evs). P m"
  shows "\<exists>p' ms'. run_proxy store_vt cf evs p = (Inr (), p') \<and>
           proxy_inv key P p' (sent @ sent_messages evs) ms'"
  using assms
proof (induction evs arbitrary: p sent ms)
  case Nil
  then show ?case
    by (auto simp: run_proxy_def)
next
  case (Cons ev evs)
  have split: "sent_messages (ev # evs) = sent_messages [ev] @ sent_messages evs"
    by (cases ev) simp_all
  have alt: "alternating (px_connectionEstablished p) [ev]"
    using Cons.prems(4) by (cases ev) auto
  obtain p1 ms1 where p1: "host_step store_vt cf ev p = (Inr (), p1)"
      "proxy_inv key P p1 (sent @ sent_messages [ev]) ms1"
      "alternating (px_connectionEstablished p1) evs"
    using proxy_step [OF Cons.prems(1-3) alt] Cons.prems(4,5) split by auto
  obtain p2 ms2 where "run_proxy store_vt cf evs p1 = (Inr (), p2)"
      "proxy_inv key P p2 ((sent @ sent_messages [ev]) @ sent_messages evs) ms2"
    using Cons.IH [OF p1(2) Cons.prems(2,3) p1(3)] Cons.prems(5) split by auto
  then show ?case
    using p1(1) split by (auto simp: run_proxy_def thenE_def bindE_def)
qed

end

section \<open>The proxy with the two recorders\<close>

text \<open>The virtual functions of the recorder the runtime creates.\<close>

definition recorder_ops :: "rec_env \<Rightarrow> (rec_error, recorder) recorder_vt" where
  "recorder_ops E = \<lparr> vt_recordMessage = recordMessage E, vt_sendBufferedData = sendBufferedData E,
                      vt_resumeBuffering = resumeBuffering E \<rparr>"

lemma replayed_key:
  assumes "recordable E m" "getTimestamp m \<noteq> 0"
  shows "wire_key (replayed E m) = wire_key m"
proof -
  let ?n = "getMessageLength m"
  have l: "length (payload_bytes m) = nat ?n" and a: "?n \<le> 0 \<or> e_alloc (re_msgEnv E) (nat ?n)"
    using assms(1) by (simp_all add: recordable_payload_length) (simp add: recordable_def)
  have "getPayloadData (replayed E m) =
      (if ?n > 0 then Some (memcpy_read (nat ?n) (payload_bytes m)) else None)"
    unfolding replayed_def by (rule new_ProtocolMessage_valid_sel(3) [OF a])
  then have "payload_bytes (replayed E m) = payload_bytes m"
    using l unfolding payload_bytes_def [of "replayed E m"]
    by (auto split: if_splits)
  then show ?thesis
    using assms(2) a
    by (simp add: wire_key_def replayed_def new_ProtocolMessage_valid_sel setTimestamp_def)
qed

section \<open>Properties\<close>


definition sample_events :: "host_event list" where
  "sample_events =
     [Send sample_msgEnv 2 1 [7] 9 None, Connect, Send sample_msgEnv 20 0 [] 10 None, Disconnect,
      Send sample_msgEnv 2 2 [8, 9] 11 None]"

lemma sample_events_ok:
  "alternating False sample_events"
  "\<forall>m \<in> set (sent_messages sample_events).
     recordable (sample_env b 0 id) m \<and> getTimestamp m \<noteq> 0"
  "List.map wire_key (sent_messages sample_events) = [(2, 1, [7], 9), (20, 0, [], 10), (2, 2, [8, 9], 11)]"
  using sample_message_recordable [of 2 "[7]" 9 b 0 id] sample_message_recordable [of 20 "[]" 10 b 0 id]
    sample_message_recordable [of 2 "[8, 9]" 11 b 0 id]
  by (simp_all add: sample_events_def sample_message_def setTimestamp_def wire_key_def
      new_ProtocolMessage_valid_sel payload_bytes_def sample_msgEnv_def memcpy_read_take)




text \<open>Routing of one message sent by a plugin. Without a client it is recorded and then deleted; with
  a client it is handed over exactly once (the client then owns it) and recorded as well exactly if
  recording is on. If the recorder does not raise, nothing else happens, and if it raises the client
  gets nothing.\<close>

theorem sendMessage_routing:
  assumes "px_recorder p = Some s" "px_sender p"
    and msg_def: "msg = new_ProtocolMessage env ty n buf False ts ctx"
  shows "sendMessage vt cf env ty n buf ts ctx p =
     (if px_connectionEstablished p \<and> \<not> cf_recorderOn cf
      then (Inr False, p\<lparr> px_trace := px_trace p @ [ToClient msg] \<rparr>)
      else (case vt_recordMessage vt msg False s of
              (Inl e, s') \<Rightarrow> (Inl (Store e), p\<lparr> px_recorder := Some s' \<rparr>)
            | (Inr _, s') \<Rightarrow>
                (if px_connectionEstablished p
                 then (Inr False, p\<lparr> px_recorder := Some s', px_trace := px_trace p @ [ToClient msg] \<rparr>)
                 else (Inr True, p\<lparr> px_recorder := Some s' \<rparr>))))"
  using assms(1,2)
  by (auto simp: sendMessage_def Let_def thenE_def bindE_def recorder_call_def msg_def
      split: prod.splits sum.splits)

theorem sendMessage_routing_witness:
  "sendMessage (recorder_ops (sample_env False 0 id)) new_ConfigProvider sample_msgEnv 2 1 [7] 9 None
     ((new_PluginProxy (Some (sample_recorder BufferingHandler 0)))\<lparr> px_sender := True, px_connectionEstablished := True \<rparr>)
   = (Inr False, (new_PluginProxy (Some (sample_recorder BufferingHandler 0)))\<lparr> px_sender := True, px_connectionEstablished := True,
        px_trace := [ToClient (new_ProtocolMessage sample_msgEnv 2 1 [7] False 9 None)] \<rparr>)"
  by (subst sendMessage_routing)
    (simp_all add: new_PluginProxy_def new_ConfigProvider_def)

text \<open>The instance a configured plugin gives, and the paths that are unloaded again.\<close>

definition plugin_instance :: "(string \<Rightarrow> plugin_library) \<Rightarrow> plugin_config \<Rightarrow> nat option" where
  "plugin_instance L cfg =
     (let lib = L (pc_path cfg) in
      if lib_throws lib \<or> \<not> lib_isLoaded lib then None else createPluginInstance lib)"

fun unloaded :: "(string \<Rightarrow> plugin_library) \<Rightarrow> plugin_config list \<Rightarrow> string list" where
  "unloaded L [] = []"
| "unloaded L (cfg # cfgs) =
     (let lib = L (pc_path cfg) in
      if lib_throws lib \<or> \<not> lib_isLoaded lib \<or> createPluginInstance lib \<noteq> None
      then unloaded L cfgs else pc_path cfg # unloaded L cfgs)"

lemma loadPlugins_result:
  "loadPlugins L cfgs p =
     p\<lparr> px_loadedPlugins := fold (\<lambda>cfg m. case plugin_instance L cfg of
                                   None \<Rightarrow> m | Some i \<Rightarrow> cmap_insert i cfg m) cfgs (px_loadedPlugins p),
        px_trace := px_trace p @ List.map UnloadLibrary (unloaded L cfgs) \<rparr>"
  by (induction cfgs arbitrary: p)
    (auto simp: Let_def storePluginInList_def plugin_instance_def split: option.splits)

lemma loaded_keys:
  "fst ` set (fold (\<lambda>cfg m. case plugin_instance L cfg of
                      None \<Rightarrow> m | Some i \<Rightarrow> cmap_insert i cfg m) cfgs m)
     = fst ` set m \<union> {i. \<exists>cfg \<in> set cfgs. plugin_instance L cfg = Some i}"
proof (induction cfgs arbitrary: m)
  case (Cons cfg cfgs)
  show ?case
    unfolding fold_simps comp_def Cons.IH
    by (cases "plugin_instance L cfg") auto
qed simp

lemma loaded_ok:
  "cmap_ok m \<Longrightarrow> cmap_ok (fold (\<lambda>cfg m. case plugin_instance L cfg of
                      None \<Rightarrow> m | Some i \<Rightarrow> cmap_insert i cfg m) cfgs m)"
  by (induction cfgs arbitrary: m) (auto split: option.splits)

lemma plugin_life_cycle_run:
  fixes p :: "'s plugin_proxy"
  assumes "px_loadedPlugins p = []" "\<not> px_isPluginStarted p"
  shows "\<exists>p1 p2. initializePluginProvider L cf p = (Inr () :: 'e proxy_error + unit, p1) \<and>
     set (plugin_ptrs p1) = {i. \<exists>cfg \<in> set (Plugins cf). plugin_instance L cfg = Some i} \<and>
     sorted_wrt (<) (plugin_ptrs p1) \<and>
     px_trace p1 = px_trace p @ List.map UnloadLibrary (unloaded L (Plugins cf)) @
        List.map (\<lambda>(i, cfg). SetConfig i (pc_properties cfg)) (px_loadedPlugins p1) @
        List.map StartPlugin (plugin_ptrs p1) \<and>
     startPlugins p1 = (Inr () :: 'e proxy_error + unit, p1) \<and>
     deinitializePluginProvider p1 = (Inr () :: 'e proxy_error + unit, p2) \<and>
     px_trace p2 = px_trace p1 @ List.map StopPlugin (plugin_ptrs p1) \<and>
     deinitializePluginProvider p2 = (Inr () :: 'e proxy_error + unit, p2)"
proof -
  let ?m = "fold (\<lambda>cfg m. case plugin_instance L cfg of
              None \<Rightarrow> m | Some i \<Rightarrow> cmap_insert i cfg m) (Plugins cf) []"
  let ?p1 = "p\<lparr> px_sender := True, px_loadedPlugins := ?m,
       px_trace := px_trace p @ List.map UnloadLibrary (unloaded L (Plugins cf)) @
        List.map (\<lambda>(i, cfg). SetConfig i (pc_properties cfg)) ?m @ List.map StartPlugin (List.map fst ?m),
       px_isPluginStarted := True \<rparr>"
  have init: "initializePluginProvider L cf p = (Inr () :: 'e proxy_error + unit, ?p1)"
    using assms
    by (simp add: initializePluginProvider_def thenE_def bindE_def loadPlugins_result
        setPluginsConfig_def startPlugins_def plugin_ptrs_def)
  have "set (plugin_ptrs ?p1) = {i. \<exists>cfg \<in> set (Plugins cf). plugin_instance L cfg = Some i}"
    using loaded_keys [of L "Plugins cf" "[]"] by (simp add: plugin_ptrs_def)
  moreover have "sorted_wrt (<) (plugin_ptrs ?p1)"
    using loaded_ok [of "[]" L "Plugins cf"] by (simp add: plugin_ptrs_def cmap_ok_def)
  ultimately show ?thesis
    using init
    by (intro exI [of _ ?p1]
          exI [of _ "?p1\<lparr> px_trace := px_trace ?p1 @ List.map StopPlugin (plugin_ptrs ?p1),
                       px_isPluginStarted := False \<rparr>"])
      (simp add: startPlugins_def deinitializePluginProvider_def stopPlugins_def thenE_def bindE_def
        plugin_ptrs_def)
qed

text \<open>C26: The life cycle of the plugins. Initialisation loads a plugin for every configuration entry whose
  library loads and yields an instance, and for no other; unloads the libraries without one;
  configures every plugin once and then starts every plugin once, in pointer order. Starting again does
  nothing, deinitialisation stops each of them exactly once, and a second one does nothing.\<close>

theorem plugin_life_cycle:
  fixes p :: "'s plugin_proxy"
  assumes "px_loadedPlugins p = []" "\<not> px_isPluginStarted p"
  shows "\<exists>p1 p2. initializePluginProvider L cf p = (Inr () :: 'e proxy_error + unit, p1) \<and>
     set (plugin_ptrs p1) = {i. \<exists>cfg \<in> set (Plugins cf). plugin_instance L cfg = Some i} \<and>
     sorted_wrt (<) (plugin_ptrs p1) \<and>
     px_trace p1 = px_trace p @ List.map UnloadLibrary (unloaded L (Plugins cf)) @
        List.map (\<lambda>(i, cfg). SetConfig i (pc_properties cfg)) (px_loadedPlugins p1) @
        List.map StartPlugin (plugin_ptrs p1) \<and>
     startPlugins p1 = (Inr () :: 'e proxy_error + unit, p1) \<and>
     deinitializePluginProvider p1 = (Inr () :: 'e proxy_error + unit, p2) \<and>
     px_trace p2 = px_trace p1 @ List.map StopPlugin (plugin_ptrs p1) \<and>
     deinitializePluginProvider p2 = (Inr () :: 'e proxy_error + unit, p2)"
  using plugin_life_cycle_run [OF assms] .

theorem plugin_life_cycle_witness:
  "\<exists>p1 p2. initializePluginProvider
       (\<lambda>path. \<lparr> lib_throws = False, lib_isLoaded = True, lib_hasSymbol = True,
                  lib_symbolNonNull = True, lib_instance = Some (length path) \<rparr>)
       (new_ConfigProvider\<lparr> cf_pluginList := [new_PluginConfigItem ''a'' ''/lib/a.so''] \<rparr>)
       (new_PluginProxy (None :: unit option)) = (Inr () :: unit proxy_error + unit, p1) \<and>
     set (plugin_ptrs p1) = {9} \<and>
     deinitializePluginProvider p1 = (Inr () :: unit proxy_error + unit, p2) \<and>
     px_trace p2 = px_trace p1 @ List.map StopPlugin (plugin_ptrs p1)"
  using plugin_life_cycle [where 'e = unit, of "new_PluginProxy (None :: unit option)"
      "\<lambda>path. \<lparr> lib_throws = False, lib_isLoaded = True, lib_hasSymbol = True,
                 lib_symbolNonNull = True, lib_instance = Some (length path) \<rparr>"
      "new_ConfigProvider\<lparr> cf_pluginList := [new_PluginConfigItem ''a'' ''/lib/a.so''] \<rparr>"]
  by (auto simp: new_PluginProxy_def Plugins_def plugin_instance_def createPluginInstance_def
      new_PluginConfigItem_def)

lemma route_None: "route serves item m = None \<longleftrightarrow> (\<forall>i \<in> fst ` set m. serves i \<noteq> item)"
  by (induction m) (auto split: if_splits)

lemma route_Some_least:
  "cmap_ok m \<Longrightarrow> route serves item m = Some i \<Longrightarrow>
     i \<in> fst ` set m \<and> serves i = item \<and> (\<forall>j \<in> fst ` set m. serves j = item \<longrightarrow> i \<le> j)"
  by (induction m) (force simp: cmap_ok_Cons split: if_splits intro: less_imp_le)+

text \<open>A message from the client reaches exactly one plugin, if any serves its type: the one with the
  lowest address among those, with the message's length and payload. When no plugin serves the type,
  nothing happens.\<close>

theorem onMessageReceived_routes:
  assumes "cmap_ok (px_loadedPlugins p)"
  shows "(\<exists>i \<in> set (plugin_ptrs p). serves i = getMessageType msg \<and>
            (\<forall>j \<in> set (plugin_ptrs p). serves j = getMessageType msg \<longrightarrow> i \<le> j) \<and>
            onMessageReceived serves msg p =
              (Inr (), p\<lparr> px_trace := px_trace p @
                 [OnMessageReceived i (getMessageLength msg) (getPayloadData msg)] \<rparr>)) \<or>
         (\<forall>i \<in> set (plugin_ptrs p). serves i \<noteq> getMessageType msg) \<and>
            onMessageReceived serves msg p = (Inr (), p)"
proof (cases "route serves (getMessageType msg) (px_loadedPlugins p)")
  case None
  then show ?thesis
    using route_None [of serves "getMessageType msg" "px_loadedPlugins p"]
    by (intro disjI2) (auto simp: onMessageReceived_def plugin_ptrs_def)
next
  case (Some i)
  then show ?thesis
    using route_Some_least [OF assms Some]
    by (intro disjI1 bexI [of _ i]) (auto simp: onMessageReceived_def plugin_ptrs_def)
qed

theorem onMessageReceived_routes_witness:
  "onMessageReceived (\<lambda>i. 2) (sample_message 20 [1] 9)
     ((new_PluginProxy (None :: unit option))\<lparr> px_loadedPlugins := [(9, new_PluginConfigItem [] [])] \<rparr>)
   = (Inr () :: unit proxy_error + unit,
      (new_PluginProxy None)\<lparr> px_loadedPlugins := [(9, new_PluginConfigItem [] [])] \<rparr>)"
  using onMessageReceived_routes [where 'b = unit and serves = "\<lambda>i. 2" and msg = "sample_message 20 [1] 9"
      and p = "(new_PluginProxy (None :: unit option))\<lparr> px_loadedPlugins := [(9, new_PluginConfigItem [] [])] \<rparr>"]
  by (auto simp: cmap_ok_def plugin_ptrs_def)

end
