(* ===== verification/SendQueue.thy ===== *)
theory SendQueue
  imports Main "HOL-Library.Multiset"
begin

text \<open>
  The contract of a message queue between threads. The agent has two that keep it: the send queue of
  the dispatcher (theory Dispatcher) and the queue between producer and consumer of the D-Bus monitor
  (theory DbusMonitor).
\<close>

text \<open>What the rest of the agent relies on: pushing an urgent message puts it in front, any other one at
  the end; popping takes the front. From these follow the two ordering guarantees.\<close>

locale send_queue =
  fixes push :: "'m \<Rightarrow> 's \<Rightarrow> 's"
    and pop :: "'s \<Rightarrow> 'm option \<times> 's"
    and items :: "'s \<Rightarrow> 'm list"
    and urgent :: "'m \<Rightarrow> bool"
  assumes items_push: "items (push m s) = (if urgent m then m # items s else items s @ [m])"
    and pop_empty: "items s = [] \<Longrightarrow> pop s = (None, s)"
    and pop_front: "items s = m # ms \<Longrightarrow> \<exists>s'. pop s = (Some m, s') \<and> items s' = ms"
begin

text \<open>A run of pushes (\<^const>\<open>Some\<close>) and pops (\<^const>\<open>None\<close>): the messages popped, in order.\<close>

fun run_queue :: "'m option list \<Rightarrow> 's \<Rightarrow> 'm list \<times> 's" where
  "run_queue [] s = ([], s)"
| "run_queue (Some m # cmds) s = run_queue cmds (push m s)"
| "run_queue (None # cmds) s =
     (case pop s of (mo, s') \<Rightarrow>
        (case run_queue cmds s' of (ms, s'') \<Rightarrow>
           ((case mo of None \<Rightarrow> ms | Some m \<Rightarrow> m # ms), s'')))"

lemma normal_fifo:
  "run_queue cmds s = (ms, s') \<Longrightarrow>
     filter (\<lambda>m. \<not> urgent m) ms @ filter (\<lambda>m. \<not> urgent m) (items s') =
     filter (\<lambda>m. \<not> urgent m) (items s) @
       filter (\<lambda>m. \<not> urgent m) (List.map_filter id cmds)"
proof (induction cmds s arbitrary: ms rule: run_queue.induct)
  case (2 m cmds s)
  then show ?case
    by (auto simp: items_push map_filter_simps)
next
  case (3 cmds s)
  obtain ms1 s1 where r: "run_queue cmds (snd (pop s)) = (ms1, s1)" by force
  show ?case
  proof (cases "items s")
    case Nil
    then show ?thesis
      using "3.IH" [of None s] "3.prems" pop_empty by (auto simp: map_filter_simps)
  next
    case (Cons m rest)
    then obtain s2 where "pop s = (Some m, s2)" "items s2 = rest"
      using pop_front by blast
    then show ?thesis
      using "3.IH" [of "Some m" s2 ms1] "3.prems" Cons r by (auto simp: map_filter_simps)
  qed
qed (simp add: map_filter_simps)

lemma conservation:
  "run_queue cmds s = (ms, s') \<Longrightarrow>
     mset ms + mset (items s') = mset (items s) + mset (List.map_filter id cmds)"
proof (induction cmds s arbitrary: ms rule: run_queue.induct)
  case (2 m cmds s)
  then show ?case
    by (auto simp: items_push map_filter_simps)
next
  case (3 cmds s)
  obtain ms1 s1 where r: "run_queue cmds (snd (pop s)) = (ms1, s1)" by force
  show ?case
  proof (cases "items s")
    case Nil
    then show ?thesis
      using "3.IH" [of None s] "3.prems" pop_empty by (auto simp: map_filter_simps)
  next
    case (Cons m rest)
    then obtain s2 where "pop s = (Some m, s2)" "items s2 = rest"
      using pop_front by blast
    then show ?thesis
      using "3.IH" [of "Some m" s2 ms1] "3.prems" Cons r by (auto simp: map_filter_simps)
  qed
qed (simp add: map_filter_simps)

lemma urgent_next:
  "urgent m \<Longrightarrow> fst (pop (push m s)) = Some m"
  using pop_front [of "push m s" m "items s"] by (auto simp: items_push)

end

end
