(* ===== verification/Dispatcher.thy ===== *)
theory Dispatcher
  imports Serializer SendQueue
begin

text \<open>
  The message dispatcher of a client connection
  (\<^verbatim>\<open>communicator/src/CMessageDispatcher.cpp\<close>): framing on the socket, the receiver loop, the send
  queue and the sender loop with its retries.

  The socket is a script of what its calls will do. \<open>d_in\<close> lists the results of
  \<^verbatim>\<open>receiveBytes\<close>: a chunk of the incoming stream (a call that asks for less than the chunk leaves
  the rest), an empty chunk being the orderly shutdown of the peer, a negative count, or an exception;
  when the script is used up the call times out (the socket has a receive timeout). \<open>d_sends\<close> lists
  how many bytes \<^verbatim>\<open>sendBytes\<close> takes, or its failures; when it is used up everything is taken.
  \<open>d_out\<close> is what has reached the wire.
\<close>

section \<open>State\<close>

datatype recv_event =
    Chunk "byte list"
  | RecvNegative int
  | ConnectionReset
  | RecvTimeout
  | RecvPocoException
  | RecvOtherException

datatype send_event =
    Wrote nat
  | WroteNegative
  | SendException

datatype socket_error =
    E_ERROR_UNDEFINED
  | E_ERROR_PEER_CLOSED_CONNECTION
  | E_ERROR_RECEIVE_TIMEOUT
  | E_ERROR_OTHER

datatype notification =
    NTFY_INVALID
  | NTFY_NEW_HOST_CONNECTION_ESTABLISHED
  | NTFY_NEW_MESSAGE_FROM_HOST_RECEIVED protocol_message
  | NTFY_SOCKET_CONNECTION_CLOSED_BY_HOST
  | NTFY_CONNECTION_WATCHDOG_TIMEOUT

datatype disp_error = StackOverflow

record dispatcher =
  d_in :: "recv_event list"
  d_sends :: "send_event list"
  d_out :: "byte list"
  d_metaDataQueue :: "notification list"
  d_receiverRunning :: bool
  d_senderRunning :: bool
  d_messageQueue :: "protocol_message list"
  d_messagesAvailable :: bool
  d_payloadBuffer :: "byte list"
  d_sendQHighWatermark :: nat
  d_highWatermark :: u32
  d_lastTimestamp :: u64
  d_sequenceErrors :: nat

abbreviation MAX_HEADER_LENGTH :: nat where "MAX_HEADER_LENGTH \<equiv> 100"
abbreviation maxRetries :: nat where "maxRetries \<equiv> 100"
abbreviation PREALLOCATED_MESSAGE_RECEIVE_BUFFER_SIZE :: nat
  where "PREALLOCATED_MESSAGE_RECEIVE_BUFFER_SIZE \<equiv> 128"

type_synonym 'a disp_op = "(disp_error, dispatcher, 'a) op"

definition new_CCommMsgDispatcher ::
    "recv_event list \<Rightarrow> send_event list \<Rightarrow> notification list \<Rightarrow> dispatcher" where
  "new_CCommMsgDispatcher inp sends queue =
     \<lparr> d_in = inp, d_sends = sends, d_out = [], d_metaDataQueue = queue,
       d_receiverRunning = True, d_senderRunning = True, d_messageQueue = [],
       d_messagesAvailable = False,
       d_payloadBuffer = replicate PREALLOCATED_MESSAGE_RECEIVE_BUFFER_SIZE 0,
       d_sendQHighWatermark = 0, d_highWatermark = 100, d_lastTimestamp = 0,
       d_sequenceErrors = 0 \<rparr>"

section \<open>Reading from the socket\<close>

text \<open>The loop of \<^verbatim>\<open>readNBytesFromSocket\<close>: \<open>acc\<close> are the bytes received so far, the result is the return
  value, the bytes in the buffer, the error code and the rest of the script. Exceptions that are
  neither Poco's nor a connection event are logged and the loop goes on.\<close>

function read_loop ::
    "nat \<Rightarrow> byte list \<Rightarrow> socket_error \<Rightarrow> recv_event list
       \<Rightarrow> bool \<times> byte list \<times> socket_error \<times> recv_event list" where
  "read_loop N acc ec script =
     (if length acc \<ge> N then (True, acc, ec, script)
      else (case script of
              [] \<Rightarrow> (False, acc, E_ERROR_RECEIVE_TIMEOUT, [])
            | ev # evs \<Rightarrow>
                (case ev of
                   Chunk bs \<Rightarrow>
                     (let k = N - length acc in
                      if bs = [] then (False, acc, E_ERROR_PEER_CLOSED_CONNECTION, evs)
                      else read_loop N (acc @ take k bs) ec
                             (if length bs > k then Chunk (drop k bs) # evs else evs))
                 | RecvNegative n \<Rightarrow> (False, acc, E_ERROR_OTHER, evs)
                 | ConnectionReset \<Rightarrow> (False, acc, E_ERROR_PEER_CLOSED_CONNECTION, evs)
                 | RecvTimeout \<Rightarrow> (False, acc, E_ERROR_RECEIVE_TIMEOUT, evs)
                 | RecvPocoException \<Rightarrow> (False, acc, E_ERROR_RECEIVE_TIMEOUT, evs)
                 | RecvOtherException \<Rightarrow> read_loop N acc ec evs)))"
  by pat_completeness auto
termination
  by (relation "measure (\<lambda>(N, acc, ec, script). (N - length acc) + length script)")
    (auto simp: Let_def min_def neq_Nil_conv split: if_splits)

declare read_loop.simps [simp del]

definition readNBytesFromSocket ::
    "nat \<Rightarrow> socket_error \<Rightarrow> dispatcher \<Rightarrow> bool \<times> byte list \<times> socket_error \<times> dispatcher" where
  "readNBytesFromSocket N ec d =
     (case read_loop N [] ec (d_in d) of
        (ok, bytes, ec', script) \<Rightarrow> (ok, bytes, ec', d\<lparr> d_in := script \<rparr>))"

text \<open>The header goes into an array of 100 bytes on the stack, its length byte may announce 255.\<close>

definition waitForProtocolMessageHeader ::
    "codec \<Rightarrow> socket_error \<Rightarrow> (frame_header option \<times> socket_error) disp_op" where
  "waitForProtocolMessageHeader C ec = (\<lambda>d.
     (case readNBytesFromSocket 1 ec d of
        (ok, lenBytes, ec1, d1) \<Rightarrow>
          (if ok then
             (let lenByte = unat (hd lenBytes) in
              case readNBytesFromSocket lenByte ec1 d1 of
                (ok2, bytes, ec2, d2) \<Rightarrow>
                  (if length bytes > MAX_HEADER_LENGTH then (Inl StackOverflow, d2)
                   else if ok2 then (Inr (dec C bytes, ec2), d2)
                   else (Inr (None, ec2), d2)))
           else (Inr (None, ec1), d1))))"

definition adjustMessagePayloadReceiveBuffer :: "int \<Rightarrow> byte list \<Rightarrow> byte list" where
  "adjustMessagePayloadReceiveBuffer expected buffer =
     (if expected > int (length buffer) then replicate (nat expected) 0 else buffer)"

definition waitForProtocolMessagePayload ::
    "msg_env \<Rightarrow> frame_header \<Rightarrow> socket_error \<Rightarrow> (protocol_message option \<times> socket_error) disp_op" where
  "waitForProtocolMessagePayload env h ec = (\<lambda>d.
     (if h_length h > 0 then
        (let buf = adjustMessagePayloadReceiveBuffer (h_length h) (d_payloadBuffer d) in
         case readNBytesFromSocket (nat (h_length h)) ec d of
           (ok, bytes, ec1, d1) \<Rightarrow>
             (let buf1 = bytes @ drop (length bytes) buf; d2 = d1\<lparr> d_payloadBuffer := buf1 \<rparr> in
              if ok then (Inr (Some (new_ProtocolMessage env (h_type h) (h_length h) buf1
                                       False 0 None), ec1), d2)
              else (Inr (None, ec1), d2)))
      else (Inr (Some (new_ProtocolMessage env (h_type h) 0 [] False 0 None), ec), d)))"

definition waitForNextCompleteProtocolMessage ::
    "codec \<Rightarrow> msg_env \<Rightarrow> (protocol_message option \<times> socket_error) disp_op" where
  "waitForNextCompleteProtocolMessage C env =
     bindE (waitForProtocolMessageHeader C E_ERROR_UNDEFINED) (\<lambda>(h, ec).
       (case h of
          None \<Rightarrow> returnE (None, ec)
        | Some h' \<Rightarrow> waitForProtocolMessagePayload env h' ec))"

definition enqueueNotification :: "notification \<Rightarrow> unit disp_op" where
  "enqueueNotification n = modifyE (\<lambda>d. d\<lparr> d_metaDataQueue := d_metaDataQueue d @ [n] \<rparr>)"

text \<open>The receiver activity, asked to stop after \<open>rounds\<close> iterations. It ends by itself when the peer has
  closed the connection.\<close>

fun runReceiverActivity :: "codec \<Rightarrow> msg_env \<Rightarrow> nat \<Rightarrow> unit disp_op" where
  "runReceiverActivity C env 0 = modifyE (\<lambda>d. d\<lparr> d_receiverRunning := False \<rparr>)"
| "runReceiverActivity C env (Suc rounds) =
     bindE (waitForNextCompleteProtocolMessage C env) (\<lambda>(msg, ec).
       (case msg of
          Some m \<Rightarrow> thenE (enqueueNotification (NTFY_NEW_MESSAGE_FROM_HOST_RECEIVED m))
                     (runReceiverActivity C env rounds)
        | None \<Rightarrow>
            (if ec = E_ERROR_PEER_CLOSED_CONNECTION
             then thenE (enqueueNotification NTFY_SOCKET_CONNECTION_CLOSED_BY_HOST)
                    (modifyE (\<lambda>d. d\<lparr> d_receiverRunning := False \<rparr>))
             else runReceiverActivity C env rounds)))"

section \<open>The send queue\<close>

definition pushMessageToQueue :: "protocol_message \<Rightarrow> dispatcher \<Rightarrow> dispatcher" where
  "pushMessageToQueue msg d =
     (let q = (if isUrgent msg then msg # d_messageQueue d else d_messageQueue d @ [msg]);
          d1 = d\<lparr> d_messageQueue := q \<rparr> in
      if length q > d_sendQHighWatermark d then
        (let d2 = d1\<lparr> d_sendQHighWatermark := length q \<rparr> in
         if length q > unat (d_highWatermark d2)
         then d2\<lparr> d_highWatermark := d_highWatermark d2 * 2 \<rparr> else d2)
      else d1)"

definition notifyMessagesAvailable :: "dispatcher \<Rightarrow> dispatcher" where
  "notifyMessagesAvailable d =
     (if \<not> d_messagesAvailable d then d\<lparr> d_messagesAvailable := True \<rparr> else d)"

definition popMessageFromQueue :: "dispatcher \<Rightarrow> protocol_message option \<times> dispatcher" where
  "popMessageFromQueue d =
     (case d_messageQueue d of
        [] \<Rightarrow> (None, d)
      | m # ms \<Rightarrow> (Some m, d\<lparr> d_messageQueue := ms \<rparr>))"

definition updateMessageAvailableFlag :: "dispatcher \<Rightarrow> dispatcher" where
  "updateMessageAvailableFlag d =
     (if d_messageQueue d = [] then d\<lparr> d_messagesAvailable := False \<rparr> else d)"

definition sendMessage :: "protocol_message \<Rightarrow> dispatcher \<Rightarrow> dispatcher" where
  "sendMessage msg d =
     (if isValid msg \<and> d_senderRunning d
      then notifyMessagesAvailable (pushMessageToQueue msg d) else d)"

definition clearPendingMessages :: "dispatcher \<Rightarrow> dispatcher" where
  "clearPendingMessages d = d\<lparr> d_messageQueue := [] \<rparr>"

section \<open>Writing to the socket\<close>

text \<open>The loop of \<^verbatim>\<open>writeNBytesToSocket\<close>. What \<^verbatim>\<open>sendBytes\<close> took is on the wire even in the turn that
  is given up. A call with a negative length raises.\<close>

function write_loop ::
    "int \<Rightarrow> byte list \<Rightarrow> int \<Rightarrow> int \<Rightarrow> byte list \<times> send_event list
       \<Rightarrow> bool \<times> byte list \<times> send_event list" where
  "write_loop N buffer sent turn (out, script) =
     (if sent = N then (True, out, script)
      else if N < sent then (False, out, script)
      else
       (let rest = memcpy_read (nat (N - sent)) (drop (nat sent) buffer) in
        case (case script of [] \<Rightarrow> Wrote (length rest) | ev # _ \<Rightarrow> ev) of
          WroteNegative \<Rightarrow> (False, out, tl script)
        | SendException \<Rightarrow> (False, out, tl script)
        | Wrote k \<Rightarrow>
           (let out' = out @ take k rest in
            if turn > 100 then (False, out', tl script)
            else write_loop N buffer (sent + int (min k (length rest))) (turn + 1) (out', tl script))))"
  by pat_completeness auto
termination
  by (relation "measure (\<lambda>(N, buffer, sent, turn, os). nat (102 - turn))") auto

declare write_loop.simps [simp del]

definition writeNBytesToSocket :: "byte list \<Rightarrow> int \<Rightarrow> dispatcher \<Rightarrow> bool \<times> dispatcher" where
  "writeNBytesToSocket buffer N d =
     (case write_loop N buffer 0 0 (d_out d, d_sends d) of
        (ok, out, script) \<Rightarrow> (ok, d\<lparr> d_out := out, d_sends := script \<rparr>))"

text \<open>The header length is an \<^verbatim>\<open>unsigned char\<close>; \<^verbatim>\<open>SerializeToArray\<close> refuses a size below what the
  header needs, and otherwise writes from the second byte of an array of 100 bytes on.\<close>

definition transmitMessageHeader :: "codec \<Rightarrow> protocol_message \<Rightarrow> bool disp_op" where
  "transmitMessageHeader C msg = (\<lambda>d.
     (let header = writeMessageHeader msg;
          headerLength = ByteSize C header mod 256 in
      if headerLength < ByteSize C header then (Inr False, d)
      else if 1 + headerLength > MAX_HEADER_LENGTH then (Inl StackOverflow, d)
      else (let (ok, d') = writeNBytesToSocket (word_of_nat headerLength # enc C header)
                             (int headerLength + 1) d
            in (Inr ok, d'))))"

definition transmitMessagePayload :: "protocol_message \<Rightarrow> bool disp_op" where
  "transmitMessagePayload msg = (\<lambda>d.
     (let (ok, d') = writeNBytesToSocket (payload_bytes msg) (getMessageLength msg) d in (Inr ok, d')))"

text \<open>The message invariant makes the empty list stand for the payload pointer of an empty message.\<close>

definition transmitMessage :: "codec \<Rightarrow> protocol_message option \<Rightarrow> bool disp_op" where
  "transmitMessage C msg =
     (case msg of
        None \<Rightarrow> returnE True
      | Some m \<Rightarrow> bindE (transmitMessageHeader C m) (\<lambda>ok.
                   if ok then transmitMessagePayload m else returnE False))"

section \<open>The sender loop\<close>

text \<open>The sequence check of resource monitor messages: the difference is a signed 64-bit number.\<close>

definition checkSequence :: "protocol_message option \<Rightarrow> dispatcher \<Rightarrow> dispatcher" where
  "checkSequence msg d =
     (case msg of
        None \<Rightarrow> d
      | Some m \<Rightarrow>
          (if getMessageType m = MSG_TYPE_RESOURCE_MONITOR then
             (let diff = sint (getTimestamp m - d_lastTimestamp d) in
              d\<lparr> d_sequenceErrors := d_sequenceErrors d + (if diff \<le> 0 then 1 else 0),
                 d_lastTimestamp := getTimestamp m \<rparr>)
           else d))"

text \<open>One pass of the sender loop after the wait for messages: the result is the new retry count, and
  whether the connection is given up.\<close>

definition sender_pass :: "codec \<Rightarrow> nat \<Rightarrow> (nat \<times> bool) disp_op" where
  "sender_pass C retries = (\<lambda>d.
     (let (msg, d1) = popMessageFromQueue d; d2 = checkSequence msg d1 in
      bindE (transmitMessage C msg) (\<lambda>ok d3.
        (let retries' = (if ok then 0 else retries + 1); d4 = updateMessageAvailableFlag d3 in
         if retries' = maxRetries
         then thenE (enqueueNotification NTFY_SOCKET_CONNECTION_CLOSED_BY_HOST)
                (returnE (0, True)) d4
         else (Inr (retries', False), d4))) d2))"

text \<open>The sender activity, asked to stop after \<open>rounds\<close> passes; it blocks (and this run of it is over)
  when nothing is available.\<close>

fun runSenderActivity :: "codec \<Rightarrow> nat \<Rightarrow> nat \<Rightarrow> nat disp_op" where
  "runSenderActivity C retries 0 = returnE retries"
| "runSenderActivity C retries (Suc rounds) = (\<lambda>d.
     (if \<not> d_messagesAvailable d then (Inr retries, d)
      else bindE (sender_pass C retries) (\<lambda>(retries', givenUp).
             if givenUp then thenE (modifyE (\<lambda>d. d\<lparr> d_senderRunning := False \<rparr>)) (returnE retries')
             else runSenderActivity C retries' rounds) d))"

definition shutdownSenderBranch :: "dispatcher \<Rightarrow> dispatcher" where
  "shutdownSenderBranch d =
     clearPendingMessages ((notifyMessagesAvailable d)\<lparr> d_senderRunning := False \<rparr>)"

definition shutdownReceiverBranch :: "dispatcher \<Rightarrow> dispatcher" where
  "shutdownReceiverBranch d = d\<lparr> d_receiverRunning := False \<rparr>"

definition closeConnection :: "dispatcher \<Rightarrow> dispatcher" where
  "closeConnection d = shutdownReceiverBranch (shutdownSenderBranch d)"

section \<open>Reading: the chunking of the stream does not matter\<close>

definition chunks :: "byte list list \<Rightarrow> recv_event list" where
  "chunks cs = List.map Chunk cs"

lemma chunks_simps [simp]: "chunks [] = []" "chunks (c # cs) = Chunk c # chunks cs"
  by (simp_all add: chunks_def)

lemma read_loop_full [simp]: "length acc = N \<Longrightarrow> read_loop N acc ec script = (True, acc, ec, script)"
  by (simp add: read_loop.simps)

lemma read_loop_chunks:
  assumes "length acc + length xs = N" "concat cs = xs @ ys" "[] \<notin> set cs"
  shows "\<exists>cs'. read_loop N acc ec (chunks cs) = (True, acc @ xs, ec, chunks cs') \<and>
           concat cs' = ys \<and> [] \<notin> set cs'"
  using assms
proof (induction cs arbitrary: acc xs)
  case Nil
  then show ?case
    by (auto intro: exI [of _ "[]"])
next
  case (Cons c cs)
  show ?case
  proof (cases "xs = []")
    case True
    then show ?thesis
      using Cons.prems by (intro exI [of _ "c # cs"]) auto
  next
    case False
    let ?k = "N - length acc"
    have k: "?k = length xs" "c \<noteq> []"
      using Cons.prems by auto
    have step: "read_loop N acc ec (chunks (c # cs)) =
        read_loop N (acc @ take ?k c) ec (if length c > ?k then Chunk (drop ?k c) # chunks cs else chunks cs)"
      using Cons.prems False k(2) by (subst read_loop.simps) (simp add: Let_def)
    show ?thesis
    proof (cases "length c > length xs")
      case True
      have "xs @ drop (length xs) c = c \<and> drop (length xs) c @ concat cs = ys"
        using Cons.prems(2) True
        by (metis (no_types, lifting) append_eq_append_conv_if concat.simps(2) append_take_drop_id
            less_imp_le)
      moreover from this have "take (length xs) c = xs"
        by (metis append_eq_conv_conj)
      ultimately show ?thesis
        using step k True Cons.prems
        by (intro exI [of _ "drop (length xs) c # cs"]) auto
    next
      case False
      then obtain xs' where xs': "xs = c @ xs'" "concat cs = xs' @ ys"
        using Cons.prems(2) by (auto simp: append_eq_append_conv2)
      have "read_loop N acc ec (chunks (c # cs)) = read_loop N (acc @ c) ec (chunks cs)"
        using step k False by simp
      moreover obtain cs' where "read_loop N (acc @ c) ec (chunks cs) =
          (True, (acc @ c) @ xs', ec, chunks cs')" "concat cs' = ys" "[] \<notin> set cs'"
        using Cons.IH [of "acc @ c" xs'] Cons.prems xs' by auto
      ultimately show ?thesis
        using xs' by auto
    qed
  qed
qed

text \<open>What one frame puts on the wire, and the messages a frame can carry.\<close>

definition wire_bytes :: "codec \<Rightarrow> protocol_message \<Rightarrow> byte list" where
  "wire_bytes C m = word_of_nat (ByteSize C (writeMessageHeader m)) # enc C (writeMessageHeader m)
     @ payload_bytes m"

definition framable :: "codec \<Rightarrow> protocol_message \<Rightarrow> bool" where
  "framable C m \<longleftrightarrow> message_wf m \<and> isValid m \<and> 0 \<le> getMessageLength m \<and>
     codec_on C (writeMessageHeader m) \<and> ByteSize C (writeMessageHeader m) < MAX_HEADER_LENGTH"

text \<open>The message the receiver builds: type, length and payload, stamped on arrival.\<close>

definition received :: "msg_env \<Rightarrow> protocol_message \<Rightarrow> protocol_message" where
  "received env m = new_ProtocolMessage env (getMessageType m) (getMessageLength m)
     (payload_bytes m) False 0 None"

lemma receive_frame:
  assumes m: "framable C m"
    and cs: "concat cs = wire_bytes C m @ ys" "[] \<notin> set cs" and d: "d_in d = chunks cs"
  shows "\<exists>cs' pb. waitForNextCompleteProtocolMessage C env d =
           (Inr (Some (received env m), E_ERROR_UNDEFINED),
            d\<lparr> d_in := chunks cs', d_payloadBuffer := pb \<rparr>) \<and> concat cs' = ys \<and> [] \<notin> set cs'"
proof -
  let ?h = "writeMessageHeader m" and ?L = "nat (getMessageLength m)"
  let ?e = "enc C ?h"
  have n: "0 < length ?e" "length ?e < 100" and dh: "dec C ?e = Some ?h"
    using m by (auto simp: framable_def codec_on_def ByteSize_def)
  have un: "unat (word_of_nat (length ?e) :: byte) = length ?e"
    using n by (simp add: unat_of_nat)
  have pl: "length (payload_bytes m) = ?L" "0 \<le> getMessageLength m"
    using m by (auto simp: framable_def message_wf_payload_length)
  obtain c1 where c1: "read_loop 1 [] E_ERROR_UNDEFINED (chunks cs) =
      (True, [word_of_nat (length ?e)], E_ERROR_UNDEFINED, chunks c1)"
      "concat c1 = ?e @ (payload_bytes m @ ys)" "[] \<notin> set c1"
    using read_loop_chunks [of "[]" "[word_of_nat (length ?e)]" 1 cs "?e @ payload_bytes m @ ys"
        E_ERROR_UNDEFINED] cs by (auto simp: wire_bytes_def ByteSize_def)
  obtain c2 where c2: "read_loop (length ?e) [] E_ERROR_UNDEFINED (chunks c1) =
      (True, ?e, E_ERROR_UNDEFINED, chunks c2)" "concat c2 = payload_bytes m @ ys" "[] \<notin> set c2"
    using read_loop_chunks [of "[]" ?e "length ?e" c1 "payload_bytes m @ ys" E_ERROR_UNDEFINED] c1
    by auto
  have head: "waitForProtocolMessageHeader C E_ERROR_UNDEFINED d =
      (Inr (Some ?h, E_ERROR_UNDEFINED), d\<lparr> d_in := chunks c2 \<rparr>)"
    using c1(1) c2(1) n un dh d
    by (simp add: waitForProtocolMessageHeader_def readNBytesFromSocket_def)
  obtain c3 where c3: "read_loop ?L [] E_ERROR_UNDEFINED (chunks c2) =
      (True, payload_bytes m, E_ERROR_UNDEFINED, chunks c3)" "concat c3 = ys" "[] \<notin> set c3"
    using read_loop_chunks [of "[]" "payload_bytes m" ?L c2 ys E_ERROR_UNDEFINED] c2 pl by auto
  show ?thesis
  proof (cases "getMessageLength m > 0")
    case True
    let ?buf = "adjustMessagePayloadReceiveBuffer (getMessageLength m) (d_payloadBuffer d)"
    let ?buf1 = "payload_bytes m @ drop ?L ?buf"
    have "new_ProtocolMessage env (getMessageType m) (getMessageLength m) ?buf1 False 0 None
        = received env m"
      using pl(1) unfolding received_def new_ProtocolMessage_def setupMessageBuffer_def
      by (metis memcpy_read_append memcpy_read_self)
    then show ?thesis
      using True c3 pl(1) head
      by (intro exI [of _ c3] exI [of _ ?buf1])
        (simp add: waitForNextCompleteProtocolMessage_def bindE_def
          waitForProtocolMessagePayload_def readNBytesFromSocket_def Let_def)
  next
    case False
    then have l0: "getMessageLength m = 0" "payload_bytes m = []"
      using pl by auto
    then show ?thesis
      using c2 head
      by (intro exI [of _ c2] exI [of _ "d_payloadBuffer d"])
        (simp add: waitForNextCompleteProtocolMessage_def bindE_def
          waitForProtocolMessagePayload_def received_def)
  qed
qed

section \<open>Writing: only whole frames count as sent\<close>

lemma take_two_steps:
  assumes "0 \<le> (sent :: int)" "sent + int j \<le> k"
  shows "take j (drop (nat sent) buffer) @
           take (nat (k - (sent + int j))) (drop (nat (sent + int j)) buffer)
         = take (nat (k - sent)) (drop (nat sent) buffer)"
proof -
  have "nat (k - sent) = j + nat (k - (sent + int j))" "nat (sent + int j) = j + nat sent"
    using assms by auto
  then show ?thesis
    by (simp add: take_add)
qed

lemma write_loop_prefix:
  assumes "0 \<le> sent" "sent \<le> N" "nat N \<le> length buffer"
    and "write_loop N buffer sent turn (out, script) = (ok, out', script')"
  shows "\<exists>k. sent \<le> k \<and> k \<le> N \<and> out' = out @ take (nat (k - sent)) (drop (nat sent) buffer) \<and>
           (ok \<longrightarrow> k = N)"
  using assms
proof (induction N buffer sent turn "(out, script)" arbitrary: out script rule: write_loop.induct)
  case (1 N buffer sent turn out script)
  show ?case
  proof (cases "sent = N")
    case True
    then show ?thesis
      using "1.prems" by (intro exI [of _ N]) (auto simp: write_loop.simps)
  next
    case False
    let ?rest = "memcpy_read (nat (N - sent)) (drop (nat sent) buffer)"
    let ?ev = "case script of [] \<Rightarrow> Wrote (length ?rest) | ev # _ \<Rightarrow> ev"
    have rest: "?rest = take (nat (N - sent)) (drop (nat sent) buffer)" "length ?rest = nat (N - sent)"
      using "1.prems" False by (auto simp: memcpy_read_take nat_diff_distrib)
    have lt: "\<not> N < sent"
      using "1.prems" by simp
    have unf: "write_loop N buffer sent turn (out, script) =
      (case ?ev of
         WroteNegative \<Rightarrow> (False, out, tl script)
       | SendException \<Rightarrow> (False, out, tl script)
       | Wrote k \<Rightarrow>
          (if turn > 100 then (False, out @ take k ?rest, tl script)
           else write_loop N buffer (sent + int (min k (length ?rest))) (turn + 1)
                  (out @ take k ?rest, tl script)))"
      by (subst write_loop.simps, subst if_not_P [OF False], subst if_not_P [OF lt])
        (simp only: Let_def)
    show ?thesis
    proof (cases ?ev)
      case (Wrote k)
      let ?j = "min k (length ?rest)"
      have takes: "take k ?rest = take ?j (drop (nat sent) buffer)"
        using rest by (simp add: min.commute)
      have j: "sent + int ?j \<le> N"
        using rest(2) lt by linarith
      show ?thesis
      proof (cases "turn > 100")
        case True
        then have "out' = out @ take ?j (drop (nat sent) buffer)" "\<not> ok"
          using "1.prems"(4) unfolding unf Wrote takes [symmetric] by auto
        then show ?thesis
          using j by (intro exI [of _ "sent + int ?j"]) simp
      next
        case tn: False
        have rec: "write_loop N buffer (sent + int ?j) (turn + 1) (out @ take k ?rest, tl script)
            = (ok, out', script')"
          using "1.prems"(4) tn unfolding unf Wrote by simp
        obtain k' where k': "sent + int ?j \<le> k'" "k' \<le> N" "ok \<longrightarrow> k' = N"
          "out' = (out @ take k ?rest) @
             take (nat (k' - (sent + int ?j))) (drop (nat (sent + int ?j)) buffer)"
          using "1.hyps" [OF False lt refl Wrote refl tn _ j "1.prems"(3) rec] "1.prems"(1) by auto
        have "take ?j (drop (nat sent) buffer) @
             take (nat (k' - (sent + int ?j))) (drop (nat (sent + int ?j)) buffer)
            = take (nat (k' - sent)) (drop (nat sent) buffer)"
          using "1.prems"(1) k'(1) by (rule take_two_steps)
        then show ?thesis
          using k' takes by (intro exI [of _ k']) simp
      qed
    qed (use "1.prems" unf False in \<open>auto intro!: exI [of _ sent]\<close>)
  qed
qed

lemma transmit_unfold:
  assumes "ByteSize C (writeMessageHeader m) < MAX_HEADER_LENGTH"
  shows "transmitMessage C (Some m) d =
     (case writeNBytesToSocket (word_of_nat (ByteSize C (writeMessageHeader m)) # enc C (writeMessageHeader m))
             (int (ByteSize C (writeMessageHeader m)) + 1) d of
        (False, d1) \<Rightarrow> (Inr False, d1)
      | (True, d1) \<Rightarrow>
          (case writeNBytesToSocket (payload_bytes m) (getMessageLength m) d1 of
             (ok, d2) \<Rightarrow> (Inr ok, d2)))"
  using assms
  by (auto simp: transmitMessage_def transmitMessageHeader_def transmitMessagePayload_def bindE_def
      Let_def split: prod.splits)

lemma writeN_prefix:
  assumes "0 \<le> N" "nat N \<le> length buffer" "writeNBytesToSocket buffer N d = (ok, d')"
  shows "\<exists>k s'. k \<le> nat N \<and> d' = d\<lparr> d_out := d_out d @ take k buffer, d_sends := s' \<rparr> \<and>
           (ok \<longrightarrow> k = nat N)"
proof -
  obtain out' s' where w: "write_loop N buffer 0 0 (d_out d, d_sends d) = (ok, out', s')"
      "d' = d\<lparr> d_out := out', d_sends := s' \<rparr>"
    using assms(3) by (auto simp: writeNBytesToSocket_def split: prod.splits)
  obtain k where "0 \<le> k" "k \<le> N" "out' = d_out d @ take (nat k) buffer" "ok \<longrightarrow> k = N"
    using write_loop_prefix [of 0 N buffer, OF _ assms(1,2) w(1)] by auto
  then show ?thesis
    using w(2) by (intro exI [of _ "nat k"] exI [of _ s']) auto
qed

lemma write_loop_done: "write_loop N buffer N turn (out, script) = (True, out, script)"
  by (subst write_loop.simps) simp

lemma writeN_healthy:
  assumes "0 \<le> N" "length buffer = nat N" "d_sends d = []"
  shows "writeNBytesToSocket buffer N d = (True, d\<lparr> d_out := d_out d @ buffer \<rparr>)"
proof (cases "N = 0")
  case True
  then show ?thesis
    using assms by (simp add: writeNBytesToSocket_def write_loop_done)
next
  case False
  have rest: "memcpy_read (nat (N - 0)) (drop (nat 0) buffer) = buffer" "int (length buffer) = N"
    using assms(1) by (simp_all add: assms(2) flip: assms(2))
      (simp add: assms(2))
  have "write_loop N buffer 0 0 (d_out d, []) = (True, d_out d @ buffer, [])"
    using False assms(1) rest(2)
    by (subst write_loop.simps) (simp only: rest(1) Let_def list.case send_event.case, simp add: write_loop_done)
  then show ?thesis
    using assms by (simp add: writeNBytesToSocket_def)
qed

lemma transmit_healthy:
  assumes "framable C m" "d_sends d = []"
  shows "transmitMessage C (Some m) d = (Inr True, d\<lparr> d_out := d_out d @ wire_bytes C m \<rparr>)"
proof -
  have "ByteSize C (writeMessageHeader m) < MAX_HEADER_LENGTH"
    "length (payload_bytes m) = nat (getMessageLength m)" "0 \<le> getMessageLength m"
    using assms(1) by (auto simp: framable_def message_wf_payload_length)
  then show ?thesis
    using assms(2)
    by (simp add: transmit_unfold writeN_healthy ByteSize_def wire_bytes_def nat_add_distrib)
qed

section \<open>The send queue as an interface\<close>

lemma pushMessageToQueue_queue [simp]:
  "d_messageQueue (pushMessageToQueue m d) =
     (if isUrgent m then m # d_messageQueue d else d_messageQueue d @ [m])"
  by (simp add: pushMessageToQueue_def Let_def)

lemma notify_queue [simp]: "d_messageQueue (notifyMessagesAvailable d) = d_messageQueue d"
  by (simp add: notifyMessagesAvailable_def)

interpretation sq: send_queue pushMessageToQueue popMessageFromQueue d_messageQueue isUrgent
  by unfold_locales (auto simp: popMessageFromQueue_def)

text \<open>An interleaving of producers (\<^const>\<open>Some\<close>: a push) and the sender (\<^const>\<open>None\<close>: a pop) on the
  dispatcher's queue; the result lists what the sender popped.\<close>

fun run_queue_ops :: "protocol_message option list \<Rightarrow> dispatcher \<Rightarrow> protocol_message list \<times> dispatcher" where
  "run_queue_ops [] d = ([], d)"
| "run_queue_ops (Some m # cmds) d = run_queue_ops cmds (pushMessageToQueue m d)"
| "run_queue_ops (None # cmds) d =
     (case popMessageFromQueue d of (mo, d') \<Rightarrow>
        (case run_queue_ops cmds d' of (ms, d'') \<Rightarrow>
           ((case mo of None \<Rightarrow> ms | Some m \<Rightarrow> m # ms), d'')))"

lemma run_queue_ops_eq: "run_queue_ops cmds d = sq.run_queue cmds d"
  by (induction cmds d rule: run_queue_ops.induct) (auto split: prod.splits)

section \<open>Passes of the sender\<close>

lemma checkSequence_sel [simp]:
  "d_sends (checkSequence msg d) = d_sends d" "d_out (checkSequence msg d) = d_out d"
  "d_messageQueue (checkSequence msg d) = d_messageQueue d" "d_in (checkSequence msg d) = d_in d"
  "d_messagesAvailable (checkSequence msg d) = d_messagesAvailable d"
  "d_senderRunning (checkSequence msg d) = d_senderRunning d"
  "d_metaDataQueue (checkSequence msg d) = d_metaDataQueue d"
  by (auto simp: checkSequence_def Let_def split: option.splits)

text \<open>A pass over a healthy socket puts the frame of the front message on the wire.\<close>

lemma sender_pass_healthy:
  assumes "d_messageQueue d = m # ms" "framable C m" "d_sends d = []" "d_messagesAvailable d"
  shows "\<exists>d'. sender_pass C r d = (Inr (0, False), d') \<and> d_messageQueue d' = ms \<and> d_sends d' = [] \<and>
           d_out d' = d_out d @ wire_bytes C m \<and> d_messagesAvailable d' = (ms \<noteq> []) \<and>
           d_senderRunning d' = d_senderRunning d \<and> d_metaDataQueue d' = d_metaDataQueue d"
  using assms
  by (simp add: sender_pass_def popMessageFromQueue_def bindE_def transmit_healthy
      updateMessageAvailableFlag_def Let_def)

lemma run_sender_healthy:
  assumes "\<forall>m \<in> set ms. framable C m" "d_messageQueue d = ms" "d_sends d = []"
    and "d_messagesAvailable d = (ms \<noteq> [])" "length ms \<le> rounds" "r < maxRetries"
  shows "\<exists>r' d'. runSenderActivity C r rounds d = (Inr r', d') \<and> d_messageQueue d' = [] \<and>
           d_out d' = d_out d @ concat (List.map (wire_bytes C) ms) \<and> \<not> d_messagesAvailable d' \<and>
           d_senderRunning d' = d_senderRunning d \<and> d_metaDataQueue d' = d_metaDataQueue d"
  using assms
proof (induction ms arbitrary: d rounds r)
  case Nil
  then show ?case
    by (cases rounds) auto
next
  case (Cons m ms)
  obtain rounds' where rounds: "rounds = Suc rounds'" "length ms \<le> rounds'"
    using Cons.prems(5) by (cases rounds) auto
  obtain d1 where d1: "sender_pass C r d = (Inr (0, False), d1)" "d_messageQueue d1 = ms"
      "d_sends d1 = []" "d_out d1 = d_out d @ wire_bytes C m" "d_messagesAvailable d1 = (ms \<noteq> [])"
      "d_senderRunning d1 = d_senderRunning d" "d_metaDataQueue d1 = d_metaDataQueue d"
    using sender_pass_healthy [of d m ms C r] Cons.prems by auto
  show ?case
    using Cons.IH [of d1 rounds' 0] Cons.prems d1 rounds by (auto simp: bindE_def)
qed

text \<open>Fewer rounds send as many messages of the front of the queue.\<close>

lemma run_sender_rounds:
  assumes "\<forall>m \<in> set (d_messageQueue d). framable C m" "d_sends d = []"
    and "d_messagesAvailable d = (d_messageQueue d \<noteq> [])"
  shows "\<exists>r' d'. runSenderActivity C r rounds d = (Inr r', d') \<and> d_messageQueue d' = drop rounds (d_messageQueue d) \<and>
           d_out d' = d_out d @ concat (List.map (wire_bytes C) (take rounds (d_messageQueue d))) \<and> d_sends d' = [] \<and>
           d_messagesAvailable d' = (d_messageQueue d' \<noteq> []) \<and> d_senderRunning d' = d_senderRunning d"
  using assms
proof (induction rounds arbitrary: d r)
  case 0
  then show ?case
    by simp
next
  case (Suc rounds)
  show ?case
  proof (cases "d_messageQueue d")
    case Nil
    then show ?thesis
      using Suc.prems by simp
  next
    case (Cons m ms)
    obtain d1 where d1: "sender_pass C r d = (Inr (0, False), d1)" "d_messageQueue d1 = ms"
        "d_sends d1 = []" "d_out d1 = d_out d @ wire_bytes C m" "d_messagesAvailable d1 = (ms \<noteq> [])"
        "d_senderRunning d1 = d_senderRunning d"
      using sender_pass_healthy [of d m ms C r] Cons Suc.prems by auto
    show ?thesis
      using Suc.IH [of d1 0] Suc.prems d1 Cons by (auto simp: bindE_def)
  qed
qed

text \<open>A pass whose first write raises drops the message and counts.\<close>

lemma sender_pass_fails:
  assumes "d_messageQueue d = m # ms" "d_sends d = SendException # sends"
    and "ByteSize C (writeMessageHeader m) < MAX_HEADER_LENGTH"
  shows "\<exists>d'. sender_pass C r d =
             (Inr (if r + 1 = maxRetries then (0, True) else (r + 1, False)), d') \<and>
           d_messageQueue d' = ms \<and> d_sends d' = sends \<and> d_out d' = d_out d \<and>
           d_messagesAvailable d' = (d_messagesAvailable d \<and> ms \<noteq> []) \<and>
           d_senderRunning d' = d_senderRunning d \<and>
           d_metaDataQueue d' = d_metaDataQueue d @
             (if r + 1 = maxRetries then [NTFY_SOCKET_CONNECTION_CLOSED_BY_HOST] else [])"
proof -
  have w: "writeNBytesToSocket buf (int n + 1) d' = (False, d'\<lparr> d_sends := sends \<rparr>)"
    if "d_sends d' = SendException # sends" for buf n d'
    unfolding writeNBytesToSocket_def using that by (subst write_loop.simps) (simp add: Let_def)
  show ?thesis
    using assms
    by (auto simp: sender_pass_def popMessageFromQueue_def bindE_def thenE_def transmit_unfold w
        updateMessageAvailableFlag_def enqueueNotification_def Let_def)
qed

lemma run_sender_fails:
  assumes "length ms = n" "n \<le> maxRetries - r" "r < maxRetries" "0 < n"
    and "\<forall>m \<in> set ms. ByteSize C (writeMessageHeader m) < MAX_HEADER_LENGTH"
    and "d_messageQueue d = ms @ rest" "d_sends d = replicate n SendException @ sends"
    and "d_messagesAvailable d"
  shows "\<exists>d'. runSenderActivity C r n d = (Inr (if r + n = maxRetries then 0 else r + n), d') \<and>
           d_messageQueue d' = rest \<and> d_out d' = d_out d \<and>
           d_senderRunning d' = (d_senderRunning d \<and> r + n \<noteq> maxRetries) \<and>
           d_metaDataQueue d' = d_metaDataQueue d @
             (if r + n = maxRetries then [NTFY_SOCKET_CONNECTION_CLOSED_BY_HOST] else [])"
  using assms
proof (induction n arbitrary: ms d r)
  case (Suc n)
  obtain m ms' where ms: "ms = m # ms'" "length ms' = n"
    using Suc.prems(1) by (cases ms) auto
  obtain d1 where d1: "sender_pass C r d =
             (Inr (if r + 1 = maxRetries then (0, True) else (r + 1, False)), d1)"
           "d_messageQueue d1 = ms' @ rest" "d_sends d1 = replicate n SendException @ sends"
           "d_out d1 = d_out d" "d_messagesAvailable d1 = (d_messagesAvailable d \<and> ms' @ rest \<noteq> [])"
           "d_senderRunning d1 = d_senderRunning d"
           "d_metaDataQueue d1 = d_metaDataQueue d @
             (if r + 1 = maxRetries then [NTFY_SOCKET_CONNECTION_CLOSED_BY_HOST] else [])"
    using sender_pass_fails [of d m "ms' @ rest" "replicate n SendException @ sends" C r] Suc.prems ms
    by auto
  show ?case
  proof (cases "n = 0")
    case True
    then show ?thesis
      using d1 ms Suc.prems by (auto simp: bindE_def thenE_def)
  next
    case False
    then have "r + 1 < maxRetries"
      using Suc.prems by simp
    moreover have "d_messagesAvailable d1"
      using d1(5) Suc.prems ms False by auto
    ultimately show ?thesis
      using Suc.IH [of ms' "r + 1" d1] Suc.prems ms d1 False by (auto simp: bindE_def)
  qed
qed simp

lemma sample_message_framable:
  assumes "0 \<le> ty" "ty < 256" "length payload < 256" "ts \<noteq> 0" "ts < 256"
  shows "framable sample_codec (sample_message ty payload ts)"
  using sample_message_recordable [OF assms, of False 0 id]
  by (simp add: framable_def recordable_def)

section \<open>Properties\<close>

text \<open>The receiver on a stream of whole frames.\<close>

lemma run_receiver:
  assumes "\<forall>m \<in> set ms. framable C m" "concat cs = concat (List.map (wire_bytes C) ms)" "[] \<notin> set cs"
    and "d_in peer = chunks cs"
  shows "\<exists>peer'. runReceiverActivity C env (length ms) peer = (Inr (), peer') \<and>
      d_in peer' = [] \<and> d_metaDataQueue peer' = d_metaDataQueue peer @
        List.map (\<lambda>m. NTFY_NEW_MESSAGE_FROM_HOST_RECEIVED (received env m)) ms"
  using assms
proof (induction ms arbitrary: peer cs)
  case Nil
  then have "cs = []"
    by (cases cs) auto
  then show ?case
    using Nil by simp
next
  case (Cons m ms)
  obtain cs' pb where r: "waitForNextCompleteProtocolMessage C env peer =
      (Inr (Some (received env m), E_ERROR_UNDEFINED),
       peer\<lparr> d_in := chunks cs', d_payloadBuffer := pb \<rparr>)"
      "concat cs' = concat (List.map (wire_bytes C) ms)" "[] \<notin> set cs'"
    using receive_frame [of C m cs "concat (List.map (wire_bytes C) ms)" peer env] Cons.prems by auto
  let ?p1 = "peer\<lparr> d_in := chunks cs', d_payloadBuffer := pb,
      d_metaDataQueue := d_metaDataQueue peer @
        [NTFY_NEW_MESSAGE_FROM_HOST_RECEIVED (received env m)] \<rparr>"
  have "runReceiverActivity C env (length (m # ms)) peer = runReceiverActivity C env (length ms) ?p1"
    using r(1) by (simp add: bindE_def thenE_def enqueueNotification_def)
  then show ?case
    using Cons.IH [of cs' ?p1] Cons.prems(1) r(2,3) by auto
qed

text \<open>C4: Framing round trip. Let the sender drain a queue of messages (valid, header faithful and below
  100 bytes) over a healthy socket: within one pass per message the queue is empty, the flag is down
  and the frames are on the wire, in queue order. However the stream is then cut into non-empty
  chunks on the way, the receiver loop delivers exactly one notification per message, in order, with
  the type, length and payload that were sent, and consumes the stream completely.\<close>

theorem framing_roundtrip:
  assumes "\<forall>m \<in> set ms. framable C m" "d_messageQueue d = ms" "d_sends d = []" "d_out d = []"
    and "d_messagesAvailable d = (ms \<noteq> [])"
    and "concat cs = concat (List.map (wire_bytes C) ms)" "[] \<notin> set cs" "d_in peer = chunks cs"
  shows "(\<exists>r d'. runSenderActivity C 0 (length ms) d = (Inr r, d') \<and> d_messageQueue d' = [] \<and>
            \<not> d_messagesAvailable d' \<and> d_out d' = concat cs) \<and>
         (\<exists>peer'. runReceiverActivity C env (length ms) peer = (Inr (), peer') \<and> d_in peer' = [] \<and>
            d_metaDataQueue peer' = d_metaDataQueue peer @
              List.map (\<lambda>m. NTFY_NEW_MESSAGE_FROM_HOST_RECEIVED (received env m)) ms)"
  using run_sender_healthy [OF assms(1,2,3,5) order_refl, of 0] run_receiver [OF assms(1,6,7,8)] assms(4,6) by auto

definition sample_messages :: "protocol_message list" where
  "sample_messages = [sample_message 2 [7, 8] 9, sample_message 20 [] 10]"

definition sample_wire :: "byte list" where
  "sample_wire = concat (List.map (wire_bytes sample_codec) sample_messages)"

definition sample_sender :: "send_event list \<Rightarrow> dispatcher" where
  "sample_sender sends = (new_CCommMsgDispatcher [] sends [])
     \<lparr> d_messageQueue := sample_messages, d_messagesAvailable := True \<rparr>"

definition sample_peer :: dispatcher where
  "sample_peer = new_CCommMsgDispatcher (chunks (List.map (\<lambda>b. [b]) sample_wire)) [] []"

lemma sample_messages_framable: "\<forall>m \<in> set sample_messages. framable sample_codec m"
  by (simp add: sample_messages_def sample_message_framable)

lemma sample_sender_sel:
  "d_messageQueue (sample_sender s) = sample_messages" "d_sends (sample_sender s) = s"
  "d_out (sample_sender s) = []" "d_messagesAvailable (sample_sender s) = (sample_messages \<noteq> [])"
  "d_senderRunning (sample_sender s)"
  by (simp_all add: sample_sender_def new_CCommMsgDispatcher_def sample_messages_def)

theorem framing_roundtrip_witness:
  "(\<exists>r d'. runSenderActivity sample_codec 0 (length sample_messages) (sample_sender []) = (Inr r, d') \<and>
      d_messageQueue d' = [] \<and> d_out d' = sample_wire) \<and>
   (\<exists>peer'. runReceiverActivity sample_codec sample_msgEnv (length sample_messages) sample_peer
      = (Inr (), peer') \<and> d_in peer' = [] \<and> length (d_metaDataQueue peer') = 2)"
proof -
  let ?cs = "List.map (\<lambda>b. [b]) sample_wire"
  have cs: "concat ?cs = concat (List.map (wire_bytes sample_codec) sample_messages)" "[] \<notin> set ?cs"
    "d_in sample_peer = chunks ?cs" "concat ?cs = sample_wire"
    by (auto simp: sample_peer_def new_CCommMsgDispatcher_def sample_wire_def)
  have "d_metaDataQueue sample_peer = []" "length sample_messages = 2"
    by (simp_all add: sample_peer_def new_CCommMsgDispatcher_def sample_messages_def)
  then show ?thesis
    using framing_roundtrip [OF sample_messages_framable sample_sender_sel(1) sample_sender_sel(2)
        sample_sender_sel(3) sample_sender_sel(4) cs(1,2,3), of sample_msgEnv] cs(4) by auto
qed



text \<open>C20: Order and conservation of the send queue. In any interleaving of pushes and pops on the
  dispatcher's queue, the popped messages and those still queued are together exactly the initial
  and the pushed ones, the non-urgent ones leave in the order they were pushed, and an urgent message
  is the next one to be popped.\<close>

theorem queue_order:
  assumes "run_queue_ops cmds d = (popped, d')"
  shows "mset popped + mset (d_messageQueue d') =
           mset (d_messageQueue d) + mset (List.map_filter id cmds) \<and>
         filter (\<lambda>m. \<not> isUrgent m) (popped @ d_messageQueue d') =
           filter (\<lambda>m. \<not> isUrgent m) (d_messageQueue d @ List.map_filter id cmds) \<and>
         (isUrgent m \<longrightarrow> fst (popMessageFromQueue (pushMessageToQueue m d)) = Some m)"
  using sq.conservation [OF assms [unfolded run_queue_ops_eq]] sq.normal_fifo [OF assms [unfolded run_queue_ops_eq]] sq.urgent_next [of m d] by simp

theorem queue_order_witness:
  "fst (run_queue_ops [Some (sample_message 2 [1] 9), None]
     (new_CCommMsgDispatcher [] [] [])) = [sample_message 2 [1] 9] \<and>
   fst (popMessageFromQueue (pushMessageToQueue ((sample_message 3 [] 8)\<lparr> mIsUrgent := True \<rparr>)
     (new_CCommMsgDispatcher [] [] []))) = Some ((sample_message 3 [] 8)\<lparr> mIsUrgent := True \<rparr>)"
  using queue_order [OF prod.collapse [symmetric], of "[Some (sample_message 2 [1] 9), None]"
      "new_CCommMsgDispatcher [] [] []" "sample_message 2 [1] 9"]
    queue_order [OF prod.collapse [symmetric], of "[]" "new_CCommMsgDispatcher [] [] []"
      "(sample_message 3 [] 8)\<lparr> mIsUrgent := True \<rparr>"]
  by (simp add: new_CCommMsgDispatcher_def popMessageFromQueue_def isUrgent_def sample_message_def
      new_ProtocolMessage_def setupMessageBuffer_def pushMessageToQueue_def Let_def
      split: prod.splits)

text \<open>C24: The sender gives up after exactly 100 consecutive failures. If the writes of \<open>n\<close> queued messages
  in a row raise, each of them is dropped without anything on the wire; the notification that the
  connection is closed is sent, and the activity ended, exactly when the count of failures in a row
  reaches 100, and a message that goes out resets the count.\<close>

theorem sender_gives_up:
  assumes "r < 100" "0 < n" "n \<le> 100 - r" "length ms = n" "d_messageQueue d = ms @ rest"
    and "\<forall>m \<in> set ms. ByteSize C (writeMessageHeader m) < MAX_HEADER_LENGTH"
    and "d_sends d = replicate n SendException" "d_messagesAvailable d" "d_senderRunning d"
  shows "\<exists>r' d'. runSenderActivity C r n d = (Inr r', d') \<and> d_messageQueue d' = rest \<and>
           d_out d' = d_out d \<and> (d_senderRunning d' \<longleftrightarrow> r + n \<noteq> 100) \<and>
           d_metaDataQueue d' = d_metaDataQueue d @
             (if r + n = 100 then [NTFY_SOCKET_CONNECTION_CLOSED_BY_HOST] else []) \<and>
           (r + n < 100 \<longrightarrow> r' = r + n \<and>
              (\<forall>m ms' d2. d_messageQueue d2 = m # ms' \<and> framable C m \<and> d_sends d2 = [] \<and>
                 d_messagesAvailable d2 \<longrightarrow>
                 fst (sender_pass C r' d2) = Inr (0, False)))"
proof -
  obtain d' where "runSenderActivity C r n d = (Inr (if r + n = maxRetries then 0 else r + n), d')"
      "d_messageQueue d' = rest" "d_out d' = d_out d"
      "d_senderRunning d' = (d_senderRunning d \<and> r + n \<noteq> maxRetries)"
      "d_metaDataQueue d' = d_metaDataQueue d @
             (if r + n = maxRetries then [NTFY_SOCKET_CONNECTION_CLOSED_BY_HOST] else [])"
    using run_sender_fails [of ms n r C d rest "[]"] assms by auto
  moreover have "fst (sender_pass C r' d2) = Inr (0, False)"
    if "d_messageQueue d2 = m # ms'" "framable C m" "d_sends d2 = []" "d_messagesAvailable d2"
    for r' m ms' d2
    using sender_pass_healthy [OF that, of r'] by auto
  ultimately show ?thesis
    using assms by (intro exI [of _ "if r + n = maxRetries then 0 else r + n"] exI [of _ d']) auto
qed

definition failing_sender :: dispatcher where
  "failing_sender = (new_CCommMsgDispatcher [] [SendException] [])\<lparr>
        d_messageQueue := [sample_message 2 [1] 9], d_messagesAvailable := True \<rparr>"

lemma failing_sender_sel:
  "d_messageQueue failing_sender = [sample_message 2 [1] 9] @ []" "d_messagesAvailable failing_sender"
  "d_sends failing_sender = replicate 1 SendException" "d_senderRunning failing_sender"
  "d_metaDataQueue failing_sender = []"
  "\<forall>m \<in> set [sample_message 2 [1] 9]. ByteSize sample_codec (writeMessageHeader m) < MAX_HEADER_LENGTH"
  by (simp_all add: failing_sender_def new_CCommMsgDispatcher_def)

theorem sender_gives_up_witness:
  "(\<exists>r' d'. runSenderActivity sample_codec 99 1 failing_sender = (Inr r', d') \<and>
     d_metaDataQueue d' = [NTFY_SOCKET_CONNECTION_CLOSED_BY_HOST] \<and> \<not> d_senderRunning d') \<and>
   (\<exists>d'. runSenderActivity sample_codec 98 1 failing_sender = (Inr 99, d') \<and> d_senderRunning d') \<and>
   fst (sender_pass sample_codec 99 (sample_sender [])) = Inr (0, False)"
proof -
  note fs = failing_sender_sel(1) failing_sender_sel(6) failing_sender_sel(3) failing_sender_sel(2)
    failing_sender_sel(4)
  have "\<exists>m ms'. d_messageQueue (sample_sender []) = m # ms' \<and> framable sample_codec m"
    using sample_messages_framable by (simp add: sample_sender_sel(1)) (simp add: sample_messages_def)
  then show ?thesis
    using sender_gives_up [of 99 1, OF _ _ _ _ fs] sender_gives_up [of 98 1, OF _ _ _ _ fs]
      sample_sender_sel(2,4) [of "[]"] failing_sender_sel(5)
    by (fastforce simp: sample_messages_def)
qed

text \<open>The 100-byte header arrays. Receiving: a length byte above 100 followed by more than 100 bytes
  makes the receiver write past its stack array. Sending: a message whose header takes 100 to 255
  bytes makes the sender write past its array, and one whose header takes 256 bytes or more is never
  sent: it is dropped and counted as a failed transmission.\<close>

theorem header_array_limits:
  assumes "100 < k" "k < 256" "100 < length bs" "length bs \<le> k"
  shows "fst (waitForProtocolMessageHeader C ec (d\<lparr> d_in := [Chunk (word_of_nat k # bs)] \<rparr>))
           = Inl StackOverflow \<and>
         (100 \<le> ByteSize C (writeMessageHeader m) \<and> ByteSize C (writeMessageHeader m) < 256 \<longrightarrow>
            transmitMessage C (Some m) d = (Inl StackOverflow, d)) \<and>
         (256 \<le> ByteSize C (writeMessageHeader m) \<longrightarrow>
            transmitMessage C (Some m) d = (Inr False, d))"
proof -
  have un: "unat (word_of_nat k :: byte) = k"
    using assms(2) by (simp add: unat_of_nat)
  have r1: "read_loop (Suc 0) [] ec [Chunk (word_of_nat k # bs)] = (True, [word_of_nat k], ec, [Chunk bs])"
    using assms(3) by (subst read_loop.simps) (auto simp: Let_def)
  have r2: "\<exists>ok ec' s. read_loop k [] ec [Chunk bs] = (ok, bs, ec', s)"
    using assms by (subst read_loop.simps) (auto simp: Let_def read_loop.simps [of _ bs])
  have "fst (waitForProtocolMessageHeader C ec (d\<lparr> d_in := [Chunk (word_of_nat k # bs)] \<rparr>))
           = Inl StackOverflow"
    using r1 r2 un assms(3)
    by (auto simp: waitForProtocolMessageHeader_def readNBytesFromSocket_def Let_def)
  then show ?thesis
    by (auto simp: transmitMessage_def transmitMessageHeader_def bindE_def Let_def)
qed

definition wide_codec :: "nat \<Rightarrow> codec" where
  "wide_codec n = sample_codec\<lparr> enc := (\<lambda>_. replicate n 0) \<rparr>"

theorem header_array_limits_witness:
  "fst (waitForProtocolMessageHeader (wide_codec 120) E_ERROR_UNDEFINED
      (sample_peer\<lparr> d_in := [Chunk (word_of_nat 200 # replicate 200 0)] \<rparr>)) = Inl StackOverflow \<and>
   transmitMessage (wide_codec 120) (Some (sample_message 2 [7] 9)) sample_peer
     = (Inl StackOverflow, sample_peer) \<and>
   transmitMessage (wide_codec 300) (Some (sample_message 2 [7] 9)) sample_peer
     = (Inr False, sample_peer)"
  using header_array_limits [of 200 "replicate 200 0" "wide_codec 120" E_ERROR_UNDEFINED sample_peer
      "sample_message 2 [7] 9"]
    header_array_limits [of 200 "replicate 200 0" "wide_codec 300" E_ERROR_UNDEFINED sample_peer
      "sample_message 2 [7] 9"]
  by (simp add: ByteSize_def wide_codec_def)

lemma read_loop_head:
  "read_loop (Suc 0) [] ec (Chunk (b # c) # s) = (True, [b], ec, (if c = [] then s else Chunk c # s))"
  by (subst read_loop.simps) (cases c; simp add: Let_def)

lemma read_loop_timeout:
  assumes "length c < N"
  shows "read_loop N [] ec (if c = [] then RecvTimeout # later else Chunk c # RecvTimeout # later)
           = (False, c, E_ERROR_RECEIVE_TIMEOUT, later)"
  using assms by (subst read_loop.simps) (auto simp: Let_def read_loop.simps [of N c])

lemma read_loop_exact:
  assumes "e \<noteq> []"
  shows "read_loop (length e) [] ec (if e @ p = [] then s else Chunk (e @ p) # s)
           = (True, e, ec, (if p = [] then s else Chunk p # s))"
  using assms by (subst read_loop.simps) (auto simp: Let_def)

text \<open>A receive timeout in the middle of a frame loses synchronisation: the bytes of the frame that had
  already arrived are forgotten, no message is delivered, and the next read starts at the rest of the
  same frame as if a new frame began there.\<close>

theorem timeout_desynchronises:
  assumes "framable C m" "0 < k" "k < length (wire_bytes C m)"
    and "d_in d = Chunk (take k (wire_bytes C m)) # RecvTimeout # later"
  shows "\<exists>pb. waitForNextCompleteProtocolMessage C env d =
           (Inr (None, E_ERROR_RECEIVE_TIMEOUT), d\<lparr> d_in := later, d_payloadBuffer := pb \<rparr>)"
proof -
  let ?h = "writeMessageHeader m"
  let ?e = "enc C ?h"
  let ?n = "length ?e"
  have n: "0 < ?n" "?n < 100" "?e \<noteq> []" and dh: "dec C ?e = Some ?h"
    using assms(1) by (auto simp: framable_def codec_on_def ByteSize_def)
  have un: "unat (word_of_nat ?n :: byte) = ?n"
    using n by (simp add: unat_of_nat)
  have pl: "length (payload_bytes m) = nat (getMessageLength m)"
    using assms(1) by (auto simp: framable_def message_wf_payload_length)
  obtain k' where k': "k = Suc k'"
    using assms(2) by (cases k) auto
  have w: "take k (wire_bytes C m) = word_of_nat ?n # take k' (?e @ payload_bytes m)"
    by (simp add: wire_bytes_def ByteSize_def k')
  show ?thesis
  proof (cases "k' < ?n")
    case True
    then have "waitForProtocolMessageHeader C E_ERROR_UNDEFINED d =
        (Inr (None, E_ERROR_RECEIVE_TIMEOUT), d\<lparr> d_in := later \<rparr>)"
      using assms(4) w read_loop_timeout [of "take k' ?e" ?n] un n
      by (simp add: waitForProtocolMessageHeader_def readNBytesFromSocket_def Let_def read_loop_head)
    then show ?thesis
      by (intro exI [of _ "d_payloadBuffer d"])
        (simp add: waitForNextCompleteProtocolMessage_def bindE_def)
  next
    case False
    let ?p = "take (k' - ?n) (payload_bytes m)"
    have c: "take k' (?e @ payload_bytes m) = ?e @ ?p"
      using False by simp
    have lp: "length ?p < nat (getMessageLength m)" "0 < getMessageLength m"
      using assms(3) pl False k' by (auto simp: wire_bytes_def)
    have head: "waitForProtocolMessageHeader C E_ERROR_UNDEFINED d =
        (Inr (Some ?h, E_ERROR_UNDEFINED),
         d\<lparr> d_in := (if ?p = [] then RecvTimeout # later else Chunk ?p # RecvTimeout # later) \<rparr>)"
      using assms(4) w c read_loop_exact [OF n(3), of E_ERROR_UNDEFINED ?p "RecvTimeout # later"] un n dh
      by (simp add: waitForProtocolMessageHeader_def readNBytesFromSocket_def Let_def read_loop_head)
    show ?thesis
      using head lp read_loop_timeout [OF lp(1)]
      by (simp add: waitForNextCompleteProtocolMessage_def bindE_def
          waitForProtocolMessagePayload_def readNBytesFromSocket_def Let_def)
        (blast intro: refl)
  qed
qed

theorem timeout_desynchronises_witness:
  "fst (waitForNextCompleteProtocolMessage sample_codec sample_msgEnv
      (sample_peer\<lparr> d_in := Chunk (take 6 (wire_bytes sample_codec (sample_message 2 [7, 8] 9)))
         # RecvTimeout # chunks [[8]] \<rparr>)) = Inr (None, E_ERROR_RECEIVE_TIMEOUT)"
proof -
  have m: "framable sample_codec (sample_message 2 [7, 8] 9)"
    by (simp add: sample_message_framable)
  have "length (wire_bytes sample_codec (sample_message 2 [7, 8] 9)) = 7"
    using sample_ByteSize [of "writeMessageHeader (sample_message 2 [7, 8] 9)"]
    by (simp add: wire_bytes_def ByteSize_def)
  then show ?thesis
    using timeout_desynchronises [OF m, of 6 "sample_peer\<lparr> d_in :=
        Chunk (take 6 (wire_bytes sample_codec (sample_message 2 [7, 8] 9))) # RecvTimeout # chunks [[8]] \<rparr>"
        "chunks [[8]]" sample_msgEnv] by auto
qed

end
