(* ===== verification/SenderThreads.thy ===== *)
theory SenderThreads
  imports Dispatcher
begin

text \<open>
  The producer threads and the sender thread of the dispatcher as a step relation
  (\<^verbatim>\<open>sendMessage\<close>, \<^verbatim>\<open>runSenderActivity\<close> in
  \<^verbatim>\<open>communicator/src/CMessageDispatcher.cpp\<close>). Each step is one critical section under
  \<^verbatim>\<open>msgQMutex\<close> or a piece of code between two of them: a producer pushes in one step and notifies in a
  later one; the sender wakes and pops, transmits, and updates the flag in three.
\<close>

datatype sender_pc =
    AtWait
  | Popped "protocol_message option"
  | Transmitted
  | Ended

record sender_sys =
  ss_disp :: dispatcher
  ss_pc :: sender_pc
  ss_retries :: nat
  ss_pendingNotify :: nat
  ss_accepted :: "protocol_message list"
  ss_handled :: "protocol_message list"

definition sender_start :: "dispatcher \<Rightarrow> sender_sys" where
  "sender_start d = \<lparr> ss_disp = d, ss_pc = AtWait, ss_retries = 0, ss_pendingNotify = 0,
                      ss_accepted = [], ss_handled = [] \<rparr>"

inductive sender_step :: "codec \<Rightarrow> sender_sys \<Rightarrow> sender_sys \<Rightarrow> bool" for C where
  push: "isValid m \<Longrightarrow> d_senderRunning (ss_disp s) \<Longrightarrow>
    sender_step C s (s\<lparr> ss_disp := pushMessageToQueue m (ss_disp s),
                        ss_pendingNotify := ss_pendingNotify s + 1,
                        ss_accepted := ss_accepted s @ [m] \<rparr>)"
| notify: "0 < ss_pendingNotify s \<Longrightarrow>
    sender_step C s (s\<lparr> ss_disp := notifyMessagesAvailable (ss_disp s),
                        ss_pendingNotify := ss_pendingNotify s - 1 \<rparr>)"
| pop: "ss_pc s = AtWait \<Longrightarrow> d_messagesAvailable (ss_disp s) \<Longrightarrow>
    popMessageFromQueue (ss_disp s) = (mo, d) \<Longrightarrow>
    sender_step C s (s\<lparr> ss_disp := checkSequence mo d, ss_pc := Popped mo \<rparr>)"
| transmit: "ss_pc s = Popped mo \<Longrightarrow> transmitMessage C mo (ss_disp s) = (Inr ok, d) \<Longrightarrow>
    sender_step C s (s\<lparr> ss_disp := d, ss_pc := Transmitted,
                        ss_retries := (if ok then 0 else ss_retries s + 1),
                        ss_handled := ss_handled s @ (case mo of None \<Rightarrow> [] | Some m \<Rightarrow> [m]) \<rparr>)"
| update: "ss_pc s = Transmitted \<Longrightarrow> ss_retries s \<noteq> maxRetries \<Longrightarrow>
    sender_step C s (s\<lparr> ss_disp := updateMessageAvailableFlag (ss_disp s), ss_pc := AtWait \<rparr>)"
| give_up: "ss_pc s = Transmitted \<Longrightarrow> ss_retries s = maxRetries \<Longrightarrow>
    sender_step C s (s\<lparr> ss_disp := (updateMessageAvailableFlag (ss_disp s))
                          \<lparr> d_metaDataQueue := d_metaDataQueue (ss_disp s)
                               @ [NTFY_SOCKET_CONNECTION_CLOSED_BY_HOST],
                            d_senderRunning := False \<rparr>,
                        ss_retries := 0, ss_pc := Ended \<rparr>)"

inductive_cases sender_stepE: "sender_step C s s'"

definition sender_reachable :: "codec \<Rightarrow> dispatcher \<Rightarrow> sender_sys \<Rightarrow> bool" where
  "sender_reachable C d s = (sender_step C)\<^sup>*\<^sup>* (sender_start d) s"

section \<open>The invariant\<close>

text \<open>Queued messages are announced or about to be; every accepted message is handled, in the sender's
  hands, or queued; the retry count stays below the limit except right after a failed transmission.\<close>

definition in_hand :: "sender_sys \<Rightarrow> protocol_message list" where
  "in_hand s = (case ss_pc s of Popped (Some m) \<Rightarrow> [m] | _ \<Rightarrow> [])"

definition sender_inv :: "sender_sys \<Rightarrow> bool" where
  "sender_inv s \<longleftrightarrow>
     (d_messageQueue (ss_disp s) \<noteq> [] \<longrightarrow>
        d_messagesAvailable (ss_disp s) \<or> 0 < ss_pendingNotify s) \<and>
     mset (ss_accepted s) = mset (ss_handled s) + mset (in_hand s) + mset (d_messageQueue (ss_disp s)) \<and>
     filter (\<lambda>m. \<not> isUrgent m) (ss_accepted s) =
       filter (\<lambda>m. \<not> isUrgent m) (ss_handled s @ in_hand s @ d_messageQueue (ss_disp s)) \<and>
     (if ss_pc s = Transmitted then ss_retries s \<le> maxRetries else ss_retries s < maxRetries)"

lemma push_available [simp]:
  "d_messagesAvailable (pushMessageToQueue m d) = d_messagesAvailable d"
  by (simp add: pushMessageToQueue_def Let_def)

lemma notify_available [simp]: "d_messagesAvailable (notifyMessagesAvailable d)"
  by (simp add: notifyMessagesAvailable_def)

lemma write_keeps:
  "writeNBytesToSocket b n d = (ok, d') \<Longrightarrow>
     d_messageQueue d' = d_messageQueue d \<and> d_messagesAvailable d' = d_messagesAvailable d"
  by (auto simp: writeNBytesToSocket_def split: prod.splits)

lemma transmit_keeps:
  assumes "transmitMessage C mo d = (r, d')"
  shows "d_messageQueue d' = d_messageQueue d \<and> d_messagesAvailable d' = d_messagesAvailable d"
proof (cases mo)
  case (Some m)
  have head: "d_messageQueue d1 = d_messageQueue d \<and> d_messagesAvailable d1 = d_messagesAvailable d"
    if "transmitMessageHeader C m d = (x, d1)" for x d1
    using that write_keeps
    by (fastforce simp: transmitMessageHeader_def Let_def split: if_splits prod.splits)
  have pay: "d_messageQueue d2 = d_messageQueue d1 \<and> d_messagesAvailable d2 = d_messagesAvailable d1"
    if "transmitMessagePayload m d1 = (x, d2)" for x d1 d2
    using that write_keeps by (fastforce simp: transmitMessagePayload_def Let_def split: prod.splits)
  show ?thesis
    using assms Some head pay
    by (fastforce simp: transmitMessage_def bindE_def split: prod.splits sum.splits if_splits)
qed (use assms in \<open>simp add: transmitMessage_def\<close>)

lemma sender_inv_start: "d_messageQueue d = [] \<Longrightarrow> sender_inv (sender_start d)"
  by (simp add: sender_inv_def sender_start_def in_hand_def)

lemma sender_inv_step:
  assumes "sender_step C s s'" "sender_inv s"
  shows "sender_inv s'"
  using assms
proof (cases rule: sender_step.cases)
  case (pop mo d)
  then show ?thesis
    using assms(2)
    by (cases "d_messageQueue (ss_disp s)")
      (auto simp: sender_inv_def in_hand_def popMessageFromQueue_def)
next
  case (transmit mo ok d)
  then show ?thesis
    using assms(2) transmit_keeps [OF transmit(3)]
    by (cases mo) (auto simp: sender_inv_def in_hand_def)
qed (auto simp: sender_inv_def in_hand_def updateMessageAvailableFlag_def split: sender_pc.splits)

lemma sender_inv_reachable:
  assumes "sender_reachable C d s" "d_messageQueue d = []"
  shows "sender_inv s"
  using assms(1) unfolding sender_reachable_def
  by (induction rule: rtranclp_induct) (auto intro: sender_inv_start [OF assms(2)] sender_inv_step)

section \<open>Properties\<close>

text \<open>C16: No lost wake-up. In every reachable interleaving of producers and sender, when the sender waits,
  a message is queued and no producer is between its push and its notification, then the flag is up:
  the sender can take its next step, and it takes the front message.\<close>

theorem no_lost_wakeup:
  assumes "sender_reachable C d s" "d_messageQueue d = []"
    and "ss_pc s = AtWait" "d_messageQueue (ss_disp s) = m # ms" "ss_pendingNotify s = 0"
  shows "\<exists>s'. sender_step C s s' \<and> ss_pc s' = Popped (Some m) \<and> d_messageQueue (ss_disp s') = ms"
proof -
  have "d_messagesAvailable (ss_disp s)"
    using sender_inv_reachable [OF assms(1,2)] assms(4,5) by (simp add: sender_inv_def)
  then have "sender_step C s (s\<lparr> ss_disp := checkSequence (Some m) ((ss_disp s)\<lparr> d_messageQueue := ms \<rparr>),
      ss_pc := Popped (Some m) \<rparr>)"
    using assms(3,4) by (intro sender_step.pop) (simp_all add: popMessageFromQueue_def)
  then show ?thesis
    by - (rule exI, rule conjI, assumption, simp)
qed

text \<open>C18: Nothing is lost, duplicated or reordered by the threads. In every reachable interleaving the
  accepted messages are exactly those the sender has handled, the one in its hands and those still
  queued, and the non-urgent ones among them are handled in the order they were accepted.\<close>

theorem sender_conservation:
  assumes "sender_reachable C d s" "d_messageQueue d = []"
  shows "mset (ss_accepted s) =
           mset (ss_handled s) + mset (in_hand s) + mset (d_messageQueue (ss_disp s)) \<and>
         (\<exists>rest. filter (\<lambda>m. \<not> isUrgent m) (ss_accepted s) =
            filter (\<lambda>m. \<not> isUrgent m) (ss_handled s) @ rest)"
  using sender_inv_reachable [OF assms] by (auto simp: sender_inv_def)

definition sample_pushed :: sender_sys where
  "sample_pushed = (sender_start (new_CCommMsgDispatcher [] [] []))
     \<lparr> ss_disp := pushMessageToQueue (sample_message 2 [1] 9) (new_CCommMsgDispatcher [] [] []),
        ss_pendingNotify := 1, ss_accepted := [sample_message 2 [1] 9] \<rparr>"

definition sample_notified :: sender_sys where
  "sample_notified = sample_pushed
     \<lparr> ss_disp := notifyMessagesAvailable (ss_disp sample_pushed), ss_pendingNotify := 0 \<rparr>"

lemma sample_notified_reachable:
  "sender_reachable sample_codec (new_CCommMsgDispatcher [] [] []) sample_notified"
proof -
  let ?s0 = "sender_start (new_CCommMsgDispatcher [] [] [])"
  have "isValid (sample_message 2 [1] 9)" "d_senderRunning (ss_disp ?s0)"
    by (simp_all add: sample_message_def sample_msgEnv_def sender_start_def new_CCommMsgDispatcher_def)
  from sender_step.push [OF this, of sample_codec]
  have "sender_step sample_codec ?s0 sample_pushed"
    by (simp add: sample_pushed_def sender_start_def)
  moreover have "sender_step sample_codec sample_pushed sample_notified"
    using sender_step.notify [of sample_pushed sample_codec]
    by (simp add: sample_notified_def sample_pushed_def)
  ultimately show ?thesis
    by (simp add: sender_reachable_def)
qed

theorem no_lost_wakeup_witness:
  "\<exists>s'. sender_step sample_codec sample_notified s' \<and>
        ss_pc s' = Popped (Some (sample_message 2 [1] 9)) \<and> d_messageQueue (ss_disp s') = []"
proof (rule no_lost_wakeup [OF sample_notified_reachable])
  show "d_messageQueue (ss_disp sample_notified) = [sample_message 2 [1] 9]"
    by (simp add: sample_notified_def sample_pushed_def new_CCommMsgDispatcher_def)
qed (simp_all add: sample_notified_def sample_pushed_def sender_start_def new_CCommMsgDispatcher_def)

theorem sender_conservation_witness:
  "mset (ss_accepted sample_notified) = {# sample_message 2 [1] 9 #} \<and>
   mset (ss_handled sample_notified) + mset (in_hand sample_notified) +
     mset (d_messageQueue (ss_disp sample_notified)) = {# sample_message 2 [1] 9 #}"
  using sender_conservation [OF sample_notified_reachable]
  by (simp add: new_CCommMsgDispatcher_def)
    (simp add: sample_notified_def sample_pushed_def)

end
