(* ===== verification/ComController.thy ===== *)
theory ComController
  imports Dispatcher
begin

text \<open>
  The communication controller (\<^verbatim>\<open>communicator/src/CComController.cpp\<close>) and the life cycle of client
  connections between its event loop and the server thread
  (\<^verbatim>\<open>communicator/src/CComServer.cpp\<close>).

  The controller owns the dispatcher of the current client, if there is one. What it calls in other
  components is the trace \<open>cc_calls\<close>. The plugin manager's
  \<^verbatim>\<open>onHostConnectionEstablished\<close> calls back into \<^verbatim>\<open>sendMessage\<close> with the buffered messages; they are the
  argument \<open>buffered\<close>. The control messages are generated protobuf code: \<open>ctrl_codec\<close>.
\<close>

section \<open>State\<close>

record ctrl_message =
  cm_id :: int
  cm_version :: "(int \<times> int) option"

record ctrl_codec =
  ctrl_enc :: "ctrl_message \<Rightarrow> byte list"
  ctrl_dec :: "byte list \<Rightarrow> ctrl_message option"

abbreviation (input) PROT_HNDLR_CTRL_CMD_GET_VERSION_INFO_ID :: int
  where "PROT_HNDLR_CTRL_CMD_GET_VERSION_INFO_ID \<equiv> 1"
abbreviation (input) PROT_HNDLR_CTRL_CMD_TERMINATE_CONNECTION_ID :: int
  where "PROT_HNDLR_CTRL_CMD_TERMINATE_CONNECTION_ID \<equiv> 2"
abbreviation (input) PROT_HNDLR_CTRL_CMD_HEARTBEAT_REQUEST_MSG_ID :: int
  where "PROT_HNDLR_CTRL_CMD_HEARTBEAT_REQUEST_MSG_ID \<equiv> 3"
abbreviation (input) PROT_HNDLR_CTRL_EVT_HEARTBEAT_RESPONSE_MSG_ID :: int
  where "PROT_HNDLR_CTRL_EVT_HEARTBEAT_RESPONSE_MSG_ID \<equiv> 11"
abbreviation (input) PROT_HNDLR_CTRL_EVT_VERSION_INFO_ID :: int
  where "PROT_HNDLR_CTRL_EVT_VERSION_INFO_ID \<equiv> 20"

datatype com_call =
    EventLoopStart
  | ComServerStart "16 word"
  | ReactorStart
  | ComServerStop
  | ReactorStop
  | PluginManagerMessage protocol_message
  | HostConnectionEstablished
  | HostConnectionLost
  | MessageHandlerClosed dispatcher
  | SignalNextServerRun

datatype com_error = ComNullPointer

record com_controller =
  cc_messageHandler :: "dispatcher option"
  cc_payloadBuffer :: "byte list"
  cc_calls :: "com_call list"

type_synonym 'a com_op = "(com_error, com_controller, 'a) op"

abbreviation PREALLOCATED_MESSAGE_PAYLOAD_BUFFER_SIZE :: nat
  where "PREALLOCATED_MESSAGE_PAYLOAD_BUFFER_SIZE \<equiv> 128"

definition new_ComController :: com_controller where
  "new_ComController = \<lparr> cc_messageHandler = None,
     cc_payloadBuffer = replicate PREALLOCATED_MESSAGE_PAYLOAD_BUFFER_SIZE 0, cc_calls = [] \<rparr>"

definition call :: "com_call list \<Rightarrow> unit com_op" where
  "call cs = modifyE (\<lambda>c. c\<lparr> cc_calls := cc_calls c @ cs \<rparr>)"

section \<open>Operations\<close>

definition start :: "16 word \<Rightarrow> unit com_op" where
  "start streamingPort = call [EventLoopStart, ComServerStart streamingPort, ReactorStart]"

definition stop :: "unit com_op" where
  "stop = (\<lambda>c.
     (case cc_messageHandler c of
        None \<Rightarrow> (Inr (), c)
      | Some d \<Rightarrow> call [ComServerStop, ReactorStop]
                   (c\<lparr> cc_messageHandler := Some (closeConnection d) \<rparr>)))"

definition com_sendMessage :: "protocol_message option \<Rightarrow> unit com_op" where
  "com_sendMessage msg = (\<lambda>c.
     (case msg of
        None \<Rightarrow> (Inr (), c)
      | Some m \<Rightarrow>
          (case cc_messageHandler c of
             None \<Rightarrow> (Inr (), c)
           | Some d \<Rightarrow> (Inr (), c\<lparr> cc_messageHandler := Some (sendMessage m d) \<rparr>))))"

text \<open>\<^verbatim>\<open>messageHandler->sendMessage(msg)\<close> without a test of the pointer.\<close>

definition handler_sendMessage :: "protocol_message \<Rightarrow> unit com_op" where
  "handler_sendMessage m = (\<lambda>c.
     (case cc_messageHandler c of
        None \<Rightarrow> (Inl ComNullPointer, c)
      | Some d \<Rightarrow> (Inr (), c\<lparr> cc_messageHandler := Some (sendMessage m d) \<rparr>)))"

definition adjustMessagePayloadBufferSize :: "int \<Rightarrow> com_controller \<Rightarrow> com_controller" where
  "adjustMessagePayloadBufferSize n c =
     (if n > int (length (cc_payloadBuffer c))
      then c\<lparr> cc_payloadBuffer := replicate (nat n) 0 \<rparr> else c)"

definition sendProtHndlrControlMessageToHost ::
    "ctrl_codec \<Rightarrow> msg_env \<Rightarrow> ctrl_message \<Rightarrow> unit com_op" where
  "sendProtHndlrControlMessageToHost K env ctrlMsg = (\<lambda>c.
     (let bytes = ctrl_enc K ctrlMsg;
          c1 = adjustMessagePayloadBufferSize (int (length bytes)) c;
          buf = bytes @ drop (length bytes) (cc_payloadBuffer c1);
          c2 = c1\<lparr> cc_payloadBuffer := buf \<rparr>;
          reply = new_ProtocolMessage env MSG_TYPE_PROT_HNDLR_CONTROL (int (length bytes)) buf True 0 None
      in handler_sendMessage reply c2))"

definition sendVersionInformation :: "ctrl_codec \<Rightarrow> msg_env \<Rightarrow> unit com_op" where
  "sendVersionInformation K env = sendProtHndlrControlMessageToHost K env
     \<lparr> cm_id = PROT_HNDLR_CTRL_EVT_VERSION_INFO_ID, cm_version = Some (1, 0) \<rparr>"

definition sendHeartbeatResponse :: "ctrl_codec \<Rightarrow> msg_env \<Rightarrow> unit com_op" where
  "sendHeartbeatResponse K env = sendProtHndlrControlMessageToHost K env
     \<lparr> cm_id = PROT_HNDLR_CTRL_EVT_HEARTBEAT_RESPONSE_MSG_ID, cm_version = None \<rparr>"

definition onMessageReceived :: "ctrl_codec \<Rightarrow> msg_env \<Rightarrow> protocol_message \<Rightarrow> unit com_op" where
  "onMessageReceived K env msg =
     (if getMessageType msg \<noteq> MSG_TYPE_PROT_HNDLR_CONTROL then call [PluginManagerMessage msg]
      else (case ctrl_dec K (payload_bytes msg) of
              None \<Rightarrow> returnE ()
            | Some ctrlMsg \<Rightarrow>
                (if cm_id ctrlMsg = PROT_HNDLR_CTRL_CMD_HEARTBEAT_REQUEST_MSG_ID
                 then sendHeartbeatResponse K env else returnE ())))"

definition sendChronographCalibrationTimestampMessage :: "msg_env \<Rightarrow> unit com_op" where
  "sendChronographCalibrationTimestampMessage env =
     handler_sendMessage
       (new_ProtocolMessage env MSG_TYPE_CHRONOGRAPH_CALIBRATION 0 [] True 0 None)"

fun sendMessages :: "protocol_message list \<Rightarrow> unit com_op" where
  "sendMessages [] = returnE ()"
| "sendMessages (m # ms) = thenE (com_sendMessage (Some m)) (sendMessages ms)"

text \<open>\<open>conn\<close> is the dispatcher of the new connection, with the scripts of its socket.\<close>

definition onClientConnected ::
    "msg_env \<Rightarrow> dispatcher \<Rightarrow> protocol_message list \<Rightarrow> unit com_op" where
  "onClientConnected env conn buffered =
     seqE [modifyE (\<lambda>c. c\<lparr> cc_messageHandler := Some conn \<rparr>),
           sendChronographCalibrationTimestampMessage env,
           call [HostConnectionEstablished],
           sendMessages buffered]"

definition oConnectionClosedbyClient :: "unit com_op" where
  "oConnectionClosedbyClient = (\<lambda>c.
     (case cc_messageHandler c of
        None \<Rightarrow> (Inr (), c)
      | Some d \<Rightarrow>
          seqE [call [HostConnectionLost],
                call [MessageHandlerClosed (closeConnection d)],
                modifyE (\<lambda>c. c\<lparr> cc_messageHandler := None \<rparr>),
                call [SignalNextServerRun]] c))"

definition dispatchCommunicatorEvent ::
    "ctrl_codec \<Rightarrow> msg_env \<Rightarrow> dispatcher \<Rightarrow> protocol_message list \<Rightarrow> notification option
       \<Rightarrow> unit com_op" where
  "dispatchCommunicatorEvent K env conn buffered event =
     (case event of
        None \<Rightarrow> returnE ()
      | Some ntfy \<Rightarrow>
          (case ntfy of
             NTFY_NEW_HOST_CONNECTION_ESTABLISHED \<Rightarrow> onClientConnected env conn buffered
           | NTFY_NEW_MESSAGE_FROM_HOST_RECEIVED msg \<Rightarrow> onMessageReceived K env msg
           | NTFY_SOCKET_CONNECTION_CLOSED_BY_HOST \<Rightarrow> oConnectionClosedbyClient
           | _ \<Rightarrow> returnE ()))"

section \<open>Lemmas\<close>

lemma sendMessage_running:
  assumes "d_senderRunning d" "isValid m"
  shows "d_messageQueue (sendMessage m d) =
           (if isUrgent m then m # d_messageQueue d else d_messageQueue d @ [m])"
    and "d_senderRunning (sendMessage m d)" and "d_messagesAvailable (sendMessage m d)"
  using assms
  by (auto simp: sendMessage_def notifyMessagesAvailable_def pushMessageToQueue_def Let_def)

lemma sendMessage_wire:
  "d_sends (sendMessage m d) = d_sends d" "d_out (sendMessage m d) = d_out d"
  "d_messagesAvailable d \<Longrightarrow> d_messagesAvailable (sendMessage m d)"
  by (simp_all add: sendMessage_def notifyMessagesAvailable_def pushMessageToQueue_def Let_def)

lemma sendMessages_normal:
  assumes "cc_messageHandler c = Some d" "d_senderRunning d"
    and "\<forall>m \<in> set ms. isValid m \<and> \<not> isUrgent m"
  shows "\<exists>d'. sendMessages ms c = (Inr (), c\<lparr> cc_messageHandler := Some d' \<rparr>) \<and>
           d_messageQueue d' = d_messageQueue d @ ms \<and> d_senderRunning d' \<and>
           d_sends d' = d_sends d \<and> d_out d' = d_out d \<and> (d_messagesAvailable d \<longrightarrow> d_messagesAvailable d')"
  using assms
proof (induction ms arbitrary: c d)
  case Nil
  then show ?case
    by (intro exI [of _ d]) simp
next
  case (Cons m ms)
  let ?d1 = "sendMessage m d"
  have q: "d_messageQueue ?d1 = d_messageQueue d @ [m]" "d_senderRunning ?d1"
    using sendMessage_running [of d m] Cons.prems by auto
  show ?case
    using Cons.IH [of "c\<lparr> cc_messageHandler := Some ?d1 \<rparr>" ?d1] Cons.prems q
    by (auto simp: thenE_def bindE_def com_sendMessage_def sendMessage_wire)
qed

lemma chronograph_valid:
  "isValid (new_ProtocolMessage env MSG_TYPE_CHRONOGRAPH_CALIBRATION 0 [] True 0 None)"
  by simp

lemma connected_queue:
  assumes "\<forall>m \<in> set buffered. isValid m \<and> \<not> isUrgent m"
  shows "\<exists>c' d'. onClientConnected env (new_CCommMsgDispatcher inp sends []) buffered c = (Inr (), c') \<and>
           cc_messageHandler c' = Some d' \<and>
           d_messageQueue d' =
             new_ProtocolMessage env MSG_TYPE_CHRONOGRAPH_CALIBRATION 0 [] True 0 None # buffered \<and>
           cc_calls c' = cc_calls c @ [HostConnectionEstablished] \<and>
           d_sends d' = sends \<and> d_out d' = [] \<and> d_messagesAvailable d' \<and> d_senderRunning d'"
proof -
  let ?chrono = "new_ProtocolMessage env MSG_TYPE_CHRONOGRAPH_CALIBRATION 0 [] True 0 None"
  let ?d1 = "sendMessage ?chrono (new_CCommMsgDispatcher inp sends [])"
  have d1: "d_messageQueue ?d1 = [?chrono]" "d_senderRunning ?d1" "d_messagesAvailable ?d1"
    "d_sends ?d1 = sends" "d_out ?d1 = []"
    using sendMessage_running [of "new_CCommMsgDispatcher inp sends []" ?chrono]
    by (simp_all add: new_CCommMsgDispatcher_def sendMessage_wire)
  let ?c1 = "c\<lparr> cc_messageHandler := Some ?d1, cc_calls := cc_calls c @ [HostConnectionEstablished] \<rparr>"
  obtain d' where "sendMessages buffered ?c1 = (Inr (), ?c1\<lparr> cc_messageHandler := Some d' \<rparr>)"
      "d_messageQueue d' = [?chrono] @ buffered" "d_sends d' = sends" "d_out d' = []" "d_messagesAvailable d'"
      "d_senderRunning d'"
    using sendMessages_normal [of ?c1 ?d1 buffered] d1 assms by auto
  then show ?thesis
    by (simp add: onClientConnected_def thenE_def bindE_def call_def handler_sendMessage_def
        sendChronographCalibrationTimestampMessage_def)
qed

section \<open>Properties\<close>

text \<open>A new client first gets the chronograph calibration message (urgent, empty, of type 99) and then
  everything that was buffered, in its order: after \<^verbatim>\<open>onClientConnected\<close> the send queue of the fresh
  connection is exactly that, and the plugin manager has been told once.\<close>

theorem client_connected_queue:
  assumes "\<forall>m \<in> set buffered. isValid m \<and> \<not> isUrgent m"
  shows "\<exists>c' d'. onClientConnected env (new_CCommMsgDispatcher inp sends []) buffered c = (Inr (), c') \<and>
           cc_messageHandler c' = Some d' \<and>
           d_messageQueue d' =
             new_ProtocolMessage env MSG_TYPE_CHRONOGRAPH_CALIBRATION 0 [] True 0 None # buffered \<and>
           cc_calls c' = cc_calls c @ [HostConnectionEstablished]"
  using connected_queue [OF assms, of env inp sends c] by blast

theorem client_connected_queue_witness:
  "\<exists>c' d'. onClientConnected sample_msgEnv (new_CCommMsgDispatcher [] [] []) [sample_message 2 [1] 9]
       new_ComController = (Inr (), c') \<and> cc_messageHandler c' = Some d' \<and>
     List.map getMessageType (d_messageQueue d') = [99, 2]"
  using client_connected_queue [of "[sample_message 2 [1] 9]" sample_msgEnv "[]" "[]" new_ComController]
  by (fastforce simp: sample_message_def sample_msgEnv_def new_ProtocolMessage_valid_sel)

text \<open>Messages from the client. A message that is not a control message goes to the plugin manager,
  once, and the send queue is untouched. A heartbeat request is answered with one urgent control
  message carrying the heartbeat response, put in front of the queue, and no plugin sees it; every
  other control message, and one that does not parse, has no effect.\<close>

theorem client_message_handling:
  assumes "cc_messageHandler c = Some d" "d_senderRunning d"
    and "\<And>n. e_alloc env n"
  shows "(getMessageType msg \<noteq> MSG_TYPE_PROT_HNDLR_CONTROL \<longrightarrow>
            onMessageReceived K env msg c =
              (Inr (), c\<lparr> cc_calls := cc_calls c @ [PluginManagerMessage msg] \<rparr>)) \<and>
         (getMessageType msg = MSG_TYPE_PROT_HNDLR_CONTROL \<longrightarrow>
            (case ctrl_dec K (payload_bytes msg) of
               Some cm \<Rightarrow>
                 (if cm_id cm = PROT_HNDLR_CTRL_CMD_HEARTBEAT_REQUEST_MSG_ID then
                    (\<exists>c' d' r. onMessageReceived K env msg c = (Inr (), c') \<and>
                       cc_messageHandler c' = Some d' \<and> cc_calls c' = cc_calls c \<and>
                       d_messageQueue d' = r # d_messageQueue d \<and> d_messagesAvailable d' \<and>
                       isUrgent r \<and> getMessageType r = MSG_TYPE_PROT_HNDLR_CONTROL \<and>
                       payload_bytes r = ctrl_enc K \<lparr> cm_id =
                         PROT_HNDLR_CTRL_EVT_HEARTBEAT_RESPONSE_MSG_ID, cm_version = None \<rparr>)
                  else onMessageReceived K env msg c = (Inr (), c))
             | None \<Rightarrow> onMessageReceived K env msg c = (Inr (), c)))"
proof -
  let ?bytes = "ctrl_enc K \<lparr> cm_id = PROT_HNDLR_CTRL_EVT_HEARTBEAT_RESPONSE_MSG_ID, cm_version = None \<rparr>"
  let ?c1 = "adjustMessagePayloadBufferSize (int (length ?bytes)) c"
  let ?buf = "?bytes @ drop (length ?bytes) (cc_payloadBuffer ?c1)"
  let ?r = "new_ProtocolMessage env MSG_TYPE_PROT_HNDLR_CONTROL (int (length ?bytes)) ?buf True 0 None"
  have sel: "cc_messageHandler ?c1 = Some d" "cc_calls ?c1 = cc_calls c"
    using assms(1) by (simp_all add: adjustMessagePayloadBufferSize_def)
  have r: "isValid ?r" "isUrgent ?r" "getMessageType ?r = MSG_TYPE_PROT_HNDLR_CONTROL"
    "payload_bytes ?r = ?bytes"
    using assms(3) by (simp_all add: new_ProtocolMessage_valid_sel payload_bytes_def)
  have "sendHeartbeatResponse K env c =
      (Inr (), ?c1\<lparr> cc_payloadBuffer := ?buf, cc_messageHandler := Some (sendMessage ?r d) \<rparr>)"
    using sel by (simp add: sendHeartbeatResponse_def sendProtHndlrControlMessageToHost_def Let_def
        handler_sendMessage_def)
  then have "\<exists>c' d' r. sendHeartbeatResponse K env c = (Inr (), c') \<and>
       cc_messageHandler c' = Some d' \<and> cc_calls c' = cc_calls c \<and>
       d_messageQueue d' = r # d_messageQueue d \<and> d_messagesAvailable d' \<and> isUrgent r \<and>
       getMessageType r = MSG_TYPE_PROT_HNDLR_CONTROL \<and> payload_bytes r = ?bytes"
    using sendMessage_running [OF assms(2) r(1)] r sel by auto
  then show ?thesis
    by (auto simp: onMessageReceived_def call_def split: option.splits)
qed

text \<open>Without a client a heartbeat request (it can arrive through the command and control port, or be
  queued behind the notification that closed the connection) makes the controller dereference the
  null message handler; closing twice, in contrast, is harmless.\<close>

theorem heartbeat_without_client:
  assumes "cc_messageHandler c = None" "getMessageType msg = MSG_TYPE_PROT_HNDLR_CONTROL"
    and "ctrl_dec K (payload_bytes msg) = Some cm"
    and "cm_id cm = PROT_HNDLR_CTRL_CMD_HEARTBEAT_REQUEST_MSG_ID"
  shows "fst (onMessageReceived K env msg c) = Inl ComNullPointer \<and>
         oConnectionClosedbyClient c = (Inr (), c)"
  using assms
  by (simp add: onMessageReceived_def sendHeartbeatResponse_def sendProtHndlrControlMessageToHost_def
      Let_def handler_sendMessage_def adjustMessagePayloadBufferSize_def oConnectionClosedbyClient_def)

definition sample_ctrl :: ctrl_codec where
  "sample_ctrl = \<lparr> ctrl_enc = (\<lambda>m. [word_of_int (cm_id m)]),
     ctrl_dec = (\<lambda>bs. case bs of [b] \<Rightarrow> Some \<lparr> cm_id = uint b, cm_version = None \<rparr> | _ \<Rightarrow> None) \<rparr>"

theorem client_message_handling_witness:
  "\<exists>c' d' r. onMessageReceived sample_ctrl sample_msgEnv (sample_message 3 [3] 9)
       (new_ComController\<lparr> cc_messageHandler := Some (new_CCommMsgDispatcher [] [] []) \<rparr>) = (Inr (), c') \<and>
     cc_messageHandler c' = Some d' \<and> d_messageQueue d' = [r] \<and> payload_bytes r = [11]"
  using client_message_handling
    [of "new_ComController\<lparr> cc_messageHandler := Some (new_CCommMsgDispatcher [] [] []) \<rparr>"
      "new_CCommMsgDispatcher [] [] []" sample_msgEnv "sample_message 3 [3] 9" sample_ctrl]
  by (fastforce simp: new_CCommMsgDispatcher_def sample_msgEnv_def sample_ctrl_def)

theorem heartbeat_without_client_witness:
  "fst (onMessageReceived sample_ctrl sample_msgEnv (sample_message 3 [3] 9) new_ComController)
     = Inl ComNullPointer"
  using heartbeat_without_client [of new_ComController "sample_message 3 [3] 9" sample_ctrl]
  by (simp add: new_ComController_def sample_ctrl_def)

end
