(* ===== verification/ConnectionLifecycle.thy ===== *)
theory ConnectionLifecycle
  imports ComController
begin

text \<open>
  The life cycle of client connections as a step relation over three threads: the server thread of
  \<^verbatim>\<open>communicator/src/CComServer.cpp\<close> (accept, notify, wait), the event loop of
  \<^verbatim>\<open>communicator/src/CComController.cpp\<close>, and the two activities of the dispatcher of the current
  client, each of which may report once that the connection is closed.

  Connections are numbered. The number in a notification and in the handler is not in the code: it is
  there to say which connection a notification was about. \<^verbatim>\<open>closeConnection\<close> waits for both activities
  of the dispatcher to end, so neither reports after it.
\<close>

datatype conn_ntfy = New nat | Closed nat

datatype server_pc =
    Accepting
  | Notifying
  | EnteringWait
  | Waiting

record conn_sys =
  cs_pc :: server_pc
  cs_predicate :: bool
  cs_current :: nat
  cs_queue :: "conn_ntfy list"
  cs_handler :: "nat option"
  cs_receiverAlive :: bool
  cs_senderAlive :: bool

definition conn_start :: conn_sys where
  "conn_start = \<lparr> cs_pc = Accepting, cs_predicate = False, cs_current = 0, cs_queue = [],
     cs_handler = None, cs_receiverAlive = False, cs_senderAlive = False \<rparr>"

text \<open>\<^verbatim>\<open>notifyNewHostConnection\<close>, the two halves of \<^verbatim>\<open>waitForCurrentConnectionExpires\<close> and
  \<^verbatim>\<open>wakeUpComServerActivity\<close>.\<close>

definition notifyNewHostConnection :: "conn_sys \<Rightarrow> conn_sys" where
  "notifyNewHostConnection s = s\<lparr> cs_queue := cs_queue s @ [New (cs_current s)], cs_pc := EnteringWait \<rparr>"

definition enterWait :: "conn_sys \<Rightarrow> conn_sys" where
  "enterWait s = s\<lparr> cs_predicate := False, cs_pc := Waiting \<rparr>"

definition wakeUpComServerActivity :: "conn_sys \<Rightarrow> conn_sys" where
  "wakeUpComServerActivity s = s\<lparr> cs_predicate := True \<rparr>"

inductive conn_step :: "conn_sys \<Rightarrow> conn_sys \<Rightarrow> bool" where
  accept: "cs_pc s = Accepting \<Longrightarrow>
    conn_step s (s\<lparr> cs_current := cs_current s + 1, cs_pc := Notifying \<rparr>)"
| notify: "cs_pc s = Notifying \<Longrightarrow> conn_step s (notifyNewHostConnection s)"
| enter_wait: "cs_pc s = EnteringWait \<Longrightarrow> conn_step s (enterWait s)"
| leave_wait: "cs_pc s = Waiting \<Longrightarrow> cs_predicate s \<Longrightarrow> conn_step s (s\<lparr> cs_pc := Accepting \<rparr>)"
| client_connected: "cs_queue s = New k # q \<Longrightarrow>
    conn_step s (s\<lparr> cs_queue := q, cs_handler := Some k,
                    cs_receiverAlive := True, cs_senderAlive := True \<rparr>)"
| receiver_closed: "cs_handler s = Some k \<Longrightarrow> cs_receiverAlive s \<Longrightarrow>
    conn_step s (s\<lparr> cs_queue := cs_queue s @ [Closed k], cs_receiverAlive := False \<rparr>)"
| sender_closed: "cs_handler s = Some k \<Longrightarrow> cs_senderAlive s \<Longrightarrow>
    conn_step s (s\<lparr> cs_queue := cs_queue s @ [Closed k], cs_senderAlive := False \<rparr>)"
| connection_closed: "cs_queue s = Closed j # q \<Longrightarrow> cs_handler s = Some k \<Longrightarrow>
    conn_step s (wakeUpComServerActivity
      (s\<lparr> cs_queue := q, cs_handler := None, cs_receiverAlive := False, cs_senderAlive := False \<rparr>))"
| closed_ignored: "cs_queue s = Closed j # q \<Longrightarrow> cs_handler s = None \<Longrightarrow>
    conn_step s (s\<lparr> cs_queue := q \<rparr>)"

inductive_cases conn_stepE: "conn_step s s'"

definition conn_reachable :: "conn_sys \<Rightarrow> bool" where
  "conn_reachable s = conn_step\<^sup>*\<^sup>* conn_start s"

section \<open>The invariant\<close>

text \<open>The server waits for the current connection to expire and has not been woken yet.\<close>

definition server_blocked :: "conn_sys \<Rightarrow> bool" where
  "server_blocked s \<longleftrightarrow> cs_pc s = EnteringWait \<or> (cs_pc s = Waiting \<and> \<not> cs_predicate s)"

definition all_closed :: "conn_ntfy list \<Rightarrow> bool" where
  "all_closed q \<longleftrightarrow> (\<forall>e \<in> set q. \<exists>j. e = Closed j)"

definition conn_inv :: "conn_sys \<Rightarrow> bool" where
  "conn_inv s \<longleftrightarrow>
     (case cs_handler s of
        Some k \<Rightarrow> k = cs_current s \<and> (\<forall>e \<in> set (cs_queue s). e = Closed k) \<and> server_blocked s
      | None \<Rightarrow> \<not> cs_receiverAlive s \<and> \<not> cs_senderAlive s \<and>
          (all_closed (cs_queue s) \<or>
           (\<exists>old. cs_queue s = old @ [New (cs_current s)] \<and> all_closed old \<and> server_blocked s)))"

lemma conn_inv_start: "conn_inv conn_start"
  by (simp add: conn_inv_def conn_start_def all_closed_def)

lemma conn_inv_step:
  assumes "conn_step s s'" "conn_inv s"
  shows "conn_inv s'"
  using assms
proof (cases rule: conn_step.cases)
  case accept
  then show ?thesis
    using assms(2) by (auto simp: conn_inv_def server_blocked_def split: option.splits)
next
  case notify
  then show ?thesis
    using assms(2)
    by (auto simp: conn_inv_def server_blocked_def notifyNewHostConnection_def split: option.splits)
next
  case enter_wait
  then show ?thesis
    using assms(2) by (auto simp: conn_inv_def server_blocked_def enterWait_def split: option.splits)
next
  case leave_wait
  then show ?thesis
    using assms(2) by (auto simp: conn_inv_def server_blocked_def split: option.splits)
next
  case (client_connected k q)
  then show ?thesis
    using assms(2)
    by (auto simp: conn_inv_def server_blocked_def all_closed_def Cons_eq_append_conv
        split: option.splits)
next
  case (connection_closed j q k)
  then show ?thesis
    using assms(2)
    by (auto simp: conn_inv_def wakeUpComServerActivity_def all_closed_def split: option.splits)
next
  case (closed_ignored j q)
  then show ?thesis
    using assms(2)
    by (auto simp: conn_inv_def all_closed_def server_blocked_def Cons_eq_append_conv
        split: option.splits)
qed (auto simp: conn_inv_def server_blocked_def split: option.splits)

lemma conn_inv_reachable: "conn_reachable s \<Longrightarrow> conn_inv s"
  unfolding conn_reachable_def
  by (induction rule: rtranclp_induct) (auto intro: conn_inv_start conn_inv_step)

section \<open>Properties\<close>

text \<open>C31: At most one client at a time, and a late report never hits the wrong one. In every reachable
  interleaving of server thread, event loop and dispatcher activities: while a client is being
  served the server thread is blocked and no new connection is queued; and when the event loop
  handles the report that a connection is closed while a client is being served, the report is about
  that client. (Both activities of a connection may report; the second report is ignored.)\<close>

theorem one_client_at_a_time:
  assumes "conn_reachable s"
  shows "(cs_handler s = Some k \<longrightarrow>
            server_blocked s \<and> k = cs_current s \<and> (\<forall>j. New j \<notin> set (cs_queue s))) \<and>
         (cs_handler s = Some k \<and> cs_queue s = Closed j # q \<longrightarrow> j = k)"
  using conn_inv_reachable [OF assms] by (auto simp: conn_inv_def)

definition sample_connected :: conn_sys where
  "sample_connected = \<lparr> cs_pc = EnteringWait, cs_predicate = False, cs_current = 1, cs_queue = [],
     cs_handler = Some 1, cs_receiverAlive = True, cs_senderAlive = True \<rparr>"

lemma sample_connected_reachable: "conn_reachable sample_connected"
proof -
  let ?s1 = "conn_start\<lparr> cs_current := 1, cs_pc := Notifying \<rparr>"
  let ?s2 = "notifyNewHostConnection ?s1"
  have "conn_step conn_start ?s1"
    using conn_step.accept [of conn_start] by (simp add: conn_start_def)
  moreover have "conn_step ?s1 ?s2"
    by (rule conn_step.notify) simp
  moreover have "conn_step ?s2 sample_connected"
    using conn_step.client_connected [of ?s2 1 "[]"]
    by (simp add: sample_connected_def conn_start_def notifyNewHostConnection_def)
  ultimately show ?thesis
    unfolding conn_reachable_def by (meson converse_rtranclp_into_rtranclp rtranclp.rtrancl_refl)
qed

theorem one_client_at_a_time_witness:
  "server_blocked sample_connected \<and> cs_current sample_connected = 1"
  using one_client_at_a_time [OF sample_connected_reachable, of 1]
  by (simp add: sample_connected_def)

text \<open>C35: The wake-up of the server can be lost: \<^verbatim>\<open>waitForCurrentConnectionExpires\<close> resets the predicate
  after the new connection has been announced, so when the client is gone again before the server
  thread gets there, the server waits for ever: a state without client, with nothing queued, in which
  no thread can take a step, is reachable.\<close>

theorem server_wakeup_lost:
  "\<exists>s. conn_reachable s \<and> cs_handler s = None \<and> cs_queue s = [] \<and> cs_pc s = Waiting \<and>
       (\<forall>s'. \<not> conn_step s s')"
proof -
  let ?s3 = sample_connected
  let ?s4 = "?s3\<lparr> cs_queue := [Closed 1], cs_receiverAlive := False \<rparr>"
  let ?s5 = "wakeUpComServerActivity
      (?s4\<lparr> cs_queue := [], cs_handler := None, cs_receiverAlive := False, cs_senderAlive := False \<rparr>)"
  let ?s6 = "enterWait ?s5"
  note defs = conn_start_def notifyNewHostConnection_def wakeUpComServerActivity_def enterWait_def
  have "conn_step\<^sup>*\<^sup>* conn_start ?s3"
    using sample_connected_reachable by (simp add: conn_reachable_def)
  moreover have "conn_step ?s3 ?s4"
    using conn_step.receiver_closed [of ?s3 1] by (simp add: sample_connected_def defs)
  moreover have "conn_step ?s4 ?s5"
    using conn_step.connection_closed [of ?s4 1 "[]" 1] by (simp add: sample_connected_def)
  moreover have "conn_step ?s5 ?s6"
    by (rule conn_step.enter_wait) (simp add: sample_connected_def defs)
  ultimately have "conn_reachable ?s6"
    unfolding conn_reachable_def by (meson rtranclp.rtrancl_into_rtrancl)
  moreover have "\<not> conn_step ?s6 s'" for s'
    by (auto simp: sample_connected_def defs elim!: conn_stepE)
  ultimately show ?thesis
    by (intro exI [of _ ?s6]) (simp add: sample_connected_def defs)
qed

end
