(* ===== verification/Scanf.thy ===== *)
theory Scanf
  imports Prelude
begin

text \<open>
  What the code uses of the C library's text scanning and printing: \<^verbatim>\<open>sscanf\<close> with literal
  characters, white space and unsigned numbers, and decimal and two-digit hexadecimal output.
  \<^verbatim>\<open>sscanf\<close> reads a C string: everything up to the first NUL. The printers are the inverse used to
  state what a request looks like.
\<close>

section \<open>Characters\<close>

abbreviation newline :: char where "newline \<equiv> CHR 0x0A"

text \<open>Texts written as lines.\<close>

abbreviation as_lines :: "string list \<Rightarrow> string" where
  "as_lines ls \<equiv> concat (map (\<lambda>l. l @ [newline]) ls)"

definition c_string :: "string \<Rightarrow> string" where
  "c_string s = takeWhile (\<lambda>c. of_char c \<noteq> (0 :: nat)) s"

definition is_space :: "char \<Rightarrow> bool" where
  "is_space c \<longleftrightarrow> of_char c = (32 :: nat) \<or> (9 \<le> (of_char c :: nat) \<and> of_char c \<le> (13 :: nat))"

definition is_digit :: "char \<Rightarrow> bool" where
  "is_digit c \<longleftrightarrow> 48 \<le> (of_char c :: nat) \<and> of_char c \<le> (57 :: nat)"

text \<open>The value of a digit in bases up to 16, if it is one.\<close>

definition digit_value :: "nat \<Rightarrow> char \<Rightarrow> nat option" where
  "digit_value base c =
     (let n = of_char c :: nat;
          v = (if 48 \<le> n \<and> n \<le> 57 then n - 48
               else if 97 \<le> n \<and> n \<le> 102 then n - 87
               else if 65 \<le> n \<and> n \<le> 70 then n - 55 else 99)
      in if v < base then Some v else None)"

text \<open>\<^verbatim>\<open>s.find(pat) != npos\<close>.\<close>

definition contains :: "string \<Rightarrow> string \<Rightarrow> bool" where
  "contains pat s \<longleftrightarrow> (\<exists>i \<in> set [0..<Suc (length s)]. take (length pat) (drop i s) = pat)"

section \<open>Scanning\<close>

fun scan_digits :: "nat \<Rightarrow> nat \<Rightarrow> string \<Rightarrow> nat \<times> string" where
  "scan_digits base acc [] = (acc, [])"
| "scan_digits base acc (c # s) =
     (case digit_value base c of
        None \<Rightarrow> (acc, c # s)
      | Some v \<Rightarrow> scan_digits base (acc * base + v) s)"

text \<open>One unsigned conversion as \<^verbatim>\<open>strtoul\<close> does it: leading white space, a sign, for base 16 an optional
  prefix, and at least one digit.\<close>

definition scan_prefix :: "nat \<Rightarrow> string \<Rightarrow> string" where
  "scan_prefix base s =
     (case s of
        z # x # c # r \<Rightarrow>
          (if base = 16 \<and> z = CHR ''0'' \<and> (x = CHR ''x'' \<or> x = CHR ''X'') \<and> digit_value 16 c \<noteq> None
           then c # r else s)
      | _ \<Rightarrow> s)"

definition scan_unsigned :: "nat \<Rightarrow> string \<Rightarrow> (int \<times> string) option" where
  "scan_unsigned base s0 =
     (let s1 = dropWhile is_space s0;
          (neg, s2) = (case s1 of
                         c # r \<Rightarrow> (if c = CHR ''-'' then (True, r)
                                  else if c = CHR ''+'' then (False, r) else (False, s1))
                       | [] \<Rightarrow> (False, s1));
          s3 = scan_prefix base s2
      in case s3 of
           [] \<Rightarrow> None
         | c # r \<Rightarrow>
             (if digit_value base c = None then None
              else (let (v, rest) = scan_digits base 0 s3 in
                    Some (if neg then - int v else int v, rest))))"

datatype scan_directive = Lit char | White | Unsigned nat

text \<open>The numbers assigned before the first failure, in order; their count is the return value.\<close>

fun sscanf :: "scan_directive list \<Rightarrow> string \<Rightarrow> int list" where
  "sscanf [] s = []"
| "sscanf (White # ds) s = sscanf ds (dropWhile is_space s)"
| "sscanf (Lit c # ds) s = (case s of [] \<Rightarrow> [] | x # r \<Rightarrow> if x = c then sscanf ds r else [])"
| "sscanf (Unsigned b # ds) s =
     (case scan_unsigned b s of None \<Rightarrow> [] | Some (v, r) \<Rightarrow> v # sscanf ds r)"

text \<open>A format's literal text: blanks are white space directives.\<close>

definition literal :: "string \<Rightarrow> scan_directive list" where
  "literal s = List.map (\<lambda>c. if is_space c then White else Lit c) s"

section \<open>Printing\<close>

definition digit_char :: "nat \<Rightarrow> char" where
  "digit_char n = char_of (if n < 10 then 48 + n else 87 + n)"

fun print_decimal :: "nat \<Rightarrow> string" where
  "print_decimal n = (if n < 10 then [digit_char n]
                      else print_decimal (n div 10) @ [digit_char (n mod 10)])"

declare print_decimal.simps [simp del]

definition print_hex2 :: "nat \<Rightarrow> string" where
  "print_hex2 n = [digit_char (n div 16), digit_char (n mod 16)]"

text \<open>Printing and reading C integers.\<close>

definition print_int :: "int \<Rightarrow> string" where
  "print_int i = (if i < 0 then CHR ''-'' # print_decimal (nat (- i)) else print_decimal (nat i))"

definition atoi :: "string \<Rightarrow> int" where
  "atoi s = (case scan_unsigned 10 (c_string s) of None \<Rightarrow> 0 | Some (v, _) \<Rightarrow> v)"

section \<open>Formats with words\<close>

text \<open>The conversions \<^verbatim>\<open>%d\<close> (and its unsigned variants), \<^verbatim>\<open>%[^c]\<close> and \<^verbatim>\<open>%c\<close>; the values assigned before
  the first failure, in order.\<close>

datatype field_directive = FLit char | FWhite | FInt | FNot char | FChar

datatype scanned = SInt int | SText string | SChar char

fun scan_fields :: "field_directive list \<Rightarrow> string \<Rightarrow> scanned list" where
  "scan_fields [] s = []"
| "scan_fields (FWhite # ds) s = scan_fields ds (dropWhile is_space s)"
| "scan_fields (FLit c # ds) s = (case s of [] \<Rightarrow> [] | x # r \<Rightarrow> if x = c then scan_fields ds r else [])"
| "scan_fields (FInt # ds) s =
     (case scan_unsigned 10 s of None \<Rightarrow> [] | Some (v, r) \<Rightarrow> SInt v # scan_fields ds r)"
| "scan_fields (FNot c # ds) s =
     (let t = takeWhile (\<lambda>x. x \<noteq> c) s
      in if t = [] then [] else SText t # scan_fields ds (drop (length t) s))"
| "scan_fields (FChar # ds) s = (case s of [] \<Rightarrow> [] | x # r \<Rightarrow> SChar x # scan_fields ds r)"

section \<open>Scanning what was printed\<close>

lemma of_digit_char: "n < 16 \<Longrightarrow> of_char (digit_char n) = (if n < 10 then 48 + n else 87 + n)"
  by (simp add: digit_char_def)

lemma digit_value_digit_char [simp]: "n < b \<Longrightarrow> b \<le> 16 \<Longrightarrow> digit_value b (digit_char n) = Some n"
  by (simp add: digit_value_def of_digit_char Let_def)

lemma scan_digits_append:
  "\<forall>c \<in> set ds. digit_value b c \<noteq> None \<Longrightarrow>
     scan_digits b acc (ds @ s) = scan_digits b (fst (scan_digits b acc ds)) s"
  by (induction ds arbitrary: acc) (auto split: option.splits)

lemma scan_digits_stop:
  "s = [] \<or> digit_value b (hd s) = None \<Longrightarrow> scan_digits b acc s = (acc, s)"
  by (cases s) auto

lemma print_decimal_digits: "c \<in> set (print_decimal n) \<Longrightarrow> \<exists>k < 10. c = digit_char k"
proof (induction n rule: print_decimal.induct)
  case (1 n)
  then show ?case
    by (cases "n < 10") (auto simp: print_decimal.simps [of n] intro: exI [of _ "n mod 10"])
qed

lemma print_decimal_nonempty [simp]: "print_decimal n \<noteq> []"
  by (simp add: print_decimal.simps)

lemma scan_print_decimal: "fst (scan_digits 10 0 (print_decimal n)) = n"
proof (induction n rule: print_decimal.induct)
  case (1 n)
  show ?case
  proof (cases "n < 10")
    case True
    then show ?thesis
      by (simp add: print_decimal.simps [of n])
  next
    case False
    have "\<forall>c \<in> set (print_decimal (n div 10)). digit_value 10 c \<noteq> None"
      using print_decimal_digits by fastforce
    then show ?thesis
      using 1 False by (simp add: print_decimal.simps [of n] scan_digits_append)
  qed
qed

lemma length_print_decimal: "n < 10 ^ k \<Longrightarrow> 1 \<le> k \<Longrightarrow> length (print_decimal n) \<le> k"
proof (induction n arbitrary: k rule: print_decimal.induct)
  case (1 n)
  show ?case
  proof (cases "n < 10")
    case True
    then show ?thesis
      using "1.prems" by (simp add: print_decimal.simps [of n])
  next
    case False
    have "k \<noteq> 1"
      using False "1.prems" by auto
    then obtain j where j: "k = Suc j" "1 \<le> j"
      using "1.prems"(2) by (cases k) auto
    then show ?thesis
      using 1 False by (simp add: print_decimal.simps [of n] less_mult_imp_div_less mult.commute)
  qed
qed

lemma digit_char_neq:
  assumes "k < 16" "of_char c < (48 :: nat) \<or> (57 < (of_char c :: nat) \<and> of_char c < (97 :: nat)) \<or>
    of_char c > (102 :: nat)"
  shows "digit_char k \<noteq> c"
proof
  assume "digit_char k = c"
  then have "of_char c = (if k < 10 then 48 + k else 87 + k)"
    using of_digit_char [OF assms(1)] by simp
  then show False
    using assms by (auto split: if_splits)
qed

lemma digit_char_not_sign:
  "k < 16 \<Longrightarrow> digit_char k \<noteq> CHR ''-'' \<and> digit_char k \<noteq> CHR ''+'' \<and> \<not> is_space (digit_char k)"
  using digit_char_neq [of k "CHR ''-''"] digit_char_neq [of k "CHR ''+''"]
  by (auto simp: is_space_def of_digit_char)

text \<open>A printed number, followed by nothing or by a character that is no digit, is read back.\<close>

lemma scan_unsigned_decimal:
  assumes "s = [] \<or> digit_value 10 (hd s) = None"
  shows "scan_unsigned 10 (print_decimal n @ s) = Some (int n, s)"
proof -
  obtain c r where cr: "print_decimal n = c # r"
    by (cases "print_decimal n") auto
  obtain k where k: "k < 10" "c = digit_char k"
    using print_decimal_digits [of c n] cr by auto
  have "\<forall>c \<in> set (print_decimal n). digit_value 10 c \<noteq> None"
    using print_decimal_digits by fastforce
  then have sd: "scan_digits 10 0 (print_decimal n @ s) = (n, s)"
    using scan_digits_stop [OF assms] by (simp add: scan_digits_append scan_print_decimal)
  have pre: "scan_prefix 10 t = t" for t
    by (simp add: scan_prefix_def split: list.splits)
  show ?thesis
    using sd k digit_char_not_sign [of k]
    by (simp add: scan_unsigned_def cr pre Let_def)
qed

lemma scan_unsigned_hex2:
  assumes "n < 256" "s = [] \<or> digit_value 16 (hd s) = None"
  shows "scan_unsigned 16 (print_hex2 n @ s) = Some (int n, s)"
proof -
  have d: "n div 16 < 16" "n mod 16 < 16"
    using assms(1) by auto
  have x: "digit_char (n mod 16) \<noteq> CHR ''x''" "digit_char (n mod 16) \<noteq> CHR ''X''"
    using digit_char_neq [of "n mod 16" "CHR ''x''"] digit_char_neq [of "n mod 16" "CHR ''X''"]
    by simp_all
  have pre: "scan_prefix 16 (digit_char (n div 16) # digit_char (n mod 16) # s)
      = digit_char (n div 16) # digit_char (n mod 16) # s"
    using x by (simp add: scan_prefix_def split: list.splits)
  show ?thesis
    using d digit_char_not_sign [of "n div 16"] pre scan_digits_stop [OF assms(2)]
    by (simp add: scan_unsigned_def print_hex2_def Let_def)
qed

lemma sscanf_literal:
  "\<forall>c \<in> set t. \<not> is_space c \<Longrightarrow> sscanf (literal t @ ds) (t @ s) = sscanf ds s"
  by (induction t) (auto simp: literal_def)

lemma c_string_append:
  "\<forall>c \<in> set s. of_char c \<noteq> (0 :: nat) \<Longrightarrow> c_string (s @ t) = s @ c_string t"
  by (simp add: c_string_def)

lemma print_decimal_no_nul: "c \<in> set (print_decimal n) \<Longrightarrow> of_char c \<noteq> (0 :: nat)"
  using print_decimal_digits by (fastforce simp: of_digit_char)

lemma scan_unsigned_int:
  assumes "s = [] \<or> digit_value 10 (hd s) = None"
  shows "scan_unsigned 10 (print_int i @ s) = Some (i, s)"
proof (cases "i < 0")
  case True
  let ?n = "nat (- i)"
  obtain c r where cr: "print_decimal ?n = c # r"
    by (cases "print_decimal ?n") auto
  have "\<forall>c \<in> set (print_decimal ?n). digit_value 10 c \<noteq> None"
    using print_decimal_digits by fastforce
  then have sd: "scan_digits 10 0 (print_decimal ?n @ s) = (?n, s)"
    using scan_digits_stop [OF assms] by (simp add: scan_digits_append scan_print_decimal)
  have d: "digit_value 10 c \<noteq> None"
    using print_decimal_digits [of c ?n] cr by auto
  have pre: "scan_prefix 10 t = t" for t
    by (simp add: scan_prefix_def split: list.splits)
  show ?thesis
    using sd d True cr by (simp add: scan_unsigned_def print_int_def pre Let_def is_space_def)
next
  case False
  then show ?thesis
    using scan_unsigned_decimal [OF assms, of "nat i"] by (simp add: print_int_def)
qed

lemma scan_unsigned_blank: "scan_unsigned 10 (CHR '' '' # s) = scan_unsigned 10 s"
  by (simp add: scan_unsigned_def is_space_def)

text \<open>Numbers, each behind a blank, are read back in order.\<close>

definition blank_ints :: "int list \<Rightarrow> string" where
  "blank_ints is = concat (List.map (\<lambda>i. CHR '' '' # print_int i) is)"

lemma scan_unsigned_dropWhile: "scan_unsigned 10 (dropWhile is_space s) = scan_unsigned 10 s"
proof -
  have "dropWhile is_space (dropWhile is_space s) = dropWhile is_space s"
    by (induction s) auto
  then show ?thesis
    by (simp add: scan_unsigned_def)
qed

lemma scan_blank_ints:
  assumes "s = [] \<or> digit_value 10 (hd s) = None"
  shows "scan_fields (concat (replicate (length is) [FWhite, FInt]) @ ds) (blank_ints is @ s) =
    List.map SInt is @ scan_fields ds s"
proof (induction "is")
  case (Cons i "is")
  have "blank_ints is @ s = [] \<or> digit_value 10 (hd (blank_ints is @ s)) = None"
    using assms by (cases "is") (auto simp: blank_ints_def digit_value_def)
  then show ?case
    using Cons scan_unsigned_int [of "blank_ints is @ s" i]
    by (simp add: blank_ints_def scan_unsigned_blank scan_unsigned_dropWhile del: dropWhile.simps)
qed (simp add: blank_ints_def)

end
