(* ===== verification/CmdCtrlServer.thy ===== *)
theory CmdCtrlServer
  imports Scanf Dispatcher
begin

text \<open>
  The text protocol of the command and control port
  (\<^verbatim>\<open>communicator/src/CommandControlServer.cpp\<close>): two hexadecimal digits with the length of the
  header, a delimiter, the header, a delimiter, the payload.

  The counters are 32-bit unsigned. The buffer is the list of its characters (its length is
  \<^verbatim>\<open>payloadbufferSize\<close>); a write or read beyond it is the error \<open>HeapOverflow\<close>. \<^verbatim>\<open>realloc\<close> succeeds for the
  sizes in \<open>heap\<close>; fresh memory is shown as NUL bytes.
\<close>

section \<open>State\<close>

datatype cmd_error = HeapOverflow

record cmd_server =
  ks_bytesAlreadyReceived :: u32
  ks_totalAmountOfbytes :: u32
  ks_payloadLength :: u32
  ks_headerLength :: u32
  ks_cmdId :: u32
  ks_buffer :: string
  ks_queue :: "notification list"
  ks_deleted :: bool

abbreviation BUFFER_SIZE :: nat where "BUFFER_SIZE \<equiv> 10240"
abbreviation HEADER_LENGTH_SIZE :: u32 where "HEADER_LENGTH_SIZE \<equiv> 2"
abbreviation DELIMITATOR_SIZE :: u32 where "DELIMITATOR_SIZE \<equiv> 1"

type_synonym 'a cmd_op = "(cmd_error, cmd_server, 'a) op"

definition new_CCommanControlServer :: "(nat \<Rightarrow> bool) \<Rightarrow> cmd_server" where
  "new_CCommanControlServer heap =
     \<lparr> ks_bytesAlreadyReceived = 0, ks_totalAmountOfbytes = 0, ks_payloadLength = 0,
       ks_headerLength = 0, ks_cmdId = 0,
       ks_buffer = (if heap BUFFER_SIZE then replicate BUFFER_SIZE (CHR 0x00) else []),
       ks_queue = [], ks_deleted = False \<rparr>"

section \<open>Operations\<close>

definition realloc_buffer :: "(nat \<Rightarrow> bool) \<Rightarrow> nat \<Rightarrow> cmd_server \<Rightarrow> cmd_server" where
  "realloc_buffer heap n k =
     (if heap n
      then k\<lparr> ks_buffer := take n (ks_buffer k) @ replicate (n - length (ks_buffer k)) (CHR 0x00) \<rparr>
      else k)"

definition resetCounters :: "(nat \<Rightarrow> bool) \<Rightarrow> cmd_server \<Rightarrow> cmd_server" where
  "resetCounters heap k =
     realloc_buffer heap BUFFER_SIZE
       (k\<lparr> ks_totalAmountOfbytes := 0, ks_bytesAlreadyReceived := 0, ks_payloadLength := 0,
           ks_headerLength := 0 \<rparr>)"

definition extractHeaderLength :: "cmd_server \<Rightarrow> cmd_server" where
  "extractHeaderLength k =
     (if ks_bytesAlreadyReceived k > HEADER_LENGTH_SIZE \<and> ks_headerLength k = 0 then
        (case sscanf [Unsigned 16] (c_string (ks_buffer k)) of
           [] \<Rightarrow> k
         | v # _ \<Rightarrow> k\<lparr> ks_headerLength := word_of_int v \<rparr>)
      else k)"

definition header_format :: "scan_directive list" where
  "header_format = literal ''length: '' @ [Unsigned 10] @ literal '' type: '' @ [Unsigned 10]
     @ literal '' timestamp: '' @ [Unsigned 10] @ literal '' versionToken: '' @ [Unsigned 10]"

definition extractHeaderContent :: "(nat \<Rightarrow> bool) \<Rightarrow> cmd_server \<Rightarrow> cmd_server" where
  "extractHeaderContent heap k =
     (if ks_bytesAlreadyReceived k > HEADER_LENGTH_SIZE + DELIMITATOR_SIZE + ks_headerLength k
         \<and> ks_payloadLength k = 0 then
        (let reads = sscanf header_format (c_string (drop 3 (ks_buffer k)));
             k1 = (case reads of
                     [] \<Rightarrow> k
                   | [l] \<Rightarrow> k\<lparr> ks_payloadLength := word_of_int l \<rparr>
                   | l # t # _ \<Rightarrow> k\<lparr> ks_payloadLength := word_of_int l, ks_cmdId := word_of_int t \<rparr>);
             k2 = (if length reads < 2 then resetCounters heap k1 else k1);
             total = HEADER_LENGTH_SIZE + DELIMITATOR_SIZE + ks_headerLength k2 + ks_payloadLength k2;
             k3 = k2\<lparr> ks_totalAmountOfbytes := total \<rparr>
         in if unat total > BUFFER_SIZE then realloc_buffer heap (unat total) k3 else k3)
      else k)"

text \<open>The payload starts after a second delimiter, which \<^verbatim>\<open>totalAmountOfbytes\<close> does not count. The length
  goes into an \<^verbatim>\<open>int\<close>; copying reads that many bytes out of the buffer.\<close>

definition dispatchMessage :: "(nat \<Rightarrow> bool) \<Rightarrow> msg_env \<Rightarrow> unit cmd_op" where
  "dispatchMessage heap env = (\<lambda>k.
     (if ks_bytesAlreadyReceived k \<noteq> 0 \<and> ks_bytesAlreadyReceived k \<ge> ks_totalAmountOfbytes k then
        (let off = unat (HEADER_LENGTH_SIZE + 2 * DELIMITATOR_SIZE + ks_headerLength k);
             len = sint (ks_payloadLength k) in
         if len > 0 \<and> off + nat len > length (ks_buffer k) then (Inl HeapOverflow, k)
         else
          (let msg = new_ProtocolMessage env (sint (ks_cmdId k)) len
                       (List.map of_char (drop off (ks_buffer k))) False 0 None
           in (Inr (), resetCounters heap (k\<lparr> ks_queue := ks_queue k
                         @ [NTFY_NEW_MESSAGE_FROM_HOST_RECEIVED msg] \<rparr>))))
      else (Inr (), k)))"

text \<open>One notification that the socket is readable. \<open>avail\<close>: what \<^verbatim>\<open>available()\<close> sees (nothing: the
  connection is gone); \<open>failed\<close>: \<^verbatim>\<open>receiveBytes\<close> returns a negative count. The NUL written behind the
  received bytes falls off the buffer when it is full.\<close>

definition onSocketReadable :: "(nat \<Rightarrow> bool) \<Rightarrow> msg_env \<Rightarrow> bool \<Rightarrow> string \<Rightarrow> unit cmd_op" where
  "onSocketReadable heap env failed avail = (\<lambda>k.
     (if avail = [] then (Inr (), k\<lparr> ks_deleted := True \<rparr>)
      else if failed then (Inr (), resetCounters heap k)
      else
       (let pos = unat (ks_bytesAlreadyReceived k);
            got = take (length (ks_buffer k) - pos) avail in
        case buf_write pos (got @ [CHR 0x00]) (ks_buffer k) of
          None \<Rightarrow> (Inl HeapOverflow, k)
        | Some buf \<Rightarrow>
            dispatchMessage heap env
              (extractHeaderContent heap
                (extractHeaderLength
                  (k\<lparr> ks_buffer := buf,
                      ks_bytesAlreadyReceived :=
                        ks_bytesAlreadyReceived k + word_of_nat (length got) \<rparr>))))))"

section \<open>Requests\<close>

definition request_header :: "nat \<Rightarrow> nat \<Rightarrow> nat \<Rightarrow> nat \<Rightarrow> string" where
  "request_header len ty ts ver =
     ''length: '' @ print_decimal len @ '' type: '' @ print_decimal ty
     @ '' timestamp: '' @ print_decimal ts @ '' versionToken: '' @ print_decimal ver"

definition request :: "nat \<Rightarrow> nat \<Rightarrow> nat \<Rightarrow> char \<Rightarrow> char \<Rightarrow> string \<Rightarrow> string" where
  "request ty ts ver d1 d2 payload =
     (let hdr = request_header (length payload) ty ts ver in
      print_hex2 (length hdr) @ [d1] @ hdr @ [d2] @ payload)"

definition cmd_idle :: "cmd_server \<Rightarrow> bool" where
  "cmd_idle k \<longleftrightarrow> ks_bytesAlreadyReceived k = 0 \<and> ks_totalAmountOfbytes k = 0 \<and>
     ks_payloadLength k = 0 \<and> ks_headerLength k = 0 \<and> length (ks_buffer k) = BUFFER_SIZE"

lemma drop_space_decimal [simp]:
  "dropWhile is_space (print_decimal n @ s) = print_decimal n @ s"
proof -
  obtain c r where cr: "print_decimal n = c # r"
    by (cases "print_decimal n") auto
  then obtain k where "k < 10" "c = digit_char k"
    using print_decimal_digits [of c n] by auto
  then show ?thesis
    using digit_char_not_sign [of k] cr by simp
qed

lemma sscanf_number:
  "s = [] \<or> digit_value 10 (hd s) = None \<Longrightarrow>
     sscanf (Unsigned 10 # ds) (print_decimal n @ s) = int n # sscanf ds s"
  by (simp add: scan_unsigned_decimal)

lemma scan_header:
  assumes "s = [] \<or> digit_value 10 (hd s) = None"
  shows "sscanf header_format (request_header l t ts ver @ s) = [int l, int t, int ts, int ver]"
proof -
  have lit: "sscanf (literal ''length: '' @ ds) (''length: '' @ print_decimal n @ r) =
      sscanf ds (print_decimal n @ r)"
    "sscanf (literal '' type: '' @ ds) ('' type: '' @ print_decimal n @ r) =
      sscanf ds (print_decimal n @ r)"
    "sscanf (literal '' timestamp: '' @ ds) ('' timestamp: '' @ print_decimal n @ r) =
      sscanf ds (print_decimal n @ r)"
    "sscanf (literal '' versionToken: '' @ ds) ('' versionToken: '' @ print_decimal n @ r) =
      sscanf ds (print_decimal n @ r)" for ds n r
    by (simp_all add: literal_def is_space_def)
  have sp: "digit_value 10 (hd ('' type: '' @ r)) = None"
    "digit_value 10 (hd ('' timestamp: '' @ r)) = None"
    "digit_value 10 (hd ('' versionToken: '' @ r)) = None" for r
    by (simp_all add: digit_value_def Let_def)
  have one: "[Unsigned 10] @ ds = Unsigned 10 # ds" for ds
    by simp
  show ?thesis
    unfolding header_format_def request_header_def append_assoc one
    using assms by (simp only: lit sscanf_number sp disj_comms simp_thms) (simp add: sscanf_number)
qed

lemma request_header_no_nul: "\<forall>c \<in> set (request_header l t ts ver). of_char c \<noteq> (0 :: nat)"
  using print_decimal_no_nul by (auto simp: request_header_def)

lemma scan_hex_field:
  assumes "h < 256" "digit_value 16 d1 = None"
  shows "sscanf [Unsigned 16] (c_string (print_hex2 h @ d1 # s)) = [int h]"
proof -
  have "h div 16 < 16" "h mod 16 < 16"
    using assms(1) by auto
  then have "\<forall>c \<in> set (print_hex2 h). of_char c \<noteq> (0 :: nat)"
    by (auto simp: print_hex2_def of_digit_char)
  then have "c_string (print_hex2 h @ d1 # s) = print_hex2 h @ c_string (d1 # s)"
    by (rule c_string_append)
  moreover have "c_string (d1 # s) = [] \<or> digit_value 16 (hd (c_string (d1 # s))) = None"
    using assms(2) by (simp add: c_string_def)
  ultimately show ?thesis
    using scan_unsigned_hex2 [OF assms(1)] by simp
qed

lemma cmd_idle_reset:
  assumes "heap BUFFER_SIZE"
  shows "cmd_idle (resetCounters heap k) \<and> ks_queue (resetCounters heap k) = ks_queue k \<and>
         ks_cmdId (resetCounters heap k) = ks_cmdId k"
  using assms by (simp add: cmd_idle_def resetCounters_def realloc_buffer_def)

lemma dispatch_empty:
  assumes "ks_bytesAlreadyReceived k \<noteq> 0" "ks_totalAmountOfbytes k = 0" "ks_payloadLength k = 0"
    and "heap BUFFER_SIZE"
  shows "\<exists>k'. dispatchMessage heap env k = (Inr (), k') \<and> cmd_idle k' \<and>
           ks_queue k' = ks_queue k @
             [NTFY_NEW_MESSAGE_FROM_HOST_RECEIVED
                (new_ProtocolMessage env (sint (ks_cmdId k)) 0 [] False 0 None)]"
  using assms cmd_idle_reset [of heap]
  by (simp add: dispatchMessage_def Let_def new_ProtocolMessage_def setupMessageBuffer_def)

text \<open>The state just before \<^verbatim>\<open>extractHeaderLength\<close> when the first \<open>n\<close> bytes of a request have arrived.\<close>

definition after_read :: "cmd_server \<Rightarrow> string \<Rightarrow> cmd_server" where
  "after_read k got = k\<lparr> ks_buffer := got @ CHR 0x00 # drop (Suc (length got)) (ks_buffer k),
     ks_bytesAlreadyReceived := word_of_nat (length got) \<rparr>"

lemma readable_idle:
  assumes "cmd_idle k" "got \<noteq> []" "length got < BUFFER_SIZE"
  shows "onSocketReadable heap env False got k =
     dispatchMessage heap env (extractHeaderContent heap (extractHeaderLength (after_read k got)))"
  using assms
  by (simp add: onSocketReadable_def cmd_idle_def Let_def buf_write_def after_read_def)

lemma take_drop_3:
  "3 \<le> n \<Longrightarrow> take n (a # b # c # xs) = a # b # c # take (n - 3) xs"
  "drop 3 (a # b # c # xs) = xs"
  by (simp_all add: take_Cons' eval_nat_numeral)

lemma take_request:
  assumes hdr_def: "hdr = request_header (length payload) ty ts ver"
    and "3 \<le> n"
  shows "take n (request ty ts ver d1 d2 payload) =
     print_hex2 (length hdr) @ d1 # take (n - 3) (hdr @ d2 # payload)"
  using assms(2) by (simp add: request_def Let_def print_hex2_def take_drop_3 flip: hdr_def)

lemma header_length_read:
  assumes hdr_def: "hdr = request_header (length payload) ty ts ver"
    and "cmd_idle k" "length hdr < 256" "0 < length hdr" "digit_value 16 d1 = None"
    and "got = take n (request ty ts ver d1 d2 payload)" "length got = n" "n < BUFFER_SIZE"
  shows "extractHeaderLength (after_read k got) =
     (after_read k got)\<lparr> ks_headerLength := (if n \<le> 2 then 0 else word_of_nat (length hdr)) \<rparr>"
proof -
  have b: "unat (word_of_nat n :: u32) = n"
    using assms(8) by (simp add: unat_of_nat)
  show ?thesis
  proof (cases "n \<le> 2")
    case True
    then have "\<not> (word_of_nat n :: u32) > 2"
      using b by (simp add: word_less_nat_alt)
    then show ?thesis
      using True assms(2,7) by (simp add: extractHeaderLength_def after_read_def cmd_idle_def)
  next
    case False
    then have gt: "(word_of_nat n :: u32) > 2"
      using b by (simp add: word_less_nat_alt)
    obtain rest where "got = print_hex2 (length hdr) @ d1 # rest"
      using take_request [OF hdr_def, of n d1 d2] False assms(6) by auto
    then have "sscanf [Unsigned 16] (c_string (ks_buffer (after_read k got))) = [int (length hdr)]"
      using scan_hex_field [OF assms(3,5)] by (simp add: after_read_def)
    then show ?thesis
      using False gt assms(2,7)
      by (simp add: extractHeaderLength_def after_read_def cmd_idle_def)
  qed
qed

lemma header_content_read:
  assumes hdr_def: "hdr = request_header (length payload) ty ts ver"
    and "cmd_idle k" "length hdr < 256" "digit_value 10 d2 = None"
    and "got = take n (request ty ts ver d1 d2 payload)" "length got = n"
    and "3 + length hdr < n" "4 + length hdr + length payload < BUFFER_SIZE" "ty < 2 ^ 31"
  shows "extractHeaderContent heap ((after_read k got)\<lparr> ks_headerLength := word_of_nat (length hdr) \<rparr>) =
     (after_read k got)\<lparr> ks_headerLength := word_of_nat (length hdr),
        ks_payloadLength := word_of_nat (length payload), ks_cmdId := word_of_nat ty,
        ks_totalAmountOfbytes := word_of_nat (3 + length hdr + length payload) \<rparr>"
proof -
  have n: "n \<le> 4 + length hdr + length payload"
    using assms(5,6) by (auto simp: request_def Let_def print_hex2_def hdr_def)
  have gt: "(word_of_nat n :: u32) > 2 + 1 + word_of_nat (length hdr)"
    using assms(3,7,8) n by (simp add: word_less_nat_alt unat_of_nat unat_word_ariths)
  have "take (n - 3) (hdr @ d2 # payload) = hdr @ take (n - 3 - length hdr) (d2 # payload)"
    using assms(7) by simp
  moreover have "n - 3 - length hdr = Suc (n - 4 - length hdr)"
    using assms(7) by simp
  ultimately have got: "got = print_hex2 (length hdr) @ d1 # hdr @ d2 # take (n - 4 - length hdr) payload"
    using take_request [OF hdr_def, of n d1 d2] assms(5,7) by simp
  let ?r = "take (n - 4 - length hdr) payload @ CHR 0x00 # drop (Suc n) (ks_buffer k)"
  have drop: "drop 3 (ks_buffer (after_read k got)) = hdr @ d2 # ?r"
  proof -
    have "ks_buffer (after_read k got) = got @ CHR 0x00 # drop (Suc n) (ks_buffer k)"
      using assms(6) by (simp add: after_read_def)
    then show ?thesis
      by (simp only: got print_hex2_def append_Cons append_Nil append_assoc take_drop_3)
  qed
  have "c_string (hdr @ d2 # ?r) = hdr @ c_string (d2 # ?r)"
    using c_string_append request_header_no_nul unfolding hdr_def by blast
  moreover have "c_string (d2 # ?r) = [] \<or> digit_value 10 (hd (c_string (d2 # ?r))) = None"
    using assms(4) by (simp add: c_string_def)
  ultimately have reads: "sscanf header_format (c_string (drop 3 (ks_buffer (after_read k got)))) =
      [int (length payload), int ty, int ts, int ver]"
    using scan_header [of "c_string (d2 # ?r)"] unfolding drop hdr_def by simp
  have total: "(2 + 1 + word_of_nat (length hdr) + word_of_nat (length payload) :: u32) =
      word_of_nat (3 + length hdr + length payload)"
    by simp
  have ut: "unat (word_of_nat (3 + length hdr + length payload) :: u32) = 3 + length hdr + length payload"
    using assms(8) by (simp add: unat_of_nat del: of_nat_add)
  show ?thesis
    using reads gt total ut assms(2,6,8)
    by (simp add: extractHeaderContent_def Let_def after_read_def cmd_idle_def del: of_nat_add)
qed

section \<open>Properties\<close>

text \<open>How the server takes a request that arrives at an idle server, as a function of how many of its
  bytes the first read delivers. All of it: exactly one message with the announced type, length and
  payload is queued. All but the last byte: that message is queued already, with a NUL for its last
  byte. Less than that, but more than the header: nothing yet, the server waits. No more than the
  header: the bytes are thrown away and an empty message with the type of the previous request is
  queued. In the cases where a message is queued the server is idle again.\<close>

theorem request_first_read:
  assumes hdr_def: "hdr = request_header (length payload) ty ts ver"
    and idle: "cmd_idle k" and heap: "heap BUFFER_SIZE"
    and hdr: "length hdr < 256" and d1: "digit_value 16 d1 = None" and d2: "digit_value 10 d2 = None"
    and small: "4 + length hdr + length payload < BUFFER_SIZE" and ty: "ty < 2 ^ 31"
    and n: "0 < n" "n \<le> 4 + length hdr + length payload" and p: "payload \<noteq> []"
  shows "\<exists>k'. onSocketReadable heap env False (take n (request ty ts ver d1 d2 payload)) k = (Inr (), k') \<and>
     (if n \<le> 3 + length hdr then
        cmd_idle k' \<and> ks_queue k' = ks_queue k @ [NTFY_NEW_MESSAGE_FROM_HOST_RECEIVED
          (new_ProtocolMessage env (sint (ks_cmdId k)) 0 [] False 0 None)]
      else if n < 3 + length hdr + length payload then
        ks_queue k' = ks_queue k \<and> unat (ks_bytesAlreadyReceived k') = n
      else cmd_idle k' \<and> ks_queue k' = ks_queue k @ [NTFY_NEW_MESSAGE_FROM_HOST_RECEIVED
          (new_ProtocolMessage env (int ty) (int (length payload))
             (List.map of_char (if n = 4 + length hdr + length payload then payload
                           else butlast payload @ [CHR 0x00])) False 0 None)])"
proof -
  let ?req = "request ty ts ver d1 d2 payload"
  let ?got = "take n ?req"
  have lreq: "length ?req = 4 + length hdr + length payload"
    by (simp add: request_def Let_def print_hex2_def hdr_def)
  have got: "length ?got = n" "?got \<noteq> []" "n < BUFFER_SIZE"
    using n lreq small by auto
  have h0: "0 < length hdr"
    by (simp add: hdr_def request_header_def)
  have un: "unat (word_of_nat n :: u32) = n"
    using got by (simp add: unat_of_nat)
  have n0: "(word_of_nat n :: u32) \<noteq> 0"
    using un n(1) by (metis unat_0 less_not_refl)
  let ?k0 = "after_read k ?got"
  have hl: "extractHeaderLength ?k0 =
      ?k0\<lparr> ks_headerLength := (if n \<le> 2 then 0 else word_of_nat (length hdr)) \<rparr>"
    using header_length_read [OF hdr_def idle hdr h0 d1 refl] got by simp
  have run: "onSocketReadable heap env False ?got k =
      dispatchMessage heap env (extractHeaderContent heap
        (?k0\<lparr> ks_headerLength := (if n \<le> 2 then 0 else word_of_nat (length hdr)) \<rparr>))"
    using readable_idle [OF idle got(2)] got hl by simp
  show ?thesis
  proof (cases "n \<le> 3 + length hdr")
    case True
    let ?k1 = "?k0\<lparr> ks_headerLength := (if n \<le> 2 then 0 else word_of_nat (length hdr)) \<rparr>"
    have "\<not> (word_of_nat n :: u32) > 2 + 1 + ks_headerLength ?k1"
      using True hdr un by (auto simp: word_less_nat_alt unat_word_ariths unat_of_nat)
    then have "extractHeaderContent heap ?k1 = ?k1"
      using got by (simp add: extractHeaderContent_def after_read_def)
    moreover have "\<exists>k'. dispatchMessage heap env ?k1 = (Inr (), k') \<and> cmd_idle k' \<and>
        ks_queue k' = ks_queue ?k1 @ [NTFY_NEW_MESSAGE_FROM_HOST_RECEIVED
          (new_ProtocolMessage env (sint (ks_cmdId ?k1)) 0 [] False 0 None)]"
      using idle n0 got heap by (intro dispatch_empty) (simp_all add: after_read_def cmd_idle_def)
    ultimately show ?thesis
      using True run by (simp add: after_read_def)
  next
    case False
    let ?k1 = "?k0\<lparr> ks_headerLength := word_of_nat (length hdr),
        ks_payloadLength := word_of_nat (length payload), ks_cmdId := word_of_nat ty,
        ks_totalAmountOfbytes := word_of_nat (3 + length hdr + length payload) \<rparr>"
    have run': "onSocketReadable heap env False ?got k = dispatchMessage heap env ?k1"
      using header_content_read [OF hdr_def idle hdr d2 refl got(1) _ small ty] False run by simp
    have ut: "unat (word_of_nat (3 + length hdr + length payload) :: u32) = 3 + length hdr + length payload"
      using small by (simp add: unat_of_nat del: of_nat_add)
    have le: "(word_of_nat (3 + length hdr + length payload) :: u32) \<le> word_of_nat n \<longleftrightarrow>
        3 + length hdr + length payload \<le> n"
      using ut un by (simp add: word_le_nat_alt del: of_nat_add)
    show ?thesis
    proof (cases "n < 3 + length hdr + length payload")
      case True
      then have "dispatchMessage heap env ?k1 = (Inr (), ?k1)"
        using le got by (simp add: dispatchMessage_def after_read_def del: of_nat_add)
      then show ?thesis
        using run' True False got un by (simp add: after_read_def)
    next
      case ge: False
      have off: "unat (2 + 2 * 1 + word_of_nat (length hdr) :: u32) = 4 + length hdr"
        using hdr by (simp add: unat_word_ariths unat_of_nat)
      have len: "sint (word_of_nat (length payload) :: u32) = int (length payload)"
        using small by (simp add: sint_uint unsigned_of_nat take_bit_nat_eq_self signed_take_bit_int_eq_self)
      have tid: "sint (word_of_nat ty :: u32) = int ty"
        using ty by (simp add: sint_uint unsigned_of_nat take_bit_nat_eq_self signed_take_bit_int_eq_self)
      let ?rest = "CHR 0x00 # drop (Suc n) (ks_buffer k)"
      have buf: "ks_buffer ?k1 = ?got @ ?rest"
        using got by (simp add: after_read_def)
      let ?pay = "if n = 4 + length hdr + length payload then payload else butlast payload @ [CHR 0x00]"
      have data: "memcpy_read (length payload) (drop (4 + length hdr) (?got @ ?rest)) = ?pay"
      proof -
        define pre where "pre = print_hex2 (length hdr) @ d1 # hdr @ [d2]"
        have pre: "length pre = 4 + length hdr" "?req = pre @ payload"
          by (simp_all add: pre_def request_def Let_def hdr_def print_hex2_def)
        then have "take n ?req = pre @ take (n - (4 + length hdr)) payload"
          using ge p by (cases payload) auto
        then have d: "drop (4 + length hdr) (?got @ ?rest) = take (n - (4 + length hdr)) payload @ ?rest"
          by (simp add: pre(1))
        show ?thesis
        proof (cases "n = 4 + length hdr + length payload")
          case True
          then show ?thesis
            using d by simp
        next
          case False
          then have "n - (4 + length hdr) = length payload - 1"
            using ge n(2) p by (cases payload) auto
          then have "drop (4 + length hdr) (?got @ ?rest) =
              (butlast payload @ [CHR 0x00]) @ drop (Suc n) (ks_buffer k)"
            using d by (simp add: butlast_conv_take)
          moreover have "length payload = length (butlast payload @ [CHR 0x00])"
            using p by simp
          ultimately show ?thesis
            using False by (metis memcpy_read_append)
        qed
      qed
      have lb: "length (drop (4 + length hdr) (?got @ ?rest)) \<ge> length payload"
        using idle got small lreq n by (simp add: cmd_idle_def)
      have pay: "length ?pay = length payload"
        using p by simp
      have msg: "new_ProtocolMessage env (int ty) (int (length payload))
           (List.map of_char (drop (4 + length hdr) (?got @ ?rest))) False 0 None
         = new_ProtocolMessage env (int ty) (int (length payload)) (List.map of_char ?pay) False 0 None"
      proof (rule new_ProtocolMessage_cong)
        have "memcpy_read (length payload) (List.map of_char (drop (4 + length hdr) (?got @ ?rest)))
            = (List.map of_char ?pay :: byte list)"
          by (simp only: memcpy_read_map [OF lb] data)
        also have "\<dots> = memcpy_read (length payload) (List.map of_char ?pay)"
          by (metis pay length_map memcpy_read_self)
        finally show "memcpy_read (nat (int (length payload)))
            (List.map of_char (drop (4 + length hdr) (?got @ ?rest))) =
            memcpy_read (nat (int (length payload))) (List.map of_char ?pay :: byte list)"
          by (simp only: nat_int)
      qed
      have lbuf: "length (ks_buffer ?k1) = BUFFER_SIZE"
        using idle got by (simp add: after_read_def cmd_idle_def)
      have "dispatchMessage heap env ?k1 = (Inr (), resetCounters heap (?k1\<lparr> ks_queue := ks_queue k @
          [NTFY_NEW_MESSAGE_FROM_HOST_RECEIVED (new_ProtocolMessage env (int ty) (int (length payload))
             (List.map of_char ?pay) False 0 None)] \<rparr>))"
        unfolding msg [symmetric] buf [symmetric]
        using off len tid lbuf small le ge n0 got
        by (simp add: dispatchMessage_def Let_def after_read_def del: of_nat_add)
      then show ?thesis
        using run' False ge cmd_idle_reset [of heap] heap by simp
    qed
  qed
qed

definition sample_server :: cmd_server where
  "sample_server = new_CCommanControlServer (\<lambda>_. True)"

definition sample_request :: string where
  "sample_request = request 2 15314117 3043 CHR '':'' CHR '':'' ''ab''"

theorem request_first_read_witness:
  "\<exists>k'. onSocketReadable (\<lambda>_. True) sample_msgEnv False (take 62 sample_request) sample_server
        = (Inr (), k') \<and> cmd_idle k' \<and>
     ks_queue k' = [NTFY_NEW_MESSAGE_FROM_HOST_RECEIVED
        (new_ProtocolMessage sample_msgEnv 2 2 [97, 98] False 0 None)]"
proof -
  let ?hdr = "request_header (length ''ab'') 2 15314117 3043"
  have l: "length ?hdr = 56"
    by (simp add: request_header_def print_decimal.simps)
  have idle: "cmd_idle sample_server" "ks_queue sample_server = []"
    by (simp_all add: cmd_idle_def sample_server_def new_CCommanControlServer_def)
  have "\<exists>k'. onSocketReadable (\<lambda>_. True) sample_msgEnv False (take 62 sample_request) sample_server
        = (Inr (), k') \<and>
     (if 62 \<le> 3 + length ?hdr then
        cmd_idle k' \<and> ks_queue k' = ks_queue sample_server @ [NTFY_NEW_MESSAGE_FROM_HOST_RECEIVED
          (new_ProtocolMessage sample_msgEnv (sint (ks_cmdId sample_server)) 0 [] False 0 None)]
      else if 62 < 3 + length ?hdr + length ''ab'' then
        ks_queue k' = ks_queue sample_server \<and> unat (ks_bytesAlreadyReceived k') = 62
      else cmd_idle k' \<and> ks_queue k' = ks_queue sample_server @ [NTFY_NEW_MESSAGE_FROM_HOST_RECEIVED
          (new_ProtocolMessage sample_msgEnv (int 2) (int (length ''ab''))
             (List.map of_char (if 62 = 4 + length ?hdr + length ''ab'' then ''ab''
                           else butlast ''ab'' @ [CHR 0x00])) False 0 None)])"
    unfolding sample_request_def
    by (rule request_first_read [OF refl idle(1)]) (use l in \<open>simp_all add: digit_value_def Let_def\<close>)
  then show ?thesis
    using l idle(2) by (simp add: numeral_2_eq_2)
qed

text \<open>A read that fills the buffer writes the terminating NUL behind its end. This happens to every
  client that sends 10240 bytes at once, and to every request larger than the initial buffer, because
  the buffer is then reallocated to exactly the number of bytes of the request.\<close>

theorem full_buffer_overflows:
  assumes "unat (ks_bytesAlreadyReceived k) \<le> length (ks_buffer k)"
    and "length (ks_buffer k) \<le> unat (ks_bytesAlreadyReceived k) + length avail" "avail \<noteq> []"
  shows "onSocketReadable heap env False avail k = (Inl HeapOverflow, k)"
  using assms by (auto simp: onSocketReadable_def Let_def buf_write_def)

theorem full_buffer_overflows_witness:
  "onSocketReadable (\<lambda>_. True) sample_msgEnv False (replicate 10240 CHR ''x'')
     (new_CCommanControlServer (\<lambda>_. True)) = (Inl HeapOverflow, new_CCommanControlServer (\<lambda>_. True))"
  by (rule full_buffer_overflows) (simp_all add: new_CCommanControlServer_def)

end
