(* ===== verification/DbusValues.thy ===== *)
theory DbusValues
  imports Scanf
begin

text \<open>
  D-Bus arguments, and how the D-Bus monitor records them
  (\<^verbatim>\<open>dbus-monitor-plugin/src/dbus_consumer.cpp\<close>, the payload functions). A message's arguments are
  the tree libdbus holds; an iterator is the list of the values it has still to visit. Containers keep
  their contents as a list: a well-typed variant has one, a well-typed dictionary entry two, and an
  array the signature of its elements beside them. A double is its bit pattern.
\<close>

section \<open>Data\<close>

datatype dbus_value =
    DByte byte
  | DBoolean u32
  | DInt16 "16 word"
  | DUInt16 "16 word"
  | DInt32 u32
  | DUInt32 u32
  | DInt64 u64
  | DUInt64 u64
  | DDouble u64
  | DString string
  | DObjectPath string
  | DSignature string
  | DUnixFd u32
  | DArray string "dbus_value list"
  | DStruct "dbus_value list"
  | DVariant "dbus_value list"
  | DDictEntry "dbus_value list"

datatype param_type =
    DBUS_MSG_PARAM_TYPE_INVALID
  | DBUS_MSG_PARAM_TYPE_BYTE
  | DBUS_MSG_PARAM_TYPE_BOOLEAN
  | DBUS_MSG_PARAM_TYPE_INT16
  | DBUS_MSG_PARAM_TYPE_UINT16
  | DBUS_MSG_PARAM_TYPE_INT32
  | DBUS_MSG_PARAM_TYPE_UINT32
  | DBUS_MSG_PARAM_TYPE_INT64
  | DBUS_MSG_PARAM_TYPE_UINT64
  | DBUS_MSG_PARAM_TYPE_DOUBLE
  | DBUS_MSG_PARAM_TYPE_STRING
  | DBUS_MSG_PARAM_TYPE_OBJ_PATH
  | DBUS_MSG_PARAM_TYPE_SIGNATURE
  | DBUS_MSG_PARAM_TYPE_ARRAY
  | DBUS_MSG_PARAM_TYPE_STRUCT
  | DBUS_MSG_PARAM_TYPE_VARIANT
  | DBUS_MSG_PARAM_TYPE_DICT_ENTRY
  | DBUS_MSG_PARAM_TYPE_UNIX_FD

text \<open>A payload item of the protocol; a field that is not set reads as its default.\<close>

datatype payload_item =
  PayloadItem (item_type: param_type) (int_val: u64) (uint_val: u64) (double_val: u64)
    (str_val: string) (composite_val: "payload_item list")

datatype dbus_error = StackOverwrite

text \<open>libdbus's type codes.\<close>

fun dbus_type :: "dbus_value \<Rightarrow> char" where
  "dbus_type (DByte _) = CHR ''y''"
| "dbus_type (DBoolean _) = CHR ''b''"
| "dbus_type (DInt16 _) = CHR ''n''"
| "dbus_type (DUInt16 _) = CHR ''q''"
| "dbus_type (DInt32 _) = CHR ''i''"
| "dbus_type (DUInt32 _) = CHR ''u''"
| "dbus_type (DInt64 _) = CHR ''x''"
| "dbus_type (DUInt64 _) = CHR ''t''"
| "dbus_type (DDouble _) = CHR ''d''"
| "dbus_type (DString _) = CHR ''s''"
| "dbus_type (DObjectPath _) = CHR ''o''"
| "dbus_type (DSignature _) = CHR ''g''"
| "dbus_type (DUnixFd _) = CHR ''h''"
| "dbus_type (DArray _ _) = CHR ''a''"
| "dbus_type (DStruct _) = CHR ''r''"
| "dbus_type (DVariant _) = CHR ''v''"
| "dbus_type (DDictEntry _) = CHR ''e''"

text \<open>The signature of a value, as libdbus reports it for a message.\<close>

fun type_sig :: "dbus_value \<Rightarrow> string" where
  "type_sig (DArray es vs) = CHR ''a'' # es"
| "type_sig (DStruct vs) = CHR ''('' # concat (List.map type_sig vs) @ [CHR '')'']"
| "type_sig (DDictEntry vs) = CHR ''{'' # concat (List.map type_sig vs) @ [CHR ''}'']"
| "type_sig v = [dbus_type v]"

definition type_sigs :: "dbus_value list \<Rightarrow> string" where
  "type_sigs vs = concat (List.map type_sig vs)"

lemma type_sigs_simps [simp]:
  "type_sigs [] = []" "type_sigs (v # vs) = type_sig v @ type_sigs vs"
  "type_sigs (vs @ ws) = type_sigs vs @ type_sigs ws"
  by (simp_all add: type_sigs_def)

section \<open>Recording the arguments\<close>

definition dbusType2ProtoType :: "char \<Rightarrow> param_type" where
  "dbusType2ProtoType t =
     (if t = CHR ''y'' then DBUS_MSG_PARAM_TYPE_BYTE
      else if t = CHR ''b'' then DBUS_MSG_PARAM_TYPE_BOOLEAN
      else if t = CHR ''n'' then DBUS_MSG_PARAM_TYPE_INT16
      else if t = CHR ''q'' then DBUS_MSG_PARAM_TYPE_UINT16
      else if t = CHR ''i'' then DBUS_MSG_PARAM_TYPE_INT32
      else if t = CHR ''u'' then DBUS_MSG_PARAM_TYPE_UINT32
      else if t = CHR ''x'' then DBUS_MSG_PARAM_TYPE_INT64
      else if t = CHR ''t'' then DBUS_MSG_PARAM_TYPE_UINT64
      else if t = CHR ''d'' then DBUS_MSG_PARAM_TYPE_DOUBLE
      else if t = CHR ''s'' then DBUS_MSG_PARAM_TYPE_STRING
      else if t = CHR ''g'' then DBUS_MSG_PARAM_TYPE_SIGNATURE
      else if t = CHR ''o'' then DBUS_MSG_PARAM_TYPE_OBJ_PATH
      else if t = CHR ''a'' then DBUS_MSG_PARAM_TYPE_ARRAY
      else if t = CHR ''r'' then DBUS_MSG_PARAM_TYPE_STRUCT
      else if t = CHR ''v'' then DBUS_MSG_PARAM_TYPE_VARIANT
      else if t = CHR ''e'' then DBUS_MSG_PARAM_TYPE_DICT_ENTRY
      else DBUS_MSG_PARAM_TYPE_INVALID)"

text \<open>\<^verbatim>\<open>dbus_message_iter_get_basic\<close> into a 32-bit variable that holds 0: it stores as many bytes as the
  value has, from the low end on (the targets are little-endian). Eight bytes do not fit.\<close>

fun get_basic_32 :: "dbus_value \<Rightarrow> dbus_error + u32" where
  "get_basic_32 (DByte b) = Inr (ucast b)"
| "get_basic_32 (DBoolean w) = Inr w"
| "get_basic_32 (DInt16 w) = Inr (ucast w)"
| "get_basic_32 (DUInt16 w) = Inr (ucast w)"
| "get_basic_32 (DInt32 w) = Inr w"
| "get_basic_32 (DUInt32 w) = Inr w"
| "get_basic_32 (DUnixFd w) = Inr w"
| "get_basic_32 _ = Inl StackOverwrite"

fun get_basic_double :: "dbus_value \<Rightarrow> u64" where
  "get_basic_double (DDouble w) = w"
| "get_basic_double _ = 0"

fun get_basic_string :: "dbus_value \<Rightarrow> string" where
  "get_basic_string (DString s) = s"
| "get_basic_string (DObjectPath s) = s"
| "get_basic_string (DSignature s) = s"
| "get_basic_string _ = []"

text \<open>The branches of \<^verbatim>\<open>parsePayloadItem\<close> that store a value. The signed branch reads into an
  \<^verbatim>\<open>int\<close> and widens it, the unsigned one into an \<^verbatim>\<open>unsigned int\<close>; a C string ends at a NUL.\<close>

definition parse_basic :: "dbus_value \<Rightarrow> dbus_error + payload_item" where
  "parse_basic v =
     (let t = dbus_type v; pt = dbusType2ProtoType t in
      if t \<in> set ''ybnix'' then
        (case get_basic_32 v of Inl e \<Rightarrow> Inl e
         | Inr val \<Rightarrow> Inr (PayloadItem pt (scast val) 0 0 [] []))
      else if t \<in> set ''qut'' then
        (case get_basic_32 v of Inl e \<Rightarrow> Inl e
         | Inr val \<Rightarrow> Inr (PayloadItem pt 0 (ucast val) 0 [] []))
      else if t = CHR ''d'' then Inr (PayloadItem pt 0 0 (get_basic_double v) [] [])
      else if t \<in> set ''sgo'' then Inr (PayloadItem pt 0 0 0 (c_string (get_basic_string v)) [])
      else Inr (PayloadItem pt 0 0 0 [] []))"

definition composite_item :: "char \<Rightarrow> dbus_error + payload_item list \<Rightarrow> dbus_error + payload_item" where
  "composite_item t subs =
     (case subs of Inl e \<Rightarrow> Inl e
      | Inr items \<Rightarrow> Inr (PayloadItem (dbusType2ProtoType t) 0 0 0 [] items))"

text \<open>\<^verbatim>\<open>createTraceMessagePayload\<close> walks the arguments of the message the way \<^verbatim>\<open>parsePayloadItem\<close> walks
  the contents of a container: an exhausted iterator has the invalid type and nothing after it.\<close>

fun parsePayloadItem :: "dbus_value \<Rightarrow> dbus_error + payload_item"
  and createTraceMessagePayload :: "dbus_value list \<Rightarrow> dbus_error + payload_item list" where
  "parsePayloadItem (DArray es vs) = composite_item CHR ''a'' (createTraceMessagePayload vs)"
| "parsePayloadItem (DStruct vs) = composite_item CHR ''r'' (createTraceMessagePayload vs)"
| "parsePayloadItem (DVariant vs) = composite_item CHR ''v'' (createTraceMessagePayload vs)"
| "parsePayloadItem (DDictEntry vs) = composite_item CHR ''e'' (createTraceMessagePayload vs)"
| "parsePayloadItem v = parse_basic v"
| "createTraceMessagePayload [] = Inr []"
| "createTraceMessagePayload (v # vs) =
     (case parsePayloadItem v of Inl e \<Rightarrow> Inl e
      | Inr item \<Rightarrow>
          (case createTraceMessagePayload vs of Inl e \<Rightarrow> Inl e
           | Inr items \<Rightarrow> Inr (item # items)))"

section \<open>Kinds of values\<close>

text \<open>Well-typed values, as libdbus delivers them.\<close>

fun well_typed :: "dbus_value \<Rightarrow> bool" where
  "well_typed (DArray es vs) = list_all (\<lambda>v. well_typed v \<and> type_sig v = es) vs"
| "well_typed (DStruct vs) = (vs \<noteq> [] \<and> list_all well_typed vs)"
| "well_typed (DVariant vs) = (length vs = 1 \<and> list_all well_typed vs)"
| "well_typed (DDictEntry vs) = (length vs = 2 \<and> list_all well_typed vs)"
| "well_typed (DString s) = (c_string s = s)"
| "well_typed (DObjectPath s) = (c_string s = s)"
| "well_typed (DSignature s) = (c_string s = s)"
| "well_typed v = True"

text \<open>A basic value that fits the 32-bit variables.\<close>

fun narrow :: "dbus_value \<Rightarrow> bool" where
  "narrow (DInt64 _) = False"
| "narrow (DUInt64 _) = False"
| "narrow (DUnixFd _) = False"
| "narrow (DArray _ _) = False"
| "narrow (DStruct _) = False"
| "narrow (DVariant _) = False"
| "narrow (DDictEntry _) = False"
| "narrow v = True"

text \<open>No array inside, and basic contents in every variant.\<close>

fun flat :: "dbus_value \<Rightarrow> bool" where
  "flat (DArray _ _) = False"
| "flat (DStruct vs) = list_all flat vs"
| "flat (DVariant vs) = list_all narrow vs"
| "flat (DDictEntry vs) = list_all flat vs"
| "flat v = narrow v"

definition flat_array :: "dbus_value \<Rightarrow> bool" where
  "flat_array v = (case v of DArray es vs \<Rightarrow> CHR ''a'' \<notin> set es \<and> list_all flat vs | _ \<Rightarrow> False)"

definition nested_array :: "dbus_value \<Rightarrow> bool" where
  "nested_array v =
     (case v of DArray es vs \<Rightarrow> es \<noteq> [] \<and> hd es = CHR ''a'' \<and> CHR ''a'' \<notin> set (tl es) \<and>
                                list_all flat_array vs
      | _ \<Rightarrow> False)"

lemma flat_signature: "flat v \<Longrightarrow> CHR ''a'' \<notin> set (type_sig v)"
  by (induction v rule: flat.induct) (auto simp: list_all_iff)

lemma narrow_flat: "narrow v \<Longrightarrow> flat v"
  by (cases v) auto

end
