(* ===== verification/DbusMonitor.thy ===== *)
theory DbusMonitor
  imports DbusValues SendQueue
begin

text \<open>
  The D-Bus monitor plugin (\<^verbatim>\<open>dbus-monitor-plugin/src\<close>): the data pool with its two maps and the
  queue between the producer thread, which libdbus calls for every message on the bus, and the consumer
  thread, which follows the ownership of names, resolves sender and receiver and records the message.
  The bus daemon is a parameter: what it replies to the calls the consumer makes. The bus a daemon
  watches over may change between two events, so every event comes with the replies of its time.
\<close>

section \<open>Data\<close>

datatype dbus_message_type =
    DBUS_MESSAGE_TYPE_INVALID
  | DBUS_MESSAGE_TYPE_METHOD_CALL
  | DBUS_MESSAGE_TYPE_METHOD_RETURN
  | DBUS_MESSAGE_TYPE_ERROR
  | DBUS_MESSAGE_TYPE_SIGNAL

record dbus_message =
  dm_type :: dbus_message_type
  dm_sender :: "string option"
  dm_destination :: "string option"
  dm_path :: "string option"
  dm_interface :: "string option"
  dm_member :: "string option"
  dm_error_name :: "string option"
  dm_serial :: u32
  dm_reply_serial :: u32
  dm_args :: "dbus_value list"

record dbus_entry =
  de_msg :: dbus_message
  de_serial :: u32

record dbus_service =
  aliaslist :: "string list"
  svc_pid :: u32
  svc_user :: u32

datatype bus_type = DBUS_BUS_SESSION | DBUS_BUS_SYSTEM

record data_pool =
  dp_observedBus :: bus_type
  dp_services :: "(string \<times> dbus_service) list"
  dp_names :: "(string \<times> string) list"
  dp_queue :: "dbus_entry list"
  dp_available :: bool

datatype mon_error = NullCString | OutOfRange | PayloadOverwrite | PocoException

type_synonym 'a mon_op = "(mon_error, data_pool, 'a) op"

text \<open>\<open>bus method arg\<close>: the arguments of the reply of the daemon, if there is one.\<close>

type_synonym bus = "string \<Rightarrow> string option \<Rightarrow> dbus_value list option"

definition new_CDataPool :: data_pool where
  "new_CDataPool = \<lparr> dp_observedBus = DBUS_BUS_SESSION, dp_services = [], dp_names = [],
     dp_queue = [], dp_available = False \<rparr>"

text \<open>The serial of other types is not initialised, and never read.\<close>

definition new_DbusMessageEntry :: "dbus_message \<Rightarrow> dbus_entry" where
  "new_DbusMessageEntry m =
     \<lparr> de_msg = m,
       de_serial = (case dm_type m of
          DBUS_MESSAGE_TYPE_SIGNAL \<Rightarrow> dm_serial m
        | DBUS_MESSAGE_TYPE_METHOD_CALL \<Rightarrow> dm_serial m
        | DBUS_MESSAGE_TYPE_METHOD_RETURN \<Rightarrow> dm_reply_serial m
        | DBUS_MESSAGE_TYPE_ERROR \<Rightarrow> dm_reply_serial m
        | DBUS_MESSAGE_TYPE_INVALID \<Rightarrow> 0) \<rparr>"

section \<open>The queue\<close>

definition pushMessageToQueue :: "dbus_entry \<Rightarrow> data_pool \<Rightarrow> data_pool" where
  "pushMessageToQueue e p = p\<lparr> dp_queue := dp_queue p @ [e] \<rparr>"

definition updateMessageAvailableFlag :: "data_pool \<Rightarrow> data_pool" where
  "updateMessageAvailableFlag p = (if dp_queue p = [] then p\<lparr> dp_available := False \<rparr> else p)"

definition popMessageFromQueue :: "data_pool \<Rightarrow> dbus_entry option \<times> data_pool" where
  "popMessageFromQueue p =
     (case dp_queue p of [] \<Rightarrow> (None, p) | e # es \<Rightarrow> (Some e, p\<lparr> dp_queue := es \<rparr>))"

definition notifyMessagesAvailable :: "data_pool \<Rightarrow> data_pool" where
  "notifyMessagesAvailable p = (if \<not> dp_available p then p\<lparr> dp_available := True \<rparr> else p)"

definition handleDbusMessage :: "dbus_message option \<Rightarrow> data_pool \<Rightarrow> data_pool" where
  "handleDbusMessage msg p =
     (case msg of
        Some m \<Rightarrow> notifyMessagesAvailable (pushMessageToQueue (new_DbusMessageEntry m) p)
      | None \<Rightarrow> p)"

section \<open>Asking the daemon\<close>

definition parseListNamesReply :: "dbus_value list \<Rightarrow> string list" where
  "parseListNamesReply reply =
     (case reply of
        DArray _ vs # _ \<Rightarrow> concat (List.map (\<lambda>v. case v of DString s \<Rightarrow> [s] | _ \<Rightarrow> []) vs)
      | _ \<Rightarrow> [])"

definition dbusListNames :: "bus \<Rightarrow> string list" where
  "dbusListNames bus =
     (case bus ''ListNames'' None of Some reply \<Rightarrow> parseListNamesReply reply | None \<Rightarrow> [])"

definition isNotUniqueConnID :: "string \<Rightarrow> mon_error + bool" where
  "isNotUniqueConnID name = (case name of [] \<Rightarrow> Inl OutOfRange | c # _ \<Rightarrow> Inr (c \<noteq> CHR '':''))"

definition dbusGetNameOwner :: "bus \<Rightarrow> string \<Rightarrow> mon_error + string" where
  "dbusGetNameOwner bus name =
     (case isNotUniqueConnID name of
        Inl e \<Rightarrow> Inl e
      | Inr False \<Rightarrow> Inr name
      | Inr True \<Rightarrow>
          (case bus ''GetNameOwner'' (Some name) of
             Some (DString s # _) \<Rightarrow> Inr s
           | _ \<Rightarrow> Inr name))"

definition getServicePID :: "bus \<Rightarrow> string \<Rightarrow> u32" where
  "getServicePID bus servicename =
     (case bus ''GetConnectionUnixProcessID'' (Some servicename) of
        Some (DUInt32 w # _) \<Rightarrow> w | _ \<Rightarrow> - 1)"

definition getServiceUID :: "bus \<Rightarrow> string \<Rightarrow> u32" where
  "getServiceUID bus servicename =
     (case bus ''GetConnectionUnixUser'' (Some servicename) of
        Some (DUInt32 w # _) \<Rightarrow> w | _ \<Rightarrow> - 1)"

definition new_service :: "bus \<Rightarrow> string \<Rightarrow> string \<Rightarrow> dbus_service" where
  "new_service bus owner name =
     \<lparr> aliaslist = [name], svc_pid = getServicePID bus owner, svc_user = getServiceUID bus owner \<rparr>"

section \<open>The maps\<close>

definition cmap_erase :: "'k \<Rightarrow> ('k \<times> 'v) list \<Rightarrow> ('k \<times> 'v) list" where
  "cmap_erase k m = filter (\<lambda>kv. fst kv \<noteq> k) m"

definition erase_value :: "'v \<Rightarrow> ('k \<times> 'v) list \<Rightarrow> ('k \<times> 'v) list" where
  "erase_value v m = filter (\<lambda>kv. snd kv \<noteq> v) m"

definition insertService :: "bus \<Rightarrow> string \<Rightarrow> bool mon_op" where
  "insertService bus name = (\<lambda>p.
     (case dbusGetNameOwner bus name of
        Inl e \<Rightarrow> (Inl e, p)
      | Inr owner \<Rightarrow>
          (let p1 = p\<lparr> dp_names := cmap_insert name owner (dp_names p) \<rparr> in
           case map_of (dp_services p1) owner of
             Some s \<Rightarrow> (Inr True, p1\<lparr> dp_services :=
                cmap_assign owner (s\<lparr> aliaslist := aliaslist s @ [name] \<rparr>) (dp_services p1) \<rparr>)
           | None \<Rightarrow> (Inr True, p1\<lparr> dp_services :=
                cmap_insert owner (new_service bus owner name) (dp_services p1) \<rparr>))))"

definition populateDataPool :: "bus \<Rightarrow> bool mon_op" where
  "populateDataPool bus =
     thenE (seqE (List.map (\<lambda>name. thenE (insertService bus name) (returnE ())) (dbusListNames bus)))
       (returnE False)"

text \<open>What a change of ownership does to the maps: the three branches of the handler.\<close>

definition owner_appeared :: "bus \<Rightarrow> string \<Rightarrow> string \<Rightarrow> data_pool \<Rightarrow> data_pool" where
  "owner_appeared bus name new p =
     p\<lparr> dp_services := cmap_insert new (new_service bus new name) (cmap_erase new (dp_services p)),
        dp_names := cmap_insert name new (dp_names p) \<rparr>"

definition owner_vanished :: "string \<Rightarrow> data_pool \<Rightarrow> data_pool" where
  "owner_vanished old p =
     p\<lparr> dp_services := cmap_erase old (dp_services p), dp_names := erase_value old (dp_names p) \<rparr>"

definition owner_replaced :: "bus \<Rightarrow> string \<Rightarrow> string \<Rightarrow> string \<Rightarrow> data_pool \<Rightarrow> data_pool" where
  "owner_replaced bus name old new p =
     p\<lparr> dp_services := cmap_insert new (new_service bus new name) (cmap_erase old (dp_services p)),
        dp_names := cmap_insert name new (erase_value old (dp_names p)) \<rparr>"

definition name_owner_changed :: "bus \<Rightarrow> string \<Rightarrow> string \<Rightarrow> string \<Rightarrow> data_pool \<Rightarrow> data_pool" where
  "name_owner_changed bus name old new p =
     (if old = [] \<and> new \<noteq> [] then owner_appeared bus name new p
      else if old \<noteq> [] \<and> new = [] then owner_vanished old p
      else owner_replaced bus name old new p)"

definition handleNameOwnerChangeEvent :: "bus \<Rightarrow> dbus_message \<Rightarrow> unit mon_op" where
  "handleNameOwnerChangeEvent bus msg = (\<lambda>p.
     (if dm_type msg = DBUS_MESSAGE_TYPE_SIGNAL then
        (case (dm_sender msg, dm_interface msg, dm_member msg) of
           (Some sender, Some interface, Some member) \<Rightarrow>
             (if sender = ''org.freedesktop.DBus'' \<and> interface = ''org.freedesktop.DBus'' \<and>
                 member = ''NameOwnerChanged'' then
                (case dm_args msg of
                   DString name # DString old # DString new # _ \<Rightarrow>
                     (Inr (), name_owner_changed bus name old new p)
                 | _ \<Rightarrow> (Inr (), p))
              else (Inr (), p))
         | _ \<Rightarrow> (Inl NullCString, p))
      else (Inr (), p)))"

section \<open>The trace message\<close>

datatype trace_type =
    DBUS_MSG_TYPE_INVALID
  | DBUS_MSG_TYPE_METHOD_CALL
  | DBUS_MSG_TYPE_METHOD_RETURN
  | DBUS_MSG_TYPE_SIGNAL
  | DBUS_MSG_TYPE_ERROR

record dbus_header =
  dh_type :: trace_type
  dh_sender :: "string option"
  dh_receiver :: "string option"
  dh_sender_pid :: "u32 option"
  dh_receiver_pid :: "u32 option"
  dh_sender_user_id :: "u32 option"
  dh_receiver_user_id :: "u32 option"
  dh_sender_alias_names :: "string list"
  dh_receiver_alias_names :: "string list"
  dh_serial :: "u32 option"
  dh_path :: "string option"
  dh_interface :: "string option"
  dh_member :: "string option"
  dh_reply_serial :: "u32 option"
  dh_error_name :: "string option"
  dh_method_signature :: "string option"

definition empty_header :: dbus_header where
  "empty_header =
     \<lparr> dh_type = DBUS_MSG_TYPE_INVALID, dh_sender = None, dh_receiver = None, dh_sender_pid = None,
       dh_receiver_pid = None, dh_sender_user_id = None, dh_receiver_user_id = None,
       dh_sender_alias_names = [], dh_receiver_alias_names = [], dh_serial = None, dh_path = None,
       dh_interface = None, dh_member = None, dh_reply_serial = None, dh_error_name = None,
       dh_method_signature = None \<rparr>"

record trace_message =
  tm_header :: dbus_header
  tm_payload :: "payload_item list"
  tm_instance :: bus_type

definition getUniqueConnectionName :: "data_pool \<Rightarrow> string \<Rightarrow> string option" where
  "getUniqueConnectionName p name = map_of (dp_names p) name"

definition other_names :: "string \<Rightarrow> dbus_service \<Rightarrow> string list" where
  "other_names owner s = filter (\<lambda>a. a \<noteq> [] \<and> a \<noteq> owner) (aliaslist s)"

text \<open>The return value is always false, and not looked at; a null pointer changes nothing.\<close>

definition populateSenderInfo :: "data_pool \<Rightarrow> string option \<Rightarrow> dbus_header \<Rightarrow> dbus_header" where
  "populateSenderInfo p owner h =
     (case owner of
        None \<Rightarrow> h
      | Some name \<Rightarrow>
          (case map_of (dp_services p) name of
             None \<Rightarrow> h
           | Some s \<Rightarrow> h\<lparr> dh_sender_pid := Some (svc_pid s), dh_sender_user_id := Some (svc_user s),
                dh_sender_alias_names := dh_sender_alias_names h @ other_names name s \<rparr>))"

definition populateReceiverInfo :: "data_pool \<Rightarrow> string option \<Rightarrow> dbus_header \<Rightarrow> dbus_header" where
  "populateReceiverInfo p owner h =
     (case owner of
        None \<Rightarrow> h
      | Some name \<Rightarrow>
          (case map_of (dp_services p) name of
             None \<Rightarrow> h
           | Some s \<Rightarrow> h\<lparr> dh_receiver_pid := Some (svc_pid s), dh_receiver_user_id := Some (svc_user s),
                dh_receiver_alias_names := dh_receiver_alias_names h @ other_names name s \<rparr>))"

text \<open>Setting a field from a null pointer, or making a string of one, is undefined.\<close>

definition c_str :: "string option \<Rightarrow> (string \<Rightarrow> mon_error + 'a) \<Rightarrow> mon_error + 'a" where
  "c_str s f = (case s of None \<Rightarrow> Inl NullCString | Some x \<Rightarrow> f x)"

definition with_sender :: "data_pool \<Rightarrow> dbus_message \<Rightarrow> dbus_header \<Rightarrow> mon_error + dbus_header" where
  "with_sender p msg h =
     c_str (dm_sender msg) (\<lambda>s. Inr (populateSenderInfo p (Some s) (h\<lparr> dh_sender := Some s \<rparr>)))"

definition with_receiver :: "data_pool \<Rightarrow> dbus_message \<Rightarrow> dbus_header \<Rightarrow> mon_error + dbus_header" where
  "with_receiver p msg h =
     c_str (dm_destination msg) (\<lambda>d.
       Inr (case getUniqueConnectionName p d of
              Some owner \<Rightarrow> populateReceiverInfo p (Some owner) (h\<lparr> dh_receiver := Some d \<rparr>)
            | None \<Rightarrow> h\<lparr> dh_receiver := Some d \<rparr>))"

definition and_then :: "mon_error + 'a \<Rightarrow> ('a \<Rightarrow> mon_error + 'b) \<Rightarrow> mon_error + 'b" where
  "and_then r f = (case r of Inl e \<Rightarrow> Inl e | Inr x \<Rightarrow> f x)"

definition createDbusMessageHeader ::
    "data_pool \<Rightarrow> dbus_message \<Rightarrow> u32 \<Rightarrow> dbus_header \<Rightarrow> mon_error + dbus_header" where
  "createDbusMessageHeader p msg serial h =
     (case dm_type msg of
        DBUS_MESSAGE_TYPE_METHOD_CALL \<Rightarrow>
          and_then (with_sender p msg (h\<lparr> dh_type := DBUS_MSG_TYPE_METHOD_CALL,
              dh_method_signature := Some (type_sigs (dm_args msg)) \<rparr>)) (\<lambda>h.
          and_then (with_receiver p msg h) (\<lambda>h.
          c_str (dm_path msg) (\<lambda>path.
          c_str (dm_member msg) (\<lambda>member.
            Inr (h\<lparr> dh_path := Some path,
                    dh_interface := Some (case dm_interface msg of Some i \<Rightarrow> i | None \<Rightarrow> []),
                    dh_member := Some member, dh_serial := Some serial \<rparr>)))))
      | DBUS_MESSAGE_TYPE_METHOD_RETURN \<Rightarrow>
          and_then (with_sender p msg (h\<lparr> dh_type := DBUS_MSG_TYPE_METHOD_RETURN \<rparr>)) (\<lambda>h.
          and_then (with_receiver p msg h) (\<lambda>h.
            Inr (h\<lparr> dh_reply_serial := Some serial \<rparr>)))
      | DBUS_MESSAGE_TYPE_ERROR \<Rightarrow>
          and_then (with_sender p msg (h\<lparr> dh_type := DBUS_MSG_TYPE_ERROR \<rparr>)) (\<lambda>h.
          and_then (with_receiver p msg h) (\<lambda>h.
          c_str (dm_error_name msg) (\<lambda>err.
            Inr (h\<lparr> dh_reply_serial := Some serial, dh_error_name := Some err \<rparr>))))
      | DBUS_MESSAGE_TYPE_SIGNAL \<Rightarrow>
          and_then (case dm_destination msg of
                      None \<Rightarrow> Inr (h\<lparr> dh_receiver := Some ''broadcast'' \<rparr>)
                    | Some _ \<Rightarrow> with_receiver p msg h) (\<lambda>h.
          and_then (with_sender p msg (h\<lparr> dh_type := DBUS_MSG_TYPE_SIGNAL \<rparr>)) (\<lambda>h.
          c_str (dm_path msg) (\<lambda>path.
          c_str (dm_interface msg) (\<lambda>interface.
          c_str (dm_member msg) (\<lambda>member.
            Inr (h\<lparr> dh_path := Some path, dh_interface := Some interface,
                    dh_member := Some member, dh_serial := Some serial \<rparr>))))))
      | DBUS_MESSAGE_TYPE_INVALID \<Rightarrow> Inr (h\<lparr> dh_type := DBUS_MSG_TYPE_INVALID \<rparr>))"

definition dbus2proto :: "data_pool \<Rightarrow> dbus_message \<Rightarrow> u32 \<Rightarrow> mon_error + trace_message" where
  "dbus2proto p msg serial =
     and_then (createDbusMessageHeader p msg serial empty_header) (\<lambda>h.
       case createTraceMessagePayload (dm_args msg) of
         Inl _ \<Rightarrow> Inl PayloadOverwrite
       | Inr items \<Rightarrow> Inr \<lparr> tm_header = h, tm_payload = items, tm_instance = dp_observedBus p \<rparr>)"

section \<open>The consumer\<close>

text \<open>One turn of the inner loop after the wait; the result is the trace message handed to the sender.\<close>

definition consumer_pass :: "bus \<Rightarrow> trace_message option mon_op" where
  "consumer_pass bus = (\<lambda>p.
     (let (entry, p1) = popMessageFromQueue p in
      case entry of
        Some e \<Rightarrow>
          bindE (handleNameOwnerChangeEvent bus (de_msg e)) (\<lambda>_ p2.
            (case dbus2proto p2 (de_msg e) (de_serial e) of
               Inl err \<Rightarrow> (Inl err, p2)
             | Inr tm \<Rightarrow> (Inr (Some tm), updateMessageAvailableFlag p2))) p1
      | None \<Rightarrow> (Inr None, updateMessageAvailableFlag p1)))"

text \<open>The consumer, asked to stop after as many turns as there are replies of the daemon in the list; it
  blocks (and this run of it is over) when nothing is available.\<close>

fun consumer_turns :: "bus list \<Rightarrow> trace_message list mon_op" where
  "consumer_turns [] = returnE []"
| "consumer_turns (bus # buses) = (\<lambda>p.
     (if \<not> dp_available p then (Inr [], p)
      else bindE (consumer_pass bus) (\<lambda>tm.
             bindE (consumer_turns buses) (\<lambda>tms.
               returnE (case tm of Some x \<Rightarrow> x # tms | None \<Rightarrow> tms))) p))"

definition dbusConsumerLoop :: "bool \<Rightarrow> bus \<Rightarrow> bus list \<Rightarrow> trace_message list mon_op" where
  "dbusConsumerLoop connected bus0 buses =
     (if connected then thenE (populateDataPool bus0) (consumer_turns buses) else returnE [])"

section \<open>The producer\<close>

text \<open>\<open>tokens sep s\<close> and \<open>parseUnsigned\<close> are Poco's tokenizer and number parser; a token that does not
  exist, and text that is no number, raise.\<close>

definition getDbusDeamonVersion ::
    "(string \<Rightarrow> string \<Rightarrow> string list) \<Rightarrow> (string \<Rightarrow> nat option) \<Rightarrow> string \<Rightarrow> mon_error + nat" where
  "getDbusDeamonVersion tokens parseUnsigned line =
     (let toks = tokens '' '' line; localVersion = (0 :: nat);
          version = (if localVersion = 4 then localVersion else 6) in
      if length toks > 1 then
        (let verTokens = tokens ''.'' (last toks) in
         if length verTokens < 2 then Inl PocoException
         else if length verTokens = 3 then
           (case parseUnsigned (verTokens ! (length verTokens - 2)) of
              None \<Rightarrow> Inl PocoException | Some _ \<Rightarrow> Inr version)
         else Inr version)
      else Inr version)"

definition EAVESDROPPING_RULE :: string where
  "EAVESDROPPING_RULE = ''eavesdrop=true''"

definition match_rule :: "string \<Rightarrow> string" where
  "match_rule ty = ''type='' @ CHR 0x27 # ty @ [CHR 0x27]"

definition match_rules :: "nat \<Rightarrow> string list" where
  "match_rules version =
     (let types = [''signal'', ''method_call'', ''method_return'', ''error''] in
      if version = 4 then List.map match_rule types
      else List.map (\<lambda>ty. EAVESDROPPING_RULE @ '','' @ match_rule ty) types)"

text \<open>The rules are given to the daemon one after the other until it refuses one: the rules it has been
  given, and whether it took all.\<close>

fun add_rules :: "(string \<Rightarrow> bool) \<Rightarrow> string list \<Rightarrow> string list \<times> bool" where
  "add_rules takes [] = ([], True)"
| "add_rules takes (r # rs) =
     (if takes r then (let (given, ok) = add_rules takes rs in (r # given, ok)) else ([r], False))"

definition dbusMonitorAddMatchRule :: "(string \<Rightarrow> bool) \<Rightarrow> mon_error + nat \<Rightarrow> mon_error + (string list \<times> bool)" where
  "dbusMonitorAddMatchRule takes version = and_then version (\<lambda>v. Inr (add_rules takes (match_rules v)))"

section \<open>The plugin\<close>

fun setConfig :: "(string \<times> string) list \<Rightarrow> data_pool \<Rightarrow> bool \<times> data_pool" where
  "setConfig [] p = (True, p)"
| "setConfig ((key, val) # cfg) p =
     (if contains ''DBUS_BUS'' key then
        (if contains ''DBUS_BUS_SESSION'' val
         then setConfig cfg (p\<lparr> dp_observedBus := DBUS_BUS_SESSION \<rparr>)
         else if contains ''DBUS_BUS_SYSTEM'' val
         then setConfig cfg (p\<lparr> dp_observedBus := DBUS_BUS_SYSTEM \<rparr>)
         else (let (_, p') = setConfig cfg p in (False, p')))
      else setConfig cfg p)"

text \<open>\<open>SerializeToArray\<close> is the protocol buffers library; the result is what goes to the dispatcher:
  type, length and payload.\<close>

definition sendApplicationMessage ::
    "(trace_message \<Rightarrow> byte list option) \<Rightarrow> trace_message \<Rightarrow> (message_type \<times> int \<times> byte list) option" where
  "sendApplicationMessage ser tm =
     (case ser tm of
        Some payload \<Rightarrow> Some (MSG_TYPE_DBUS, int (length payload), payload)
      | None \<Rightarrow> None)"

section \<open>The maps as finite functions\<close>

lemma map_of_filter_fst: "map_of (filter (\<lambda>kv. fst kv \<noteq> k) m) = (map_of m)(k := None)"
  by (induction m) auto

lemma map_of_erase [simp]: "map_of (cmap_erase k m) = (map_of m)(k := None)"
  by (simp add: cmap_erase_def map_of_filter_fst)

lemma cmap_ok_filter [simp]: "cmap_ok m \<Longrightarrow> cmap_ok (filter P m)"
  by (induction m) (auto simp: cmap_ok_Cons)

lemma cmap_ok_erase [simp]: "cmap_ok m \<Longrightarrow> cmap_ok (cmap_erase k m)" "cmap_ok m \<Longrightarrow> cmap_ok (erase_value v m)"
  by (simp_all add: cmap_erase_def erase_value_def)

lemma map_of_erase_value:
  "cmap_ok m \<Longrightarrow> map_of (erase_value v m) k = (if map_of m k = Some v then None else map_of m k)"
proof (induction m)
  case (Cons kv m)
  have "map_of m (fst kv) = None"
    using Cons.prems by (cases kv) (force simp: cmap_ok_Cons intro: cmap_notin)
  then show ?case
    using Cons by (cases kv) (auto simp: erase_value_def cmap_ok_Cons)
qed (simp add: erase_value_def)

definition pool_ok :: "data_pool \<Rightarrow> bool" where
  "pool_ok p \<longleftrightarrow> cmap_ok (dp_names p) \<and> cmap_ok (dp_services p) \<and>
     (\<forall>n owner. map_of (dp_names p) n = Some owner \<longrightarrow> map_of (dp_services p) owner \<noteq> None)"

lemma pool_ok_new: "pool_ok new_CDataPool"
  by (simp add: pool_ok_def new_CDataPool_def)

lemma pool_ok_changed: "pool_ok p \<Longrightarrow> pool_ok (name_owner_changed bus name old new p)"
  by (auto simp: pool_ok_def name_owner_changed_def owner_appeared_def owner_vanished_def
      owner_replaced_def map_of_cmap_insert map_of_erase_value split: option.splits if_splits)

text \<open>The names after a change of ownership.\<close>

lemma names_changed:
  assumes "pool_ok p"
  shows "map_of (dp_names (name_owner_changed bus name old new p)) n =
     (if old = [] \<and> new \<noteq> []
      then (if n = name \<and> map_of (dp_names p) n = None then Some new else map_of (dp_names p) n)
      else if map_of (dp_names p) n = Some old then (if n = name \<and> (old = [] \<or> new \<noteq> []) then Some new else None)
      else if n = name \<and> map_of (dp_names p) n = None \<and> (old = [] \<or> new \<noteq> []) then Some new
      else map_of (dp_names p) n)"
  using assms
  by (auto simp: pool_ok_def name_owner_changed_def owner_appeared_def owner_vanished_def
      owner_replaced_def map_of_cmap_insert map_of_erase_value split: option.splits)

section \<open>What the daemon announces\<close>

text \<open>\<open>own\<close> is the daemon's own map from names to connections. It announces every change with the old and
  the new owner, the empty string standing for none.\<close>

type_synonym ownership = "string \<Rightarrow> string option"

definition owner_text :: "ownership \<Rightarrow> string \<Rightarrow> string" where
  "owner_text own name = (case own name of None \<Rightarrow> [] | Some c \<Rightarrow> c)"

definition owner_signal :: "string \<Rightarrow> string \<Rightarrow> string \<Rightarrow> dbus_message" where
  "owner_signal name old new =
     \<lparr> dm_type = DBUS_MESSAGE_TYPE_SIGNAL, dm_sender = Some ''org.freedesktop.DBus'',
       dm_destination = None, dm_path = Some ''/org/freedesktop/DBus'',
       dm_interface = Some ''org.freedesktop.DBus'', dm_member = Some ''NameOwnerChanged'',
       dm_error_name = None, dm_serial = 1, dm_reply_serial = 0,
       dm_args = [DString name, DString old, DString new] \<rparr>"

text \<open>A change: the name and its new owner, with the replies of the daemon at the time.\<close>

type_synonym ownership_change = "bus \<times> string \<times> string"

fun announced :: "ownership \<Rightarrow> ownership_change list \<Rightarrow> (bus \<times> dbus_message) list" where
  "announced own [] = []"
| "announced own ((bus, name, new) # cs) =
     (bus, owner_signal name (owner_text own name) new) #
       announced (own(name := (if new = [] then None else Some new))) cs"

fun ownership_after :: "ownership \<Rightarrow> ownership_change list \<Rightarrow> ownership" where
  "ownership_after own [] = own"
| "ownership_after own ((bus, name, new) # cs) =
     ownership_after (own(name := (if new = [] then None else Some new))) cs"

text \<open>A change is one: the new owner differs from the old.\<close>

fun real_changes :: "ownership \<Rightarrow> ownership_change list \<Rightarrow> bool" where
  "real_changes own [] = True"
| "real_changes own ((bus, name, new) # cs) =
     (owner_text own name \<noteq> new \<and>
      real_changes (own(name := (if new = [] then None else Some new))) cs)"

definition follow :: "(bus \<times> dbus_message) list \<Rightarrow> unit mon_op" where
  "follow ms = seqE (List.map (\<lambda>(bus, m). handleNameOwnerChangeEvent bus m) ms)"

definition names_sound :: "ownership \<Rightarrow> data_pool \<Rightarrow> bool" where
  "names_sound own p \<longleftrightarrow> (\<forall>n c. map_of (dp_names p) n = Some c \<longrightarrow> own n = Some c \<and> c \<noteq> [])"

lemma handle_owner_signal [simp]:
  "handleNameOwnerChangeEvent bus (owner_signal name old new) p = (Inr (), name_owner_changed bus name old new p)"
  by (simp add: handleNameOwnerChangeEvent_def owner_signal_def)

lemma names_sound_step:
  assumes "pool_ok p" "names_sound own p" "owner_text own name \<noteq> new"
  shows "names_sound (own(name := (if new = [] then None else Some new)))
           (name_owner_changed bus name (owner_text own name) new p)"
proof -
  let ?old = "owner_text own name"
  have sound: "map_of (dp_names p) n = Some c \<Longrightarrow> own n = Some c \<and> c \<noteq> []" for n c
    using assms(2) by (simp add: names_sound_def)
  have old: "map_of (dp_names p) name = Some c \<Longrightarrow> c = ?old" for c
    using sound by (auto simp: owner_text_def)
  show ?thesis
    unfolding names_sound_def names_changed [OF assms(1)]
    using sound old assms(3) by (cases "map_of (dp_names p) name") (auto split: if_splits)
qed

lemma follow_sound:
  assumes "pool_ok p" "names_sound own p" "real_changes own cs"
  shows "\<exists>p'. follow (announced own cs) p = (Inr (), p') \<and> pool_ok p' \<and>
           names_sound (ownership_after own cs) p'"
  using assms
proof (induction own cs arbitrary: p rule: ownership_after.induct)
  case (2 own bus name new cs)
  let ?p = "name_owner_changed bus name (owner_text own name) new p"
  have "names_sound (own(name := (if new = [] then None else Some new))) ?p"
    using "2.prems" by (intro names_sound_step) auto
  then show ?case
    using "2.IH" [of ?p] pool_ok_changed [OF "2.prems"(1)] "2.prems"(3)
    by (simp add: follow_def thenE_def bindE_def del: fun_upd_apply split del: if_split)
qed (simp add: follow_def)

text \<open>The daemon's replies when the pool is filled: a listed name is a connection's own or has an owner
  that it reports.\<close>

definition truthful :: "bus \<Rightarrow> ownership \<Rightarrow> bool" where
  "truthful bus own \<longleftrightarrow> (\<forall>n \<in> set (dbusListNames bus). n \<noteq> [] \<and>
     (if hd n = CHR '':'' then own n = Some n
      else (\<exists>c rest. c \<noteq> [] \<and> own n = Some c \<and> bus ''GetNameOwner'' (Some n) = Some (DString c # rest))))"

lemma insertService_ok:
  assumes "pool_ok p" "names_sound own p" "dbusGetNameOwner bus n = Inr c" "own n = Some c" "c \<noteq> []"
  shows "\<exists>p'. insertService bus n p = (Inr True, p') \<and> pool_ok p' \<and> names_sound own p'"
  using assms
  by (auto simp: insertService_def Let_def pool_ok_def names_sound_def map_of_cmap_insert
      map_of_cmap_assign split: option.splits)

lemma truthful_owner:
  assumes "truthful bus own" "n \<in> set (dbusListNames bus)"
  shows "\<exists>c. dbusGetNameOwner bus n = Inr c \<and> own n = Some c \<and> c \<noteq> []"
proof -
  have n: "n \<noteq> []" "if hd n = CHR '':'' then own n = Some n
      else \<exists>c rest. c \<noteq> [] \<and> own n = Some c \<and> bus ''GetNameOwner'' (Some n) = Some (DString c # rest)"
    using assms by (auto simp: truthful_def)
  then have "isNotUniqueConnID n = Inr (hd n \<noteq> CHR '':'')"
    by (cases n) (auto simp: isNotUniqueConnID_def)
  then show ?thesis
    using n by (cases "hd n = CHR '':''") (auto simp: dbusGetNameOwner_def)
qed

lemma populate_ok:
  assumes "pool_ok p" "names_sound own p" "truthful bus own"
  shows "\<exists>p'. populateDataPool bus p = (Inr False, p') \<and> pool_ok p' \<and> names_sound own p'"
proof -
  have "\<exists>p'. seqE (List.map (\<lambda>name. thenE (insertService bus name) (returnE ())) ns) p = (Inr (), p') \<and>
          pool_ok p' \<and> names_sound own p'" if "set ns \<subseteq> set (dbusListNames bus)" for ns
    using assms(1,2) that
  proof (induction ns arbitrary: p)
    case (Cons n ns)
    obtain c where "dbusGetNameOwner bus n = Inr c" "own n = Some c" "c \<noteq> []"
      using truthful_owner [OF assms(3), of n] Cons.prems(3) by auto
    then obtain p1 where "insertService bus n p = (Inr True, p1)" "pool_ok p1" "names_sound own p1"
      using insertService_ok Cons.prems by blast
    then show ?case
      using Cons.IH [of p1] Cons.prems(3) by (auto simp: thenE_def bindE_def)
  qed simp
  then obtain p' where "seqE (List.map (\<lambda>name. thenE (insertService bus name) (returnE ())) (dbusListNames bus)) p
      = (Inr (), p')" "pool_ok p'" "names_sound own p'"
    by blast
  then show ?thesis
    by (simp add: populateDataPool_def)
qed

section \<open>The queue keeps its contract\<close>

interpretation dq: send_queue pushMessageToQueue popMessageFromQueue dp_queue "\<lambda>_. False"
  by unfold_locales (auto simp: pushMessageToQueue_def popMessageFromQueue_def)

section \<open>Properties\<close>

text \<open>C39: The monitor never believes in a wrong owner. If the daemon answers truthfully while the pool is
  filled, then after any sequence of ownership changes it announces, filling and following succeed,
  every name the pool resolves is resolved to the connection that owns it on the bus at that time, and
  every such connection has an entry with its process and user.\<close>

theorem pool_names_sound:
  assumes "truthful bus0 own" "real_changes own cs"
  shows "\<exists>p p'. populateDataPool bus0 new_CDataPool = (Inr False, p) \<and>
           follow (announced own cs) p = (Inr (), p') \<and>
           (\<forall>n c. getUniqueConnectionName p' n = Some c \<longrightarrow>
              ownership_after own cs n = Some c \<and> map_of (dp_services p') c \<noteq> None)"
proof -
  have "names_sound own new_CDataPool"
    by (simp add: names_sound_def new_CDataPool_def)
  then obtain p where p: "populateDataPool bus0 new_CDataPool = (Inr False, p)" "pool_ok p" "names_sound own p"
    using populate_ok [OF pool_ok_new _ assms(1)] by blast
  then show ?thesis
    using follow_sound [OF p(2,3) assms(2)]
    by (auto simp: getUniqueConnectionName_def pool_ok_def names_sound_def)
qed

definition sample_bus :: bus where
  "sample_bus method arg =
     (if method = ''ListNames'' then Some [DArray ''s'' [DString '':1'', DString ''n'']]
      else if method = ''GetNameOwner'' then Some [DString '':1'']
      else Some [DUInt32 7])"

theorem pool_names_sound_witness:
  "\<exists>p p'. populateDataPool sample_bus new_CDataPool = (Inr False, p) \<and>
     follow (announced [''n'' \<mapsto> '':1'', '':1'' \<mapsto> '':1''] [(sample_bus, ''n'', '':2'')]) p = (Inr (), p') \<and>
     (\<forall>c. getUniqueConnectionName p' ''n'' = Some c \<longrightarrow> c = '':2'')"
proof -
  have "truthful sample_bus [''n'' \<mapsto> '':1'', '':1'' \<mapsto> '':1'']"
    by (simp add: truthful_def dbusListNames_def parseListNamesReply_def sample_bus_def)
  moreover have "real_changes [''n'' \<mapsto> '':1'', '':1'' \<mapsto> '':1''] [(sample_bus, ''n'', '':2'')]"
    by (simp add: owner_text_def)
  ultimately show ?thesis
    using pool_names_sound [of sample_bus "[''n'' \<mapsto> '':1'', '':1'' \<mapsto> '':1'']"
        "[(sample_bus, ''n'', '':2'')]"] by fastforce
qed

text \<open>Releasing one name makes the monitor forget the connection. When a connection that stays on the
  bus gives up one of its names, every name of that connection disappears from the pool together with
  its entry (names of other connections stay), so that messages it still sends and receives are
  recorded without process, user and aliases.\<close>

theorem release_forgets_connection:
  assumes "pool_ok p" "map_of (dp_names p) n2 = Some c" "c \<noteq> []"
    and "n2 \<noteq> name"
    and "dm_sender msg = Some c" "dm_destination msg = Some n2" "dm_type msg = DBUS_MESSAGE_TYPE_METHOD_CALL"
    and "dm_path msg = Some path" "dm_member msg = Some member"
  shows "\<exists>p' h. handleNameOwnerChangeEvent bus (owner_signal name c []) p = (Inr (), p') \<and>
           getUniqueConnectionName p' n2 = None \<and> map_of (dp_services p') c = None \<and>
           (\<forall>n d. getUniqueConnectionName p n = Some d \<and> d \<noteq> c \<longrightarrow> getUniqueConnectionName p' n = Some d) \<and>
           createDbusMessageHeader p' msg serial empty_header = Inr h \<and>
           dh_sender_pid h = None \<and> dh_receiver_pid h = None \<and> dh_sender_alias_names h = []"
proof -
  let ?p = "name_owner_changed bus name c [] p"
  have "map_of (dp_names ?p) n = (if map_of (dp_names p) n = Some c then None else map_of (dp_names p) n)" for n
    using assms(3) by (simp add: names_changed [OF assms(1)])
  moreover have "map_of (dp_services ?p) c = None"
    using assms(3) by (simp add: name_owner_changed_def owner_vanished_def)
  ultimately show ?thesis
    using assms(2,5-9)
    by (simp add: getUniqueConnectionName_def createDbusMessageHeader_def with_sender_def with_receiver_def
        c_str_def and_then_def populateSenderInfo_def empty_header_def)
qed

definition sample_pool :: data_pool where
  "sample_pool = new_CDataPool
     \<lparr> dp_names := [('':1'', '':1''), (''n'', '':1'')],
       dp_services := [('':1'', \<lparr> aliaslist = ['':1'', ''n''], svc_pid = 7, svc_user = 8 \<rparr>)] \<rparr>"

definition sample_call :: dbus_message where
  "sample_call =
     \<lparr> dm_type = DBUS_MESSAGE_TYPE_METHOD_CALL, dm_sender = Some '':1'', dm_destination = Some '':1'',
       dm_path = Some ''/'', dm_interface = Some ''i'', dm_member = Some ''m'', dm_error_name = Some ''e'',
       dm_serial = 5, dm_reply_serial = 0, dm_args = [DByte 1] \<rparr>"

lemma sample_pool_ok: "pool_ok sample_pool"
  by (auto simp: pool_ok_def sample_pool_def new_CDataPool_def cmap_ok_Cons)

theorem release_forgets_connection_witness:
  "\<exists>p' h. handleNameOwnerChangeEvent sample_bus (owner_signal ''n'' '':1'' []) sample_pool = (Inr (), p') \<and>
     getUniqueConnectionName p' '':1'' = None \<and>
     createDbusMessageHeader p' sample_call 5 empty_header = Inr h \<and> dh_sender_pid h = None"
proof -
  have "map_of (dp_names sample_pool) '':1'' = Some '':1''"
    by (simp add: sample_pool_def)
  then show ?thesis
    using release_forgets_connection [OF sample_pool_ok, of "'':1''" "'':1''" "''n''" sample_call "''/''" "''m''"
        sample_bus 5] by (auto simp: sample_call_def)
qed

text \<open>Who talks to whom. For a message with all its header fields, whatever its type, building the
  header succeeds; sender and receiver are recorded as the message names them; process, user and
  aliases of the sender are those of its connection in the pool, those of the receiver are the ones of
  the connection its name resolves to, so that the receiver's process is known exactly when its name
  resolves; and a connection is never listed as its own alias.\<close>

theorem header_resolution:
  assumes "pool_ok p" "dm_type msg \<noteq> DBUS_MESSAGE_TYPE_INVALID"
    and "dm_sender msg = Some s" "dm_destination msg = Some d" "dm_path msg = Some path"
    and "dm_interface msg = Some i" "dm_member msg = Some mem" "dm_error_name msg = Some err"
  shows "\<exists>h. createDbusMessageHeader p msg serial empty_header = Inr h \<and>
           dh_sender h = Some s \<and> dh_receiver h = Some d \<and>
           dh_sender_pid h = map_option svc_pid (map_of (dp_services p) s) \<and>
           dh_sender_user_id h = map_option svc_user (map_of (dp_services p) s) \<and>
           dh_sender_alias_names h = (case map_of (dp_services p) s of None \<Rightarrow> [] | Some v \<Rightarrow> other_names s v) \<and>
           (dh_receiver_pid h = None \<longleftrightarrow> getUniqueConnectionName p d = None) \<and>
           (\<forall>c. getUniqueConnectionName p d = Some c \<longrightarrow>
              dh_receiver_pid h = map_option svc_pid (map_of (dp_services p) c) \<and>
              dh_receiver_user_id h = map_option svc_user (map_of (dp_services p) c)) \<and>
           s \<notin> set (dh_sender_alias_names h)"
proof -
  have closed: "map_of (dp_services p) c \<noteq> None" if "map_of (dp_names p) d = Some c" for c
    using assms(1) that by (auto simp: pool_ok_def)
  show ?thesis
    using assms(2-8) closed
    by (cases "dm_type msg")
      (auto simp: createDbusMessageHeader_def with_sender_def with_receiver_def c_str_def and_then_def
        populateSenderInfo_def populateReceiverInfo_def empty_header_def getUniqueConnectionName_def
        other_names_def split: option.splits)
qed

theorem header_resolution_witness:
  "\<exists>h. createDbusMessageHeader sample_pool sample_call 5 empty_header = Inr h \<and>
     dh_sender_pid h = Some 7 \<and> dh_receiver_pid h = Some 7 \<and> dh_sender_alias_names h = [''n'']"
proof -
  have "dm_type sample_call \<noteq> DBUS_MESSAGE_TYPE_INVALID" "dm_sender sample_call = Some '':1''"
    "dm_destination sample_call = Some '':1''" "dm_path sample_call = Some ''/''"
    "dm_interface sample_call = Some ''i''" "dm_member sample_call = Some ''m''"
    "dm_error_name sample_call = Some ''e''"
    by (simp_all add: sample_call_def)
  then show ?thesis
    using header_resolution [OF sample_pool_ok, of sample_call "'':1''" "'':1''" "''/''" "''i''" "''m''" "''e''" 5]
    by (auto simp: sample_pool_def getUniqueConnectionName_def other_names_def)
qed

section \<open>The consumer handles every message\<close>

text \<open>A message with all its fields and a payload that fits the consumer's variables.\<close>

definition complete :: "dbus_message \<Rightarrow> bool" where
  "complete m \<longleftrightarrow> dm_sender m \<noteq> None \<and> dm_destination m \<noteq> None \<and> dm_path m \<noteq> None \<and>
     dm_interface m \<noteq> None \<and> dm_member m \<noteq> None \<and> dm_error_name m \<noteq> None \<and>
     (case createTraceMessagePayload (dm_args m) of Inl _ \<Rightarrow> False | Inr _ \<Rightarrow> True)"

definition records :: "dbus_message \<Rightarrow> trace_message \<Rightarrow> bool" where
  "records m tm \<longleftrightarrow> Inr (tm_payload tm) = createTraceMessagePayload (dm_args m) \<and>
     (dm_type m \<noteq> DBUS_MESSAGE_TYPE_INVALID \<longrightarrow>
        dh_sender (tm_header tm) = dm_sender m \<and> dh_receiver (tm_header tm) = dm_destination m)"

lemma dbus2proto_complete:
  assumes "complete m"
  shows "\<exists>tm. dbus2proto p m serial = Inr tm \<and> records m tm"
  using assms
  by (cases "dm_type m")
    (auto simp: dbus2proto_def complete_def records_def createDbusMessageHeader_def with_sender_def
      with_receiver_def c_str_def and_then_def populateSenderInfo_def populateReceiverInfo_def
      split: option.splits sum.splits)

lemma changed_queue [simp]:
  "dp_queue (name_owner_changed bus name old new p) = dp_queue p"
  "dp_available (name_owner_changed bus name old new p) = dp_available p"
  by (simp_all add: name_owner_changed_def owner_appeared_def owner_vanished_def owner_replaced_def)

lemma handle_complete:
  assumes "complete m"
  shows "\<exists>p'. handleNameOwnerChangeEvent bus m p = (Inr (), p') \<and> dp_queue p' = dp_queue p \<and>
           dp_available p' = dp_available p"
  using assms
  by (auto simp: handleNameOwnerChangeEvent_def complete_def split: list.splits dbus_value.splits)

lemma pass_complete:
  assumes "dp_queue p = new_DbusMessageEntry m # es" "dp_available p" "complete m"
  shows "\<exists>tm p'. consumer_pass bus p = (Inr (Some tm), p') \<and> records m tm \<and> dp_queue p' = es \<and>
           dp_available p' = (es \<noteq> [])"
proof -
  let ?p1 = "p\<lparr> dp_queue := es \<rparr>"
  obtain p2 where p2: "handleNameOwnerChangeEvent bus m ?p1 = (Inr (), p2)" "dp_queue p2 = es"
      "dp_available p2"
    using handle_complete [OF assms(3), of bus ?p1] assms(2) by auto
  obtain tm where "dbus2proto p2 m (de_serial (new_DbusMessageEntry m)) = Inr tm" "records m tm"
    using dbus2proto_complete [OF assms(3)] by blast
  then show ?thesis
    using assms(1) p2 by (simp add: consumer_pass_def popMessageFromQueue_def bindE_def
        updateMessageAvailableFlag_def new_DbusMessageEntry_def)
qed

lemma turns_complete:
  assumes "dp_queue p = List.map new_DbusMessageEntry ms" "dp_available p = (ms \<noteq> [])"
    and "\<forall>m \<in> set ms. complete m" "length buses = length ms"
  shows "\<exists>tms p'. consumer_turns buses p = (Inr tms, p') \<and> list_all2 records ms tms \<and>
           dp_queue p' = [] \<and> \<not> dp_available p'"
  using assms
proof (induction ms arbitrary: p buses)
  case (Cons m ms)
  obtain bus bs where b: "buses = bus # bs" "length bs = length ms"
    using Cons.prems(4) by (cases buses) auto
  obtain tm p1 where p1: "consumer_pass bus p = (Inr (Some tm), p1)" "records m tm"
      "dp_queue p1 = List.map new_DbusMessageEntry ms" "dp_available p1 = (ms \<noteq> [])"
    using pass_complete [of p m "List.map new_DbusMessageEntry ms" bus] Cons.prems by auto
  then obtain tms p2 where "consumer_turns bs p1 = (Inr tms, p2)" "list_all2 records ms tms"
      "dp_queue p2 = []" "\<not> dp_available p2"
    using Cons.IH [of p1 bs] Cons.prems(3) b(2) by auto
  then show ?case
    using p1 Cons.prems(2) b(1) by (auto simp: bindE_def)
qed simp

lemma handled_queue:
  assumes "dp_available p = (dp_queue p \<noteq> [])"
  shows "dp_queue (fold (\<lambda>m. handleDbusMessage (Some m)) ms p) = dp_queue p @ List.map new_DbusMessageEntry ms \<and>
    dp_available (fold (\<lambda>m. handleDbusMessage (Some m)) ms p) = (dp_queue p \<noteq> [] \<or> ms \<noteq> [])"
  using assms
proof (induction ms arbitrary: p)
  case (Cons m ms)
  have "dp_queue (handleDbusMessage (Some m) p) = dp_queue p @ [new_DbusMessageEntry m]"
    "dp_available (handleDbusMessage (Some m) p)"
    by (auto simp: handleDbusMessage_def notifyMessagesAvailable_def pushMessageToQueue_def)
  then show ?case
    using Cons.IH [of "handleDbusMessage (Some m) p"] by simp
qed simp

text \<open>Every message the producer sees is recorded, in order. When libdbus hands messages with all
  their fields to the producer while the consumer is idle, then within one turn per message the
  consumer hands on exactly one trace message for each, in the order of the bus, with its arguments and
  the sender and receiver it names, and goes back to waiting with an empty queue.\<close>

theorem consumer_records_all:
  assumes "\<forall>m \<in> set ms. complete m" "length buses = length ms" "dp_queue p = []" "\<not> dp_available p"
  shows "\<exists>tms p'. consumer_turns buses (fold (\<lambda>m. handleDbusMessage (Some m)) ms p) = (Inr tms, p') \<and>
           list_all2 records ms tms \<and> dp_queue p' = [] \<and> \<not> dp_available p'"
  using turns_complete [of "fold (\<lambda>m. handleDbusMessage (Some m)) ms p" ms buses] handled_queue [of p ms] assms
  by simp

theorem consumer_records_all_witness:
  "\<exists>tms p'. consumer_turns [sample_bus, sample_bus]
       (fold (\<lambda>m. handleDbusMessage (Some m)) [sample_call, sample_call] new_CDataPool) = (Inr tms, p') \<and>
     length tms = 2"
proof -
  have "complete sample_call"
    by (simp add: complete_def sample_call_def parse_basic_def)
  then show ?thesis
    using consumer_records_all [of "[sample_call, sample_call]" "[sample_bus, sample_bus]" new_CDataPool]
    by (fastforce simp: new_CDataPool_def dest: list_all2_lengthD)
qed

section \<open>Stopping\<close>

text \<open>\<^verbatim>\<open>CDBusHandler::stop\<close> in its own thread: it announces messages, then asks the consumer to stop,
  then waits for it. The consumer blocks in the wait for messages, makes a pass, and tests the request.
  The producer may hand over a message at any time.\<close>

datatype stopper_pc = BeforeNotify | BeforeRequest | AwaitingExit | Stopped

datatype consumer_pc = InWait | Woken | AtTest | Exited

record stop_state =
  st_pool :: data_pool
  st_requested :: bool
  st_stopper :: stopper_pc
  st_consumer :: consumer_pc

inductive stop_step :: "stop_state \<Rightarrow> stop_state \<Rightarrow> bool" where
  notify: "st_stopper s = BeforeNotify \<Longrightarrow>
    stop_step s (s\<lparr> st_pool := notifyMessagesAvailable (st_pool s), st_stopper := BeforeRequest \<rparr>)"
| request: "st_stopper s = BeforeRequest \<Longrightarrow>
    stop_step s (s\<lparr> st_requested := True, st_stopper := AwaitingExit \<rparr>)"
| exited: "st_stopper s = AwaitingExit \<Longrightarrow> st_consumer s = Exited \<Longrightarrow>
    stop_step s (s\<lparr> st_stopper := Stopped \<rparr>)"
| wake: "st_consumer s = InWait \<Longrightarrow> dp_available (st_pool s) \<Longrightarrow>
    stop_step s (s\<lparr> st_consumer := Woken \<rparr>)"
| pass: "st_consumer s = Woken \<Longrightarrow> consumer_pass bus (st_pool s) = (Inr r, p') \<Longrightarrow>
    stop_step s (s\<lparr> st_pool := p', st_consumer := AtTest \<rparr>)"
| test: "st_consumer s = AtTest \<Longrightarrow>
    stop_step s (s\<lparr> st_consumer := (if st_requested s then Exited else InWait) \<rparr>)"
| message: "stop_step s (s\<lparr> st_pool := handleDbusMessage (Some m) (st_pool s) \<rparr>)"

inductive_cases stop_stepE: "stop_step s s'"

definition stop_start :: stop_state where
  "stop_start = \<lparr> st_pool = new_CDataPool, st_requested = False, st_stopper = BeforeNotify,
     st_consumer = InWait \<rparr>"

definition stop_hung :: stop_state where
  "stop_hung = \<lparr> st_pool = new_CDataPool, st_requested = True, st_stopper = AwaitingExit,
     st_consumer = InWait \<rparr>"

lemma stop_hung_reachable: "stop_step\<^sup>*\<^sup>* stop_start stop_hung"
proof -
  let ?p = "new_CDataPool\<lparr> dp_available := True \<rparr>"
  let ?s1 = "stop_start\<lparr> st_pool := ?p, st_stopper := BeforeRequest \<rparr>"
  let ?s2 = "?s1\<lparr> st_consumer := Woken \<rparr>"
  let ?s3 = "?s2\<lparr> st_pool := new_CDataPool, st_consumer := AtTest \<rparr>"
  let ?s4 = "?s3\<lparr> st_consumer := InWait \<rparr>"
  have "stop_step stop_start ?s1"
    using stop_step.notify [of stop_start]
    by (simp add: stop_start_def notifyMessagesAvailable_def new_CDataPool_def)
  moreover have "stop_step ?s1 ?s2"
    using stop_step.wake [of ?s1] by (simp add: stop_start_def)
  moreover have "consumer_pass (\<lambda>_ _. None) ?p = (Inr None, new_CDataPool)"
    by (simp add: consumer_pass_def popMessageFromQueue_def updateMessageAvailableFlag_def new_CDataPool_def)
  then have "stop_step ?s2 ?s3"
    using stop_step.pass [of ?s2 "\<lambda>_ _. None" None new_CDataPool] by (simp add: stop_start_def)
  moreover have "stop_step ?s3 ?s4"
    using stop_step.test [of ?s3] by (simp add: stop_start_def)
  moreover have "stop_step ?s4 stop_hung"
    using stop_step.request [of ?s4] by (simp add: stop_start_def stop_hung_def)
  ultimately show ?thesis
    by (meson converse_rtranclp_into_rtranclp rtranclp.rtrancl_refl)
qed

text \<open>C40: Stopping the plugin can hang. The announcement that should wake the consumer comes before the
  request to stop; when the consumer wakes, finds nothing and tests the request in between, it goes back
  to waiting. A state is reachable in which the stopper waits for the consumer and the consumer for a
  message, and only another message on the bus could change it.\<close>

theorem stop_can_hang:
  "\<exists>s. stop_step\<^sup>*\<^sup>* stop_start s \<and> st_requested s \<and> st_stopper s = AwaitingExit \<and> st_consumer s = InWait \<and>
     {s'. stop_step s s'} = {s\<lparr> st_pool := handleDbusMessage (Some m) (st_pool s) \<rparr> |m. True}"
proof -
  have "stop_step stop_hung s' \<Longrightarrow> \<exists>m. s' = stop_hung\<lparr> st_pool := handleDbusMessage (Some m) (st_pool stop_hung) \<rparr>"
    for s'
    by (auto elim!: stop_stepE simp: stop_hung_def new_CDataPool_def)
  then have "{s'. stop_step stop_hung s'} =
      {stop_hung\<lparr> st_pool := handleDbusMessage (Some m) (st_pool stop_hung) \<rparr> |m. True}"
    using stop_step.message [of stop_hung] by blast
  then show ?thesis
    using stop_hung_reachable by (intro exI [of _ stop_hung]) (simp add: stop_hung_def)
qed

end
