(* ===== verification/DbusCmdCtrl.thy ===== *)
theory DbusCmdCtrl
  imports DbusValues
begin

text \<open>
  The D-Bus command plugin (\<^verbatim>\<open>dbusCmdCtrl-plugin/src/dbusCmdCtrl_plugin.cpp\<close>): it rebuilds the
  method call that a client sends in the format in which the D-Bus monitor records one, and sends it on
  the session bus. What it does to libdbus's message is a list of calls: appending a basic value, opening
  and closing a container. The text parser of the protocol buffers library, whether libdbus accepts the
  addresses of the call, and what the characters of a destroyed temporary read as are parameters.
\<close>

section \<open>State\<close>

datatype dbus_call =
    AppendBasic dbus_value
  | OpenContainer char "string option"
  | CloseContainer

datatype cmd_error = EmptyComposite

record cmd_plugin =
  dbusmsg_signature :: string
  cp_calls :: "dbus_call list"

record method_call =
  mc_receiver :: string
  mc_path :: string
  mc_interface :: string
  mc_member :: string
  mc_signature :: string
  mc_params :: "payload_item list"

type_synonym 'a cmd_op = "(cmd_error, cmd_plugin, 'a) op"

section \<open>Operations\<close>

definition modifySignature :: "cmd_plugin \<Rightarrow> cmd_plugin" where
  "modifySignature p =
     (if CHR ''a'' \<in> set (dbusmsg_signature p)
      then p\<lparr> dbusmsg_signature := tl (dbusmsg_signature p) \<rparr> else p)"

definition dbus_append :: "dbus_call \<Rightarrow> cmd_plugin \<Rightarrow> cmd_plugin" where
  "dbus_append c p = p\<lparr> cp_calls := cp_calls p @ [c] \<rparr>"

text \<open>The basic types: each reads its field into a variable of its own width. A byte goes through a 32-bit
  variable whose first byte is appended.\<close>

definition basic_value :: "payload_item \<Rightarrow> dbus_value option" where
  "basic_value item =
     (case item_type item of
        DBUS_MSG_PARAM_TYPE_BYTE \<Rightarrow> Some (DByte (ucast (ucast (int_val item) :: u32)))
      | DBUS_MSG_PARAM_TYPE_BOOLEAN \<Rightarrow> Some (DBoolean (ucast (int_val item)))
      | DBUS_MSG_PARAM_TYPE_INT16 \<Rightarrow> Some (DInt16 (ucast (int_val item)))
      | DBUS_MSG_PARAM_TYPE_INT64 \<Rightarrow> Some (DInt64 (int_val item))
      | DBUS_MSG_PARAM_TYPE_INT32 \<Rightarrow> Some (DInt32 (ucast (int_val item)))
      | DBUS_MSG_PARAM_TYPE_UINT16 \<Rightarrow> Some (DUInt16 (ucast (uint_val item)))
      | DBUS_MSG_PARAM_TYPE_UINT32 \<Rightarrow> Some (DUInt32 (ucast (uint_val item)))
      | DBUS_MSG_PARAM_TYPE_UINT64 \<Rightarrow> Some (DUInt64 (uint_val item))
      | DBUS_MSG_PARAM_TYPE_DOUBLE \<Rightarrow> Some (DDouble (double_val item))
      | DBUS_MSG_PARAM_TYPE_STRING \<Rightarrow> Some (DString (c_string (str_val item)))
      | DBUS_MSG_PARAM_TYPE_SIGNATURE \<Rightarrow> Some (DSignature (c_string (str_val item)))
      | DBUS_MSG_PARAM_TYPE_OBJ_PATH \<Rightarrow> Some (DObjectPath (c_string (str_val item)))
      | _ \<Rightarrow> None)"

definition appendPrimitiveDataTypetoDbus :: "payload_item \<Rightarrow> bool cmd_op" where
  "appendPrimitiveDataTypetoDbus item =
     (case basic_value item of
        Some v \<Rightarrow> thenE (modifyE (dbus_append (AppendBasic v))) (returnE True)
      | None \<Rightarrow> returnE False)"

definition getSignatureType :: "payload_item \<Rightarrow> string" where
  "getSignatureType item =
     (case item_type item of
        DBUS_MSG_PARAM_TYPE_BYTE \<Rightarrow> ''y''
      | DBUS_MSG_PARAM_TYPE_BOOLEAN \<Rightarrow> ''b''
      | DBUS_MSG_PARAM_TYPE_INT16 \<Rightarrow> ''n''
      | DBUS_MSG_PARAM_TYPE_INT64 \<Rightarrow> ''x''
      | DBUS_MSG_PARAM_TYPE_INT32 \<Rightarrow> ''i''
      | DBUS_MSG_PARAM_TYPE_UINT16 \<Rightarrow> ''q''
      | DBUS_MSG_PARAM_TYPE_UINT32 \<Rightarrow> ''u''
      | DBUS_MSG_PARAM_TYPE_UINT64 \<Rightarrow> ''t''
      | DBUS_MSG_PARAM_TYPE_DOUBLE \<Rightarrow> ''d''
      | DBUS_MSG_PARAM_TYPE_STRING \<Rightarrow> ''s''
      | DBUS_MSG_PARAM_TYPE_SIGNATURE \<Rightarrow> ''g''
      | DBUS_MSG_PARAM_TYPE_OBJ_PATH \<Rightarrow> ''o''
      | _ \<Rightarrow> [])"

text \<open>The containers; \<open>body\<close> translates the contents. The signature of a variant is read through a pointer
  into a string that has been destroyed: \<open>stale\<close> is what is found there.\<close>

definition in_container :: "char \<Rightarrow> string option \<Rightarrow> unit cmd_op \<Rightarrow> unit cmd_op" where
  "in_container t cs body =
     thenE (modifyE (dbus_append (OpenContainer t cs)))
       (thenE body (modifyE (dbus_append CloseContainer)))"

definition appendDicttoDbusMsg :: "unit cmd_op \<Rightarrow> unit cmd_op" where
  "appendDicttoDbusMsg body = in_container CHR ''e'' None body"

definition appendVarianttoDbusMsg ::
    "(string \<Rightarrow> string) \<Rightarrow> payload_item list \<Rightarrow> unit cmd_op \<Rightarrow> unit cmd_op" where
  "appendVarianttoDbusMsg stale subs body =
     (case subs of
        [] \<Rightarrow> throwE EmptyComposite
      | item # _ \<Rightarrow> in_container CHR ''v'' (Some (stale (getSignatureType item))) body)"

definition appendArraytoDbusMsg :: "unit cmd_op \<Rightarrow> unit cmd_op" where
  "appendArraytoDbusMsg body =
     (\<lambda>p. in_container CHR ''a'' (Some (dbusmsg_signature p)) body p)"

definition appendStructtoDbusMsg :: "unit cmd_op \<Rightarrow> unit cmd_op" where
  "appendStructtoDbusMsg body = in_container CHR ''r'' None body"

definition appendComplexDataTypetoDbus ::
    "(string \<Rightarrow> string) \<Rightarrow> payload_item \<Rightarrow> unit cmd_op \<Rightarrow> bool cmd_op" where
  "appendComplexDataTypetoDbus stale item body =
     (case item_type item of
        DBUS_MSG_PARAM_TYPE_STRUCT \<Rightarrow> thenE (appendStructtoDbusMsg body) (returnE True)
      | DBUS_MSG_PARAM_TYPE_ARRAY \<Rightarrow> thenE (appendArraytoDbusMsg body) (returnE True)
      | DBUS_MSG_PARAM_TYPE_VARIANT \<Rightarrow>
          thenE (appendVarianttoDbusMsg stale (composite_val item) body) (returnE True)
      | DBUS_MSG_PARAM_TYPE_DICT_ENTRY \<Rightarrow> thenE (appendDicttoDbusMsg body) (returnE True)
      | _ \<Rightarrow> returnE False)"

fun prototoDbusTranslation :: "(string \<Rightarrow> string) \<Rightarrow> payload_item \<Rightarrow> unit cmd_op"
  and translate_params :: "(string \<Rightarrow> string) \<Rightarrow> payload_item list \<Rightarrow> unit cmd_op" where
  "prototoDbusTranslation stale (PayloadItem t i u d s subs) =
     thenE (modifyE modifySignature)
       (bindE (appendPrimitiveDataTypetoDbus (PayloadItem t i u d s subs)) (\<lambda>added.
          if added then returnE ()
          else thenE (appendComplexDataTypetoDbus stale (PayloadItem t i u d s subs)
                        (translate_params stale subs)) (returnE ())))"
| "translate_params stale [] = returnE ()"
| "translate_params stale (item # items) =
     thenE (prototoDbusTranslation stale item) (translate_params stale items)"

text \<open>The call as it goes to the bus: the four addresses and the calls that fill it in. When libdbus
  refuses an address nothing is sent.\<close>

definition sendDbusMessage ::
    "(string \<Rightarrow> string) \<Rightarrow> (string \<times> string \<times> string \<times> string \<Rightarrow> bool) \<Rightarrow> method_call \<Rightarrow> cmd_plugin
       \<Rightarrow> (cmd_error + ((string \<times> string \<times> string \<times> string) \<times> dbus_call list) option) \<times> cmd_plugin" where
  "sendDbusMessage stale accepts m p =
     (let adr = (c_string (mc_receiver m), c_string (mc_path m), c_string (mc_interface m),
                 c_string (mc_member m));
          p1 = p\<lparr> dbusmsg_signature := mc_signature m, cp_calls := [] \<rparr> in
      if accepts adr then
        bindE (translate_params stale (mc_params m))
          (\<lambda>_ p2. (Inr (Some (adr, cp_calls p2)), p2)) p1
      else (Inr None, p1))"

definition onMessageReceived ::
    "(string \<Rightarrow> string) \<Rightarrow> (string \<times> string \<times> string \<times> string \<Rightarrow> bool)
       \<Rightarrow> (string \<Rightarrow> method_call option) \<Rightarrow> int \<Rightarrow> string \<Rightarrow> cmd_plugin
       \<Rightarrow> (cmd_error + ((string \<times> string \<times> string \<times> string) \<times> dbus_call list) option) \<times> cmd_plugin" where
  "onMessageReceived stale accepts ParseFromString payloadLength payload p =
     (case ParseFromString (memcpy_read (nat payloadLength) payload) of
        Some m \<Rightarrow> sendDbusMessage stale accepts m p
      | None \<Rightarrow> (Inr None, p))"

section \<open>What the calls should be\<close>

text \<open>The calls that build a value: the signature of an array or a variant is that of its contents.\<close>

fun calls_of :: "dbus_value \<Rightarrow> dbus_call list"
  and calls_of_all :: "dbus_value list \<Rightarrow> dbus_call list" where
  "calls_of (DArray es vs) =
     OpenContainer CHR ''a'' (Some es) # calls_of_all vs @ [CloseContainer]"
| "calls_of (DStruct vs) = OpenContainer CHR ''r'' None # calls_of_all vs @ [CloseContainer]"
| "calls_of (DVariant vs) =
     OpenContainer CHR ''v'' (Some (type_sigs vs)) # calls_of_all vs @ [CloseContainer]"
| "calls_of (DDictEntry vs) = OpenContainer CHR ''e'' None # calls_of_all vs @ [CloseContainer]"
| "calls_of v = [AppendBasic v]"
| "calls_of_all [] = []"
| "calls_of_all (v # vs) = calls_of v @ calls_of_all vs"

lemma calls_of_all_append [simp]: "calls_of_all (vs @ ws) = calls_of_all vs @ calls_of_all ws"
  by (induction vs) auto

lemma calls_of_narrow: "narrow v \<Longrightarrow> calls_of v = [AppendBasic v]"
  by (cases v) auto

section \<open>One argument\<close>

text \<open>A basic value survives the trip through the payload item.\<close>

lemma widened_signed [simp]: "ucast (scast (w :: u32) :: u64) = w"
proof (rule bit_word_eqI)
  fix n
  assume "n < LENGTH(32)"
  then show "bit (ucast (scast w :: u64) :: u32) n \<longleftrightarrow> bit w n"
    by (cases "n = 31") (auto simp: bit_simps)
qed

lemma widened_back [simp]:
  "ucast (ucast (w :: u32) :: u64) = w"
  "ucast (scast (ucast (h :: 16 word) :: u32) :: u64) = h"
  "ucast (ucast (ucast (h :: 16 word) :: u32) :: u64) = h"
  "ucast (ucast (b :: byte) :: u32) = b"
  by (rule bit_word_eqI; auto simp: bit_simps min_def)+

lemma parse_narrow:
  assumes "narrow v" "well_typed v"
  shows "\<exists>item. parsePayloadItem v = Inr item \<and> basic_value item = Some v \<and>
           getSignatureType item = type_sig v \<and> composite_val item = []"
  using assms
  by (cases v) (auto simp: parse_basic_def Let_def dbusType2ProtoType_def basic_value_def
      getSignatureType_def)

lemma translate_basic:
  assumes "basic_value item = Some v"
  shows "prototoDbusTranslation stale item p = (Inr (), dbus_append (AppendBasic v) (modifySignature p))"
  using assms by (cases item) (simp add: appendPrimitiveDataTypetoDbus_def thenE_def bindE_def)

text \<open>Translating an item is modifying the signature and then appending it or its container.\<close>

definition append_calls :: "dbus_call list \<Rightarrow> cmd_plugin \<Rightarrow> cmd_plugin" where
  "append_calls cs p = p\<lparr> cp_calls := cp_calls p @ cs \<rparr>"

lemma append_calls_simps [simp]:
  "append_calls [] p = p"
  "append_calls cs (append_calls cs' p) = append_calls (cs' @ cs) p"
  "dbusmsg_signature (append_calls cs p) = dbusmsg_signature p"
  "cp_calls (append_calls cs p) = cp_calls p @ cs"
  by (simp_all add: append_calls_def)

lemma dbus_append_eq: "dbus_append c = append_calls [c]"
  by (simp add: dbus_append_def append_calls_def fun_eq_iff)

lemma translate_container:
  "prototoDbusTranslation stale (PayloadItem DBUS_MSG_PARAM_TYPE_STRUCT i u d s subs) p =
     in_container CHR ''r'' None (translate_params stale subs) (modifySignature p)"
  "prototoDbusTranslation stale (PayloadItem DBUS_MSG_PARAM_TYPE_DICT_ENTRY i u d s subs) p =
     in_container CHR ''e'' None (translate_params stale subs) (modifySignature p)"
  "prototoDbusTranslation stale (PayloadItem DBUS_MSG_PARAM_TYPE_ARRAY i u d s subs) p =
     in_container CHR ''a'' (Some (dbusmsg_signature (modifySignature p)))
       (translate_params stale subs) (modifySignature p)"
  "prototoDbusTranslation stale (PayloadItem DBUS_MSG_PARAM_TYPE_VARIANT i u d s (item # items)) p =
     in_container CHR ''v'' (Some (stale (getSignatureType item)))
       (translate_params stale (item # items)) (modifySignature p)"
  by (auto simp: thenE_def bindE_def appendPrimitiveDataTypetoDbus_def basic_value_def
      appendComplexDataTypetoDbus_def appendStructtoDbusMsg_def appendDicttoDbusMsg_def
      appendArraytoDbusMsg_def appendVarianttoDbusMsg_def split: prod.splits sum.splits)

declare prototoDbusTranslation.simps [simp del]

lemma in_container_run:
  assumes "body (append_calls [OpenContainer t cs] p) = 
     (Inr (), append_calls xs (append_calls [OpenContainer t cs] p))"
  shows "in_container t cs body p = (Inr (), append_calls (OpenContainer t cs # xs @ [CloseContainer]) p)"
  using assms by (simp add: in_container_def dbus_append_eq thenE_def bindE_def)

lemma modify_plain [simp]: "CHR ''a'' \<notin> set (dbusmsg_signature p) \<Longrightarrow> modifySignature p = p"
  by (simp add: modifySignature_def)

text \<open>Values without arrays are rebuilt exactly, once the signature has no array left.\<close>

lemma narrow_rebuilt:
  assumes "narrow v" "well_typed v"
  shows "\<exists>item. parsePayloadItem v = Inr item \<and> getSignatureType item = type_sig v \<and>
           (\<forall>p stale. prototoDbusTranslation stale item p = (Inr (), append_calls (calls_of v) (modifySignature p)))"
  using parse_narrow [OF assms] translate_basic calls_of_narrow [OF assms(1)] dbus_append_eq by fastforce

definition rebuilt :: "(string \<Rightarrow> string) \<Rightarrow> dbus_value \<Rightarrow> payload_item \<Rightarrow> bool" where
  "rebuilt stale v item \<longleftrightarrow> (\<forall>p. CHR ''a'' \<notin> set (dbusmsg_signature p) \<longrightarrow>
     prototoDbusTranslation stale item p = (Inr (), append_calls (calls_of v) p))"

lemma rebuilt_all:
  assumes "list_all2 (rebuilt stale) vs items" "CHR ''a'' \<notin> set (dbusmsg_signature p)"
  shows "translate_params stale items p = (Inr (), append_calls (calls_of_all vs) p)"
  using assms
proof (induction vs items arbitrary: p rule: list_all2_induct)
  case (Cons v vs item items)
  then show ?case
    by (simp add: rebuilt_def thenE_def bindE_def)
qed simp

lemma parse_all:
  assumes "\<And>v. v \<in> set vs \<Longrightarrow> \<exists>item. parsePayloadItem v = Inr item \<and> P v item"
  shows "\<exists>items. createTraceMessagePayload vs = Inr items \<and> list_all2 P vs items"
  using assms
proof (induction vs)
  case (Cons v vs)
  obtain item where "parsePayloadItem v = Inr item" "P v item"
    using Cons.prems [of v] by auto
  moreover obtain items where "createTraceMessagePayload vs = Inr items" "list_all2 P vs items"
    using Cons.IH Cons.prems by auto
  ultimately show ?case by auto
qed simp

lemma narrow_rebuilt_same:
  assumes "narrow v" "well_typed v"
  shows "\<exists>item. parsePayloadItem v = Inr item \<and> rebuilt stale v item \<and> getSignatureType item = type_sig v"
  using narrow_rebuilt [OF assms] by (auto simp: rebuilt_def)

lemma flat_rebuilt:
  assumes "\<And>s. stale s = s" "flat v" "well_typed v"
  shows "\<exists>item. parsePayloadItem v = Inr item \<and> rebuilt stale v item"
  using assms(2,3)
proof (induction v)
  case (DStruct vs)
  have "\<exists>item. parsePayloadItem v = Inr item \<and> rebuilt stale v item" if "v \<in> set vs" for v
    using DStruct that by (auto simp: list_all_iff)
  then obtain items where "createTraceMessagePayload vs = Inr items" "list_all2 (rebuilt stale) vs items"
    using parse_all by blast
  then show ?case
    by (auto simp: composite_item_def dbusType2ProtoType_def rebuilt_def translate_container
        in_container_run rebuilt_all)
next
  case (DDictEntry vs)
  have "\<exists>item. parsePayloadItem v = Inr item \<and> rebuilt stale v item" if "v \<in> set vs" for v
    using DDictEntry that by (auto simp: list_all_iff)
  then obtain items where "createTraceMessagePayload vs = Inr items" "list_all2 (rebuilt stale) vs items"
    using parse_all by blast
  then show ?case
    by (auto simp: composite_item_def dbusType2ProtoType_def rebuilt_def translate_container
        in_container_run rebuilt_all)
next
  case (DVariant vs)
  then obtain v where vs: "vs = [v]" "narrow v" "well_typed v"
    by (auto simp: length_Suc_conv)
  obtain item where item: "parsePayloadItem v = Inr item" "rebuilt stale v item"
      "getSignatureType item = type_sig v"
    using narrow_rebuilt_same [OF vs(2,3)] by blast
  have tr: "translate_params stale [item] q = (Inr (), append_calls (calls_of v) q)"
    if "CHR ''a'' \<notin> set (dbusmsg_signature q)" for q
    using rebuilt_all [of stale "[v]" "[item]" q] item(2) that by simp
  have st: "stale (type_sig v) = type_sig v"
    by (rule assms(1))
  have "prototoDbusTranslation stale (PayloadItem DBUS_MSG_PARAM_TYPE_VARIANT 0 0 0 [] [item]) p =
      (Inr (), append_calls (calls_of (DVariant [v])) p)"
    if "CHR ''a'' \<notin> set (dbusmsg_signature p)" for p
    unfolding translate_container(4) item(3) st modify_plain [OF that]
    using in_container_run [of "translate_params stale [item]" "CHR ''v''" "Some (type_sig v)" p "calls_of v"]
      tr that by simp
  then show ?case
    using item(1) by (auto simp: vs(1) composite_item_def dbusType2ProtoType_def rebuilt_def)
qed (use narrow_rebuilt_same [of _ stale] in force)+

lemma flat_all_rebuilt:
  assumes "\<And>s. stale s = s" "list_all flat vs" "list_all well_typed vs"
  shows "\<exists>items. createTraceMessagePayload vs = Inr items \<and> list_all2 (rebuilt stale) vs items"
proof (rule parse_all)
  fix v assume "v \<in> set vs"
  then show "\<exists>item. parsePayloadItem v = Inr item \<and> rebuilt stale v item"
    using assms by (intro flat_rebuilt) (auto simp: list_all_iff)
qed

text \<open>Arrays: opened with what is left of the signature after this item's character.\<close>

definition set_sig :: "string \<Rightarrow> cmd_plugin \<Rightarrow> cmd_plugin" where
  "set_sig s p = p\<lparr> dbusmsg_signature := s \<rparr>"

lemma set_sig_simps [simp]:
  "dbusmsg_signature (set_sig s p) = s" "cp_calls (set_sig s p) = cp_calls p"
  "set_sig s (set_sig s' p) = set_sig s p" "append_calls cs (set_sig s p) = set_sig s (append_calls cs p)"
  "dbusmsg_signature p = s \<Longrightarrow> set_sig s p = p"
  by (auto simp: set_sig_def append_calls_def)

lemma modify_set_sig:
  "modifySignature p = set_sig (if CHR ''a'' \<in> set (dbusmsg_signature p)
      then tl (dbusmsg_signature p) else dbusmsg_signature p) p"
  by (simp add: modifySignature_def set_sig_def)

text \<open>An array of flat values, where the rest of the signature after this item's character is \<open>rest\<close>.\<close>

lemma array_opened:
  assumes "list_all2 (rebuilt stale) vs items" "CHR ''a'' \<notin> set rest"
    and "modifySignature p = set_sig rest p"
  shows "prototoDbusTranslation stale (PayloadItem DBUS_MSG_PARAM_TYPE_ARRAY i u d s items) p =
     (Inr (), set_sig rest (append_calls
        (OpenContainer CHR ''a'' (Some rest) # calls_of_all vs @ [CloseContainer]) p))"
  using rebuilt_all [OF assms(1)] assms(2)
    in_container_run [of "translate_params stale items" "CHR ''a''" "Some rest" "set_sig rest p" "calls_of_all vs"]
  by (simp add: translate_container assms(3))

lemma flat_array_rebuilt:
  assumes "\<And>s. stale s = s" "flat_array v" "well_typed v"
  shows "\<exists>item. parsePayloadItem v = Inr item \<and>
           (\<forall>p es. type_sig v = CHR ''a'' # es \<and> modifySignature p = set_sig es p \<longrightarrow>
              prototoDbusTranslation stale item p = (Inr (), set_sig es (append_calls (calls_of v) p)))"
proof -
  obtain es vs where v: "v = DArray es vs" "CHR ''a'' \<notin> set es" "list_all flat vs" "list_all well_typed vs"
    using assms(2,3) by (cases v) (auto simp: flat_array_def list_all_iff)
  obtain items where "createTraceMessagePayload vs = Inr items" "list_all2 (rebuilt stale) vs items"
    using flat_all_rebuilt [OF assms(1) v(3,4)] by blast
  then show ?thesis
    using array_opened [OF _ v(2)] by (auto simp: v(1) composite_item_def dbusType2ProtoType_def)
qed

lemma flat_arrays_rebuilt:
  assumes "list_all2 (\<lambda>v item. \<forall>p. modifySignature p = set_sig es p \<longrightarrow>
      prototoDbusTranslation stale item p = (Inr (), set_sig es (append_calls (calls_of v) p))) vs items"
    and "CHR ''a'' \<notin> set es" "vs \<noteq> []" "modifySignature p = set_sig es p"
  shows "translate_params stale items p = (Inr (), set_sig es (append_calls (calls_of_all vs) p))"
  using assms
proof (induction vs items arbitrary: p rule: list_all2_induct)
  case (Cons v vs item items)
  have "modifySignature (set_sig es q) = set_sig es (set_sig es q)" for q
    using Cons.prems(1) by (simp add: modify_set_sig)
  then show ?case
    using Cons by (cases "vs = []") (auto simp: thenE_def bindE_def)
qed simp

lemma nested_array_rebuilt:
  assumes "\<And>s. stale s = s" "nested_array v" "well_typed v" "dbusmsg_signature p = type_sig v"
  shows "\<exists>item q. parsePayloadItem v = Inr item \<and>
           prototoDbusTranslation stale item p = (Inr (), q) \<and> cp_calls q = cp_calls p @ calls_of v"
proof -
  obtain es vs where v: "v = DArray (CHR ''a'' # es) vs" "CHR ''a'' \<notin> set es" "list_all flat_array vs"
      "\<forall>w \<in> set vs. well_typed w \<and> type_sig w = CHR ''a'' # es"
    using assms(2,3) by (cases v) (auto simp: nested_array_def list_all_iff neq_Nil_conv)
  let ?P = "\<lambda>v item. \<forall>p. modifySignature p = set_sig es p \<longrightarrow>
         prototoDbusTranslation stale item p = (Inr (), set_sig es (append_calls (calls_of v) p))"
  have "\<exists>items. createTraceMessagePayload vs = Inr items \<and> list_all2 ?P vs items"
  proof (rule parse_all)
    fix w assume "w \<in> set vs"
    then have w: "flat_array w" "well_typed w" "type_sig w = CHR ''a'' # es"
      using v(3,4) by (auto simp: list_all_iff)
    show "\<exists>item. parsePayloadItem w = Inr item \<and> ?P w item"
      using flat_array_rebuilt [OF assms(1) w(1,2)] w(3) by auto
  qed
  then obtain items where items: "createTraceMessagePayload vs = Inr items" "list_all2 ?P vs items"
    by blast
  let ?s = "CHR ''a'' # es"
  have m: "modifySignature p = set_sig ?s p" "\<And>q. modifySignature (set_sig ?s q) = set_sig es (set_sig ?s q)"
    using assms(4) by (simp_all add: v(1) modify_set_sig)
  have "\<exists>s'. translate_params stale items (set_sig ?s q) =
      (Inr (), set_sig s' (append_calls (calls_of_all vs) (set_sig ?s q)))" for q
  proof (cases "vs = []")
    case True
    then show ?thesis
      using items by (auto intro!: exI [of _ ?s])
  next
    case False
    then show ?thesis
      using flat_arrays_rebuilt [OF items(2) v(2) False m(2)] by (intro exI [of _ es]) simp
  qed
  then obtain s' where "translate_params stale items (set_sig ?s (append_calls [OpenContainer CHR ''a'' (Some ?s)] p)) =
      (Inr (), set_sig s' (append_calls (calls_of_all vs)
          (set_sig ?s (append_calls [OpenContainer CHR ''a'' (Some ?s)] p))))"
    by blast
  then have "\<exists>q. prototoDbusTranslation stale (PayloadItem DBUS_MSG_PARAM_TYPE_ARRAY 0 0 0 [] items) p
      = (Inr (), q) \<and> cp_calls q = cp_calls p @ calls_of v"
    unfolding translate_container m(1)
    by (simp add: in_container_def thenE_def bindE_def dbus_append_eq v(1))
  then show ?thesis
    using items(1) by (auto simp: v(1) composite_item_def dbusType2ProtoType_def)
qed

section \<open>Whole calls\<close>

lemma narrow_sig: "narrow v \<Longrightarrow> \<exists>c. type_sig v = [c]"
  by (cases v) auto

text \<open>Each basic argument in front of an array takes its character off the signature.\<close>

lemma basics_rebuilt:
  assumes "list_all narrow ps" "list_all well_typed ps" "CHR ''a'' \<in> set rest"
  shows "\<exists>items. createTraceMessagePayload ps = Inr items \<and>
           (\<forall>p stale. dbusmsg_signature p = type_sigs ps @ rest \<longrightarrow>
              translate_params stale items p = (Inr (), set_sig rest (append_calls (calls_of_all ps) p)))"
  using assms
proof (induction ps)
  case (Cons v ps)
  obtain item where item: "parsePayloadItem v = Inr item"
      "\<forall>p stale. prototoDbusTranslation stale item p = (Inr (), append_calls (calls_of v) (modifySignature p))"
    using narrow_rebuilt [of v] Cons.prems by auto
  obtain items where items: "createTraceMessagePayload ps = Inr items"
      "\<And>p stale. dbusmsg_signature p = type_sigs ps @ rest \<Longrightarrow>
         translate_params stale items p = (Inr (), set_sig rest (append_calls (calls_of_all ps) p))"
    using Cons by auto
  obtain c where c: "type_sig v = [c]"
    using narrow_sig Cons.prems(1) by auto
  have "modifySignature p = set_sig (type_sigs ps @ rest) p"
    if "dbusmsg_signature p = type_sig v @ type_sigs ps @ rest" for p
    using that Cons.prems(3) by (simp add: modify_set_sig c)
  then show ?case
    using item items by (auto simp: thenE_def bindE_def)
qed auto

lemma parse_append:
  "createTraceMessagePayload (vs @ ws) =
     (case createTraceMessagePayload vs of Inl e \<Rightarrow> Inl e
      | Inr is \<Rightarrow> (case createTraceMessagePayload ws of Inl e \<Rightarrow> Inl e | Inr js \<Rightarrow> Inr (is @ js)))"
  by (induction vs) (auto split: sum.splits)

lemma translate_append:
  "translate_params stale (is @ js) p = thenE (translate_params stale is) (translate_params stale js) p"
  by (induction "is" arbitrary: p) (auto simp: thenE_def bindE_def split: prod.splits sum.splits)

definition replayable :: "dbus_value list \<Rightarrow> bool" where
  "replayable vs \<longleftrightarrow> list_all flat vs \<or>
     (vs \<noteq> [] \<and> list_all narrow (butlast vs) \<and> (flat_array (last vs) \<or> nested_array (last vs)))"

lemma last_array_rebuilt:
  assumes "\<And>s. stale s = s" "flat_array v \<or> nested_array v" "well_typed v" "dbusmsg_signature p = type_sig v"
  shows "\<exists>item q. parsePayloadItem v = Inr item \<and>
           prototoDbusTranslation stale item p = (Inr (), q) \<and> cp_calls q = cp_calls p @ calls_of v"
proof (cases "nested_array v")
  case True
  then show ?thesis
    using nested_array_rebuilt [OF assms(1)] assms by blast
next
  case False
  then obtain es vs where "v = DArray es vs" "flat_array v"
    using assms(2) by (cases v) (auto simp: flat_array_def)
  then show ?thesis
    using flat_array_rebuilt [OF assms(1) _ assms(3)] assms(4) by (fastforce simp: modify_set_sig)
qed

lemma replayable_rebuilt:
  assumes "\<And>s. stale s = s" "list_all well_typed vs" "replayable vs" "dbusmsg_signature p = type_sigs vs"
  shows "\<exists>items q. createTraceMessagePayload vs = Inr items \<and>
           translate_params stale items p = (Inr (), q) \<and> cp_calls q = cp_calls p @ calls_of_all vs"
proof (cases "list_all flat vs")
  case True
  have "CHR ''a'' \<notin> set (dbusmsg_signature p)"
    using True flat_signature by (auto simp: assms(4) type_sigs_def list_all_iff)
  then show ?thesis
    using flat_all_rebuilt [OF assms(1) True assms(2)] rebuilt_all by fastforce
next
  case False
  then obtain ps v where vs: "vs = ps @ [v]" "list_all narrow ps" "flat_array v \<or> nested_array v"
    using assms(3) by (cases vs rule: rev_cases) (auto simp: replayable_def)
  have a: "CHR ''a'' \<in> set (type_sig v)" "list_all well_typed ps" "well_typed v"
    using vs assms(2) by (cases v; auto simp: flat_array_def nested_array_def)+
  obtain items where items: "createTraceMessagePayload ps = Inr items"
      "translate_params stale items p = (Inr (), set_sig (type_sig v) (append_calls (calls_of_all ps) p))"
    using basics_rebuilt [OF vs(2) a(2,1)] assms(4) by (auto simp: vs(1))
  obtain item q where "parsePayloadItem v = Inr item"
      "prototoDbusTranslation stale item (set_sig (type_sig v) (append_calls (calls_of_all ps) p)) = (Inr (), q)"
      "cp_calls q = cp_calls p @ calls_of_all ps @ calls_of v"
    using last_array_rebuilt [OF assms(1) vs(3) a(3), of "set_sig (type_sig v) (append_calls (calls_of_all ps) p)"]
    by auto
  then show ?thesis
    using items by (auto simp: vs(1) parse_append translate_append thenE_def bindE_def)
qed

section \<open>Properties\<close>


definition sample_args :: "dbus_value list" where
  "sample_args = [DInt16 (- 1), DString ''x'',
     DArray ''a{sv}'' [DArray ''{sv}'' [DDictEntry [DString ''k'', DVariant [DUInt32 7]]], DArray ''{sv}'' []]]"


text \<open>An array that is not the last argument is rebuilt wrongly: with basic arguments before it and
  array-free ones behind, the array is opened with the signature of its elements followed by the
  signatures of all the arguments behind it, which is not the signature of its elements.\<close>

theorem array_not_last:
  assumes "\<forall>s. stale s = s" "list_all well_typed (ps @ DArray es xs # rest)"
    and "list_all narrow ps" "flat_array (DArray es xs)" "list_all flat rest" "rest \<noteq> []"
    and "accepts (c_string r, c_string path, c_string i, c_string m)"
  shows "(\<exists>items q. createTraceMessagePayload (ps @ DArray es xs # rest) = Inr items \<and>
           sendDbusMessage stale accepts
             \<lparr> mc_receiver = r, mc_path = path, mc_interface = i, mc_member = m,
               mc_signature = type_sigs (ps @ DArray es xs # rest), mc_params = items \<rparr> p =
           (Inr (Some ((c_string r, c_string path, c_string i, c_string m),
              calls_of_all ps @ calls_of (DArray (es @ type_sigs rest) xs) @ calls_of_all rest)), q)) \<and>
         es @ type_sigs rest \<noteq> es"
proof -
  have st: "\<And>s. stale s = s"
    using assms(1) by blast
  let ?es = "es @ type_sigs rest" and ?sig = "type_sigs (ps @ DArray es xs # rest)"
  let ?p = "p\<lparr> dbusmsg_signature := ?sig, cp_calls := [] \<rparr>"
  have noa: "CHR ''a'' \<notin> set ?es" and wt: "list_all well_typed xs" "list_all flat xs"
    using assms(2,4,5) flat_signature by (auto simp: flat_array_def type_sigs_def list_all_iff)
  obtain is1 where i1: "createTraceMessagePayload ps = Inr is1"
      "translate_params stale is1 ?p = (Inr (), set_sig (CHR ''a'' # ?es) (append_calls (calls_of_all ps) ?p))"
    using basics_rebuilt [OF assms(3), of "CHR ''a'' # ?es"] assms(2) by auto
  obtain is2 where i2: "createTraceMessagePayload xs = Inr is2" "list_all2 (rebuilt stale) xs is2"
    using flat_all_rebuilt [OF st wt(2,1)] by blast
  obtain is3 where i3: "createTraceMessagePayload rest = Inr is3" "list_all2 (rebuilt stale) rest is3"
    using flat_all_rebuilt [OF st assms(5)] assms(2) by auto
  have "modifySignature (set_sig (CHR ''a'' # ?es) q) = set_sig ?es (set_sig (CHR ''a'' # ?es) q)" for q
    by (simp add: modify_set_sig)
  note arr = array_opened [OF i2(2) noa this]
  have "rest \<noteq> [] \<Longrightarrow> type_sigs rest \<noteq> []"
    by (cases rest; cases "hd rest") auto
  moreover have "accepts (c_string r, c_string path, c_string i, c_string m)"
    by (rule assms(7))
  ultimately show ?thesis
    using assms(6) i1 i2(1) i3 arr noa
    by (auto simp: sendDbusMessage_def Let_def parse_append translate_append thenE_def bindE_def
        composite_item_def dbusType2ProtoType_def rebuilt_all)
qed

theorem array_not_last_witness:
  "\<exists>items q. createTraceMessagePayload [DArray ''i'' [DInt32 1], DInt32 2] = Inr items \<and>
     sendDbusMessage id (\<lambda>_. True)
       \<lparr> mc_receiver = ''r'', mc_path = ''/'', mc_interface = ''i'', mc_member = ''m'',
         mc_signature = ''aii'', mc_params = items \<rparr> \<lparr> dbusmsg_signature = [], cp_calls = [] \<rparr> =
     (Inr (Some ((c_string ''r'', c_string ''/'', c_string ''i'', c_string ''m''),
        [OpenContainer CHR ''a'' (Some ''ii''), AppendBasic (DInt32 1), CloseContainer,
         AppendBasic (DInt32 2)])), q)"
  using array_not_last [of id "[]" "''i''" "[DInt32 1]" "[DInt32 2]" "\<lambda>_. True" "''r''" "''/''" "''i''" "''m''"]
  by (simp add: flat_array_def)

end
