(* ===== verification/AgentRuntime.thy ===== *)
theory AgentRuntime
  imports PluginProxy ComController
begin

text \<open>
  The runtime that builds the agent from its components and takes it down again
  (\<^verbatim>\<open>target-agent-runtime/src/CMediator.cpp\<close>, called from \<^verbatim>\<open>target_agent_main.cpp\<close>). The components are those
  of the theories Config, PluginProxy, Recorder and ComController; the runtime's pointer to the recorder
  is the one the plugin proxy reaches through it (\<open>px_recorder\<close>).

  The environment of the recorder depends on the configuration that has been read, so it is a function
  of it. An error is what leaves \<^verbatim>\<open>run\<close> or \<^verbatim>\<open>shutdown\<close> as an exception.
\<close>

section \<open>State\<close>

datatype runtime_error =
    RecorderFault rec_error
  | PluginFault
  | ComFault
  | RuntimeNullPointer

record agent =
  ag_config :: config_provider
  ag_plugins :: "recorder plugin_proxy option"
  ag_com :: "com_controller option"
  ag_logger :: bool

type_synonym 'a agent_op = "(runtime_error, agent, 'a) op"

definition new_CTargetAgentRuntime :: agent where
  "new_CTargetAgentRuntime = \<lparr> ag_config = new_ConfigProvider, ag_plugins = None, ag_com = None, ag_logger = False \<rparr>"

text \<open>Running an operation of a component on its part of the state.\<close>

definition on_plugins :: "(rec_error, recorder, 'a) proxy_op \<Rightarrow> 'a agent_op" where
  "on_plugins m = (\<lambda>a.
     (case ag_plugins a of
        None \<Rightarrow> (Inl RuntimeNullPointer, a)
      | Some p \<Rightarrow>
          (case m p of
             (Inl _, p') \<Rightarrow> (Inl PluginFault, a\<lparr> ag_plugins := Some p' \<rparr>)
           | (Inr x, p') \<Rightarrow> (Inr x, a\<lparr> ag_plugins := Some p' \<rparr>))))"

definition on_com :: "'a com_op \<Rightarrow> 'a agent_op" where
  "on_com m = (\<lambda>a.
     (case ag_com a of
        None \<Rightarrow> (Inl RuntimeNullPointer, a)
      | Some c \<Rightarrow>
          (case m c of
             (Inl _, c') \<Rightarrow> (Inl ComFault, a\<lparr> ag_com := Some c' \<rparr>)
           | (Inr x, c') \<Rightarrow> (Inr x, a\<lparr> ag_com := Some c' \<rparr>))))"

definition on_recorder :: "'a rec_op \<Rightarrow> 'a agent_op" where
  "on_recorder m = (\<lambda>a.
     (case ag_plugins a of
        None \<Rightarrow> (Inl RuntimeNullPointer, a)
      | Some p \<Rightarrow>
          (case px_recorder p of
             None \<Rightarrow> (Inl RuntimeNullPointer, a)
           | Some r \<Rightarrow>
               (case m r of
                  (Inl e, r') \<Rightarrow> (Inl (RecorderFault e), a\<lparr> ag_plugins := Some (p\<lparr> px_recorder := Some r' \<rparr>) \<rparr>)
                | (Inr x, r') \<Rightarrow> (Inr x, a\<lparr> ag_plugins := Some (p\<lparr> px_recorder := Some r' \<rparr>) \<rparr>)))))"

section \<open>Operations\<close>

definition read_config :: "xml_conf \<Rightarrow> unit agent_op" where
  "read_config xml = (\<lambda>a. (Inr (), a\<lparr> ag_config := snd (initialize xml new_ConfigProvider), ag_logger := True \<rparr>))"

definition recorder_kind_of :: "config_provider \<Rightarrow> recorder_kind" where
  "recorder_kind_of cf = (if cf_recorderOn cf then OfflineRecorder else BufferingHandler)"

text \<open>The plugin manager and the communication handler exist before the recorder is created, whose
  constructor opens its first file and may raise.\<close>

definition create_components :: "(config_provider \<Rightarrow> rec_env) \<Rightarrow> files \<Rightarrow> unit agent_op" where
  "create_components E fs = (\<lambda>a.
     (let a1 = a\<lparr> ag_plugins := Some (new_PluginProxy None), ag_com := Some new_ComController \<rparr> in
      case create_recorder (E (ag_config a1)) (recorder_kind_of (ag_config a1)) fs of
        (Inl e, _) \<Rightarrow> (Inl (RecorderFault e), a1)
      | (Inr _, r) \<Rightarrow> (Inr (), a1\<lparr> ag_plugins := Some (new_PluginProxy (Some r)) \<rparr>)))"

definition run ::
    "xml_conf \<Rightarrow> (config_provider \<Rightarrow> rec_env) \<Rightarrow> files \<Rightarrow> (string \<Rightarrow> plugin_library) \<Rightarrow> unit agent_op" where
  "run xml E fs L =
     seqE [read_config xml,
           create_components E fs,
           (\<lambda>a. on_plugins (initializePluginProvider L (ag_config a)) a),
           (\<lambda>a. on_com (start (StreamingPort (ag_config a))) a)]"

definition shutdown :: "unit agent_op" where
  "shutdown =
     seqE [on_recorder stopRecording,
           on_plugins deinitializePluginProvider,
           on_com stop,
           modifyE (\<lambda>a. a\<lparr> ag_plugins := None, ag_logger := False \<rparr>)]"

text \<open>An operation of the plugin manager, followed by what the communication handler does with the messages
  for the client that it has put into the trace.\<close>

definition manager_then_com ::
    "(rec_error, recorder, unit) proxy_op \<Rightarrow> (protocol_message list \<Rightarrow> unit com_op) \<Rightarrow> unit agent_op" where
  "manager_then_com m f = (\<lambda>a.
     (case ag_plugins a of
        None \<Rightarrow> (Inl RuntimeNullPointer, a)
      | Some p \<Rightarrow>
          (case m p of
             (Inl _, p') \<Rightarrow> (Inl PluginFault, a\<lparr> ag_plugins := Some p' \<rparr>)
           | (Inr _, p') \<Rightarrow>
               on_com (f (to_client (drop (length (px_trace p)) (px_trace p')))) (a\<lparr> ag_plugins := Some p' \<rparr>))))"

text \<open>The events of the agent's life between \<^verbatim>\<open>run\<close> and \<^verbatim>\<open>shutdown\<close>: plugins send, a client connects (its
  dispatcher made from the scripts of its socket), it leaves.\<close>

definition agent_event :: "rec_env \<Rightarrow> msg_env \<Rightarrow> recv_event list \<times> send_event list \<Rightarrow> host_event \<Rightarrow> unit agent_op" where
  "agent_event E env socket ev = (\<lambda>a.
     manager_then_com (host_step (recorder_ops E) (ag_config a) ev)
       (case ev of
          Connect \<Rightarrow> onClientConnected env (new_CCommMsgDispatcher (fst socket) (snd socket) [])
        | Disconnect \<Rightarrow> (\<lambda>_. oConnectionClosedbyClient)
        | Send _ _ _ _ _ _ \<Rightarrow> sendMessages) a)"

definition agent_events :: "rec_env \<Rightarrow> msg_env \<Rightarrow> recv_event list \<times> send_event list \<Rightarrow> host_event list \<Rightarrow> unit agent_op" where
  "agent_events E env socket evs = seqE (List.map (agent_event E env socket) evs)"

section \<open>The main program\<close>

text \<open>\<^verbatim>\<open>TargetAgentServer::main\<close>: \<open>helpRequested\<close> is set by the command line options that only print
  something. Poco's exceptions during the start are caught, and the agent waits for its end all the
  same; \<open>events\<close> is what happens until then.\<close>

definition poco_exception :: "runtime_error \<Rightarrow> bool" where
  "poco_exception e \<longleftrightarrow> e = RecorderFault PocoException"

definition main_program ::
    "bool \<Rightarrow> xml_conf \<Rightarrow> (config_provider \<Rightarrow> rec_env) \<Rightarrow> files \<Rightarrow> (string \<Rightarrow> plugin_library) \<Rightarrow>
     unit agent_op \<Rightarrow> unit agent_op" where
  "main_program helpRequested xml E fs L events =
     (if helpRequested then returnE ()
      else seqE [catchE poco_exception (\<lambda>_. returnE ()) (run xml E fs L), events, shutdown])"

text \<open>The command line: each option prints its text and stops the processing of the options. \<open>texts\<close> are the help
  and the two versions as they are printed.\<close>

datatype server_option =
    OptHelp
  | OptProtVersion
  | OptVersion

record server_app =
  sa_helpRequested :: bool
  sa_output :: "string list"

definition new_TargetAgentServer :: server_app where
  "new_TargetAgentServer = \<lparr> sa_helpRequested = False, sa_output = [] \<rparr>"

definition print_and_stop :: "string \<Rightarrow> server_app \<Rightarrow> server_app" where
  "print_and_stop txt s = s\<lparr> sa_output := sa_output s @ [txt], sa_helpRequested := True \<rparr>"

definition handleHelp :: "string \<Rightarrow> server_app \<Rightarrow> server_app" where
  "handleHelp help = print_and_stop help"

definition handleRevision :: "string \<Rightarrow> server_app \<Rightarrow> server_app" where
  "handleRevision version = print_and_stop (''Target Agent->Solys Protocol Version  '' @ version @ '' '')"

definition handleVersion :: "string \<Rightarrow> server_app \<Rightarrow> server_app" where
  "handleVersion version = print_and_stop (''Target Agent Version  '' @ version @ '' '')"

fun process_options :: "string \<times> string \<times> string \<Rightarrow> server_option list \<Rightarrow> server_app \<Rightarrow> server_app" where
  "process_options texts [] s = s"
| "process_options (help, protocol, version) (opt # opts) s =
     (case opt of
        OptHelp \<Rightarrow> handleHelp help s
      | OptProtVersion \<Rightarrow> handleRevision protocol s
      | OptVersion \<Rightarrow> handleVersion version s)"

definition server_run ::
    "string \<times> string \<times> string \<Rightarrow> server_option list \<Rightarrow> xml_conf \<Rightarrow> (config_provider \<Rightarrow> rec_env) \<Rightarrow> files \<Rightarrow>
     (string \<Rightarrow> plugin_library) \<Rightarrow> unit agent_op \<Rightarrow> unit agent_op" where
  "server_run texts opts xml E fs L events =
     main_program (sa_helpRequested (process_options texts opts new_TargetAgentServer)) xml E fs L events"

section \<open>Lemmas\<close>

lemma on_simps:
  "ag_plugins a = Some p \<Longrightarrow> m p = (Inr x, p') \<Longrightarrow> on_plugins m a = (Inr x, a\<lparr> ag_plugins := Some p' \<rparr>)"
  "ag_com a = Some c \<Longrightarrow> n c = (Inr y, c') \<Longrightarrow> on_com n a = (Inr y, a\<lparr> ag_com := Some c' \<rparr>)"
  "ag_plugins a = Some p \<Longrightarrow> px_recorder p = Some r \<Longrightarrow> k r = (Inr z, r') \<Longrightarrow>
     on_recorder k a = (Inr z, a\<lparr> ag_plugins := Some (p\<lparr> px_recorder := Some r' \<rparr>) \<rparr>)"
  "ag_plugins a = Some p \<Longrightarrow> px_recorder p = Some r \<Longrightarrow> k r = (Inl e, r') \<Longrightarrow>
     on_recorder k a = (Inl (RecorderFault e), a\<lparr> ag_plugins := Some (p\<lparr> px_recorder := Some r' \<rparr>) \<rparr>)"
  by (simp_all add: on_plugins_def on_com_def on_recorder_def)

text \<open>The plugin list after loading, and what has been done to the plugins.\<close>

definition loaded :: "(string \<Rightarrow> plugin_library) \<Rightarrow> config_provider \<Rightarrow> (nat \<times> plugin_config) list" where
  "loaded L cf = fold (\<lambda>cfg m. case plugin_instance L cfg of
              None \<Rightarrow> m | Some i \<Rightarrow> cmap_insert i cfg m) (Plugins cf) []"

definition init_trace :: "(string \<Rightarrow> plugin_library) \<Rightarrow> config_provider \<Rightarrow> proxy_event list" where
  "init_trace L cf = List.map UnloadLibrary (unloaded L (Plugins cf)) @
     List.map (\<lambda>(i, cfg). SetConfig i (pc_properties cfg)) (loaded L cf) @
     List.map StartPlugin (List.map fst (loaded L cf))"

definition started_proxy ::
    "(string \<Rightarrow> plugin_library) \<Rightarrow> config_provider \<Rightarrow> recorder \<Rightarrow> recorder plugin_proxy" where
  "started_proxy L cf r = (new_PluginProxy (Some r))
     \<lparr> px_sender := True, px_loadedPlugins := loaded L cf, px_trace := init_trace L cf,
       px_isPluginStarted := True \<rparr>"

lemma initialize_started:
  "initializePluginProvider L cf (new_PluginProxy (Some r)) = (Inr () :: rec_error proxy_error + unit, started_proxy L cf r)"
  by (simp add: initializePluginProvider_def thenE_def bindE_def loadPlugins_result emit_def
      setPluginsConfig_def startPlugins_def plugin_ptrs_def started_proxy_def loaded_def init_trace_def
      new_PluginProxy_def)

definition started_com :: "config_provider \<Rightarrow> com_controller" where
  "started_com cf = new_ComController\<lparr> cc_calls := [EventLoopStart, ComServerStart (StreamingPort cf), ReactorStart] \<rparr>"

lemma run_started:
  assumes "cf = snd (initialize xml new_ConfigProvider)"
    and "create_recorder (E cf) (recorder_kind_of cf) fs = (Inr (), r)"
  shows "run xml E fs L new_CTargetAgentRuntime =
     (Inr (), \<lparr> ag_config = cf, ag_plugins = Some (started_proxy L cf r), ag_com = Some (started_com cf),
                ag_logger = True \<rparr>)"
  using assms
  by (simp add: run_def read_config_def create_components_def Let_def new_CTargetAgentRuntime_def
      on_plugins_def on_com_def initialize_started start_def call_def started_com_def new_ComController_def
      thenE_def bindE_def)

text \<open>Sending without a client: every message goes into the buffer.\<close>

definition is_Send :: "host_event \<Rightarrow> bool" where
  "is_Send ev \<longleftrightarrow> (case ev of Send _ _ _ _ _ _ \<Rightarrow> True | _ \<Rightarrow> False)"

lemma send_buffers:
  assumes "is_Send ev" "px_recorder p = Some r" "\<not> px_connectionEstablished p" "buffering_holding E r ms"
    and "\<forall>m \<in> set (sent_messages [ev]). recordable E m"
  shows "\<exists>r'. host_step (recorder_ops E) cf ev p = (Inr (), p\<lparr> px_recorder := Some r' \<rparr>) \<and>
           buffering_holding E r' (ms @ sent_messages [ev])"
proof -
  obtain env ty n buf ts ctx where ev: "ev = Send env ty n buf ts ctx"
    using assms(1) by (cases ev) (auto simp: is_Send_def)
  obtain r' where "recordMessage E (new_ProtocolMessage env ty n buf False ts ctx) False r = (Inr False, r')"
      "buffering_holding E r' (ms @ sent_messages [ev])"
    using buffering_record [OF assms(4)] assms(5) by (auto simp: ev)
  then show ?thesis
    using assms(2,3)
    by (intro exI [of _ r'])
      (simp add: ev PluginProxy.sendMessage_def thenE_def bindE_def recorder_call_def recorder_ops_def)
qed

lemma agent_sends:
  assumes "\<forall>ev \<in> set evs. is_Send ev" "ag_plugins a = Some p" "ag_com a = Some c" "px_recorder p = Some r"
    and "\<not> px_connectionEstablished p" "buffering_holding E r ms" "\<forall>m \<in> set (sent_messages evs). recordable E m"
  shows "\<exists>r'. agent_events E env socket evs a =
            (Inr (), a\<lparr> ag_plugins := Some (p\<lparr> px_recorder := Some r' \<rparr>) \<rparr>) \<and>
           buffering_holding E r' (ms @ sent_messages evs)"
  using assms
proof (induction evs arbitrary: a p r ms)
  case Nil
  have "p\<lparr> px_recorder := Some r \<rparr> = p" "a\<lparr> ag_plugins := Some p \<rparr> = a"
    using Nil.prems by simp_all
  then show ?case
    using Nil.prems by (intro exI [of _ r]) (simp add: agent_events_def)
next
  case (Cons ev evs)
  have split: "sent_messages (ev # evs) = sent_messages [ev] @ sent_messages evs"
    by (cases ev) auto
  obtain r1 where r1: "host_step (recorder_ops E) (ag_config a) ev p = (Inr (), p\<lparr> px_recorder := Some r1 \<rparr>)"
      "buffering_holding E r1 (ms @ sent_messages [ev])"
    using send_buffers [of ev p r E ms "ag_config a"] Cons.prems split by auto
  let ?a1 = "a\<lparr> ag_plugins := Some (p\<lparr> px_recorder := Some r1 \<rparr>) \<rparr>"
  have "agent_event E env socket ev a = (Inr (), ?a1)"
    using r1(1) Cons.prems(1-3)
    by (cases ev) (auto simp: agent_event_def manager_then_com_def on_com_def is_Send_def)
  moreover obtain r2 where "agent_events E env socket evs ?a1 =
      (Inr (), ?a1\<lparr> ag_plugins := Some (p\<lparr> px_recorder := Some r2 \<rparr>) \<rparr>)"
      "buffering_holding E r2 (ms @ sent_messages (ev # evs))"
    using Cons.IH [of ?a1 "p\<lparr> px_recorder := Some r1 \<rparr>" r1 "ms @ sent_messages [ev]"] Cons.prems r1(2) split by auto
  ultimately show ?case
    by (auto simp: agent_events_def thenE_def bindE_def)
qed

lemma agent_events_snoc:
  "agent_events E env socket (evs @ [ev]) a = thenE (agent_events E env socket evs) (agent_event E env socket ev) a"
  by (induction evs arbitrary: a)
    (auto simp: agent_events_def thenE_def bindE_def split: prod.splits sum.splits)

text \<open>A client connects: the buffer is replayed into the new connection behind the calibration.\<close>

lemma replayed_sendable: "recordable E m \<Longrightarrow> isValid (replayed E m) \<and> \<not> isUrgent (replayed E m)"
  by (auto simp: replayed_def recordable_def new_ProtocolMessage_valid_sel)

lemma agent_connects:
  assumes "ag_plugins a = Some p" "ag_com a = Some c" "px_recorder p = Some r" "buffering_holding E r ms"
  shows "\<exists>p' r' c' d'. agent_event E env socket Connect a =
           (Inr (), a\<lparr> ag_plugins := Some p', ag_com := Some c' \<rparr>) \<and>
           cc_messageHandler c' = Some d' \<and> cc_calls c' = cc_calls c @ [HostConnectionEstablished] \<and>
           d_messageQueue d' = new_ProtocolMessage env MSG_TYPE_CHRONOGRAPH_CALIBRATION 0 [] True 0 None
             # List.map (replayed E) ms \<and>
           px_recorder p' = Some r' \<and> buffering_idle E r' \<and> px_isPluginStarted p' = px_isPluginStarted p \<and>
           px_loadedPlugins p' = px_loadedPlugins p \<and> px_sender p' = px_sender p \<and> px_connectionEstablished p' \<and>
           d_sends d' = snd socket \<and> d_out d' = [] \<and> d_messagesAvailable d' \<and> d_senderRunning d'"
proof -
  obtain r' where r': "sendBufferedData E r = (Inr (List.map (replayed E) ms), r')" "buffering_idle E r'"
    using buffering_send [OF assms(4)] by blast
  let ?new = "List.map ToClient (List.map (replayed E) ms) @ List.map OnConnectionEstablished (plugin_ptrs p)"
  let ?p' = "p\<lparr> px_connectionEstablished := True, px_recorder := Some r', px_trace := px_trace p @ ?new \<rparr>"
  have step: "onHostConnectionEstablished (recorder_ops E) p = (Inr (), ?p')"
    using r'(1) assms(3)
    by (simp add: onHostConnectionEstablished_def thenE_def bindE_def recorder_call_def recorder_ops_def
        emit_def plugin_ptrs_def)
  have "\<forall>m \<in> set (List.map (replayed E) ms). isValid m \<and> \<not> isUrgent m"
    using assms(4) replayed_sendable by (auto simp: buffering_holding_def)
  from connected_queue [OF this, of env "fst socket" "snd socket" c]
  obtain c' d' where c':
    "onClientConnected env (new_CCommMsgDispatcher (fst socket) (snd socket) []) (List.map (replayed E) ms) c = (Inr (), c')"
    "cc_messageHandler c' = Some d'" "cc_calls c' = cc_calls c @ [HostConnectionEstablished]"
    "d_messageQueue d' = new_ProtocolMessage env MSG_TYPE_CHRONOGRAPH_CALIBRATION 0 [] True 0 None
       # List.map (replayed E) ms" "d_sends d' = snd socket" "d_out d' = []" "d_messagesAvailable d'"
    "d_senderRunning d'"
    by blast
  then show ?thesis
    using r'(2) assms(1,2) step
    by (intro exI [of _ ?p'] exI [of _ r'] exI [of _ c'] exI [of _ d'])
      (simp add: agent_event_def manager_then_com_def on_com_def)
qed

section \<open>Properties\<close>

text \<open>The life of an agent no client ever connects to. With the buffering handler, a usable temporary
  directory and any configuration, \<^verbatim>\<open>run\<close> succeeds: the loadable plugins have been configured and then
  started, each once, and the server listens on the configured port. \<^verbatim>\<open>shutdown\<close> then succeeds: exactly
  the started plugins have been stopped, each once, the temporary file is gone; but the server and its
  reactor, which are only stopped when there is a connection, still run.\<close>

theorem agent_life_without_client:
  assumes cf_def: "cf = snd (initialize xml new_ConfigProvider)"
    and "\<not> cf_recorderOn cf" "buffering_env (E cf)" "\<forall>k. fs (re_tempName (E cf) k) = None"
  shows "\<exists>a p r a' p' r'. run xml E fs L new_CTargetAgentRuntime = (Inr (), a) \<and>
           ag_plugins a = Some p \<and> px_recorder p = Some r \<and> px_trace p = init_trace L cf \<and>
           (\<exists>c. ag_com a = Some c \<and>
              cc_calls c = [EventLoopStart, ComServerStart (StreamingPort cf), ReactorStart]) \<and>
           on_recorder stopRecording a = (Inr (), a') \<and> ag_plugins a' = Some p' \<and> px_recorder p' = Some r' \<and>
           sr_fs r' (last (r_fileHandles r)) = None \<and>
           thenE (on_plugins deinitializePluginProvider) (on_com stop) a' =
             (Inr (), a'\<lparr> ag_plugins := Some (p'\<lparr> px_isPluginStarted := False,
                px_trace := px_trace p @ List.map StopPlugin (plugin_ptrs p) \<rparr>) \<rparr>) \<and>
           fst (shutdown a) = Inr ()"
proof -
  have kind: "recorder_kind_of cf = BufferingHandler"
    using assms(2) by (simp add: recorder_kind_of_def)
  obtain r where r: "create_recorder (E cf) BufferingHandler fs = (Inr (), r)" "buffering_holding (E cf) r []"
    using create_buffering_holding [OF assms(3,4)] by blast
  obtain r' where r': "stopRecording r = (Inr (), r')" "sr_fs r' (last (r_fileHandles r)) = None"
    using r(2) by (auto simp: buffering_holding_def stopRecording_def base_stopRecording_def
        pauseRecording_def closeStream_def resetCounters_def remove_back_def fileHandles_back_def
        thenE_def bindE_def)
  let ?p = "started_proxy L cf r"
  let ?a = "\<lparr> ag_config = cf, ag_plugins = Some ?p, ag_com = Some (started_com cf), ag_logger = True \<rparr>"
  let ?p' = "?p\<lparr> px_recorder := Some r' \<rparr>"
  let ?a' = "?a\<lparr> ag_plugins := Some ?p' \<rparr>"
  have run: "run xml E fs L new_CTargetAgentRuntime = (Inr (), ?a)"
    using run_started [OF cf_def] r(1) kind by simp
  have stop: "on_recorder stopRecording ?a = (Inr (), ?a')"
    using r'(1) by (simp add: on_recorder_def started_proxy_def new_PluginProxy_def)
  have rest: "thenE (on_plugins deinitializePluginProvider) (on_com stop) ?a' =
      (Inr (), ?a'\<lparr> ag_plugins := Some (?p'\<lparr> px_isPluginStarted := False,
                px_trace := px_trace ?p @ List.map StopPlugin (plugin_ptrs ?p) \<rparr>) \<rparr>)"
    by (simp add: thenE_def bindE_def on_plugins_def on_com_def deinitializePluginProvider_def stopPlugins_def
        started_proxy_def new_PluginProxy_def stop_def started_com_def new_ComController_def plugin_ptrs_def)
  then have "fst (shutdown ?a) = Inr ()"
    using stop by (auto simp: shutdown_def thenE_def bindE_def split: prod.splits sum.splits)
  then show ?thesis
    using run stop rest r'(2)
    by (intro exI [of _ ?a] exI [of _ ?p] exI [of _ r] exI [of _ ?a'] exI [of _ ?p'] exI [of _ r'])
      (simp add: started_proxy_def new_PluginProxy_def started_com_def)
qed

definition sample_xml :: xml_conf where
  "sample_xml = \<lparr> x_loads = True, x_int = [''Network.Port'' \<mapsto> 1234], x_bool = (\<lambda>_. None),
     x_string = (\<lambda>_. None), x_keys = (\<lambda>_. []) \<rparr>"

lemma sample_not_recording: "\<not> cf_recorderOn (snd (initialize sample_xml new_ConfigProvider))"
  by (simp add: sample_xml_def initialize_def initializeGlobal_def initializePlugins_def thenE_def bindE_def
      getE_def new_ConfigProvider_def catchE_def)

definition no_library :: "string \<Rightarrow> plugin_library" where
  "no_library path = \<lparr> lib_throws = True, lib_isLoaded = False, lib_hasSymbol = False,
     lib_symbolNonNull = False, lib_instance = None \<rparr>"

theorem agent_life_without_client_witness:
  "\<exists>a. run sample_xml (\<lambda>_. sample_env False 0 id) (\<lambda>_. None) no_library new_CTargetAgentRuntime = (Inr (), a) \<and>
     fst (shutdown a) = Inr ()"
  using agent_life_without_client [OF refl sample_not_recording, of "\<lambda>_. sample_env False 0 id" "\<lambda>_. None" no_library]
    sample_buffering_env by blast

text \<open>An agent that has been sending for no one, and its first client.\<close>

lemma agent_connected:
  assumes cf_def: "cf = snd (initialize xml new_ConfigProvider)"
    and "\<not> cf_recorderOn cf" "buffering_env (E cf)" "\<forall>k. fs (re_tempName (E cf) k) = None"
    and "\<forall>ev \<in> set evs. is_Send ev" "\<forall>m \<in> set (sent_messages evs). recordable (E cf) m"
  shows "\<exists>a c p r d. thenE (run xml E fs L) (agent_events (E cf) env socket (evs @ [Connect]))
             new_CTargetAgentRuntime = (Inr (), a) \<and>
           ag_com a = Some c \<and> cc_messageHandler c = Some d \<and>
           d_messageQueue d = new_ProtocolMessage env MSG_TYPE_CHRONOGRAPH_CALIBRATION 0 [] True 0 None
             # List.map (replayed (E cf)) (sent_messages evs) \<and>
           ag_plugins a = Some p \<and> px_recorder p = Some r \<and> buffering_idle (E cf) r \<and>
           d_sends d = snd socket \<and> d_out d = [] \<and> d_messagesAvailable d"
proof -
  have kind: "recorder_kind_of cf = BufferingHandler"
    using assms(2) by (simp add: recorder_kind_of_def)
  obtain r where r: "create_recorder (E cf) BufferingHandler fs = (Inr (), r)" "buffering_holding (E cf) r []"
    using create_buffering_holding [OF assms(3,4)] by blast
  let ?a = "\<lparr> ag_config = cf, ag_plugins = Some (started_proxy L cf r), ag_com = Some (started_com cf),
      ag_logger = True \<rparr>"
  have run: "run xml E fs L new_CTargetAgentRuntime = (Inr (), ?a)"
    using run_started [OF cf_def] r(1) kind by simp
  obtain r1 where r1: "agent_events (E cf) env socket evs ?a =
      (Inr (), ?a\<lparr> ag_plugins := Some ((started_proxy L cf r)\<lparr> px_recorder := Some r1 \<rparr>) \<rparr>)"
      "buffering_holding (E cf) r1 (sent_messages evs)"
    using agent_sends [OF assms(5), of ?a "started_proxy L cf r" "started_com cf" r "E cf" "[]" env socket]
      r(2) assms(6) by (auto simp: started_proxy_def new_PluginProxy_def)
  let ?a1 = "?a\<lparr> ag_plugins := Some ((started_proxy L cf r)\<lparr> px_recorder := Some r1 \<rparr>) \<rparr>"
  obtain p' r' c' d' where "agent_event (E cf) env socket Connect ?a1 =
      (Inr (), ?a1\<lparr> ag_plugins := Some p', ag_com := Some c' \<rparr>)"
      "cc_messageHandler c' = Some d'" "px_recorder p' = Some r'" "buffering_idle (E cf) r'"
      "d_messageQueue d' = new_ProtocolMessage env MSG_TYPE_CHRONOGRAPH_CALIBRATION 0 [] True 0 None
             # List.map (replayed (E cf)) (sent_messages evs)"
      "d_sends d' = snd socket" "d_out d' = []" "d_messagesAvailable d'"
    using agent_connects [of ?a1 "(started_proxy L cf r)\<lparr> px_recorder := Some r1 \<rparr>" "started_com cf" r1 "E cf"
        "sent_messages evs" env socket] r1(2) by auto
  moreover from this have "agent_events (E cf) env socket (evs @ [Connect]) ?a =
      (Inr (), ?a1\<lparr> ag_plugins := Some p', ag_com := Some c' \<rparr>)"
    using r1(1) by (simp add: agent_events_snoc thenE_def bindE_def)
  ultimately show ?thesis
    using run by (simp add: thenE_def bindE_def)
qed



text \<open>Shutting down while a client is connected fails at the first step: the buffering handler, idle
  while a client is connected, cannot be stopped, the exception leaves \<^verbatim>\<open>shutdown\<close>, and plugins and
  server keep running.\<close>

theorem shutdown_with_client:
  assumes "ag_plugins a = Some p" "px_recorder p = Some r" "buffering_idle E r"
  shows "shutdown a = (Inl (RecorderFault IosFailure), a)"
proof -
  have "stopRecording r = (Inl IosFailure, r)"
    using assms(3) by (simp add: buffering_idle_def stopRecording_def base_stopRecording_def
        pauseRecording_def closeStream_def thenE_def bindE_def)
  moreover have "p\<lparr> px_recorder := Some r \<rparr> = p" "a\<lparr> ag_plugins := Some p \<rparr> = a"
    using assms(1,2) by simp_all
  ultimately show ?thesis
    using assms(1,2) by (simp add: shutdown_def thenE_def bindE_def on_recorder_def)
qed

definition sample_agent :: agent where
  "sample_agent = \<lparr> ag_config = new_ConfigProvider,
     ag_plugins = Some (new_PluginProxy (Some (new_recorder BufferingHandler (\<lambda>_. None)))),
     ag_com = Some new_ComController, ag_logger = True \<rparr>"

theorem shutdown_with_client_witness:
  "shutdown sample_agent = (Inl (RecorderFault IosFailure), sample_agent)"
  using shutdown_with_client [OF _ _ sample_buffering_idle, of sample_agent
      "new_PluginProxy (Some (new_recorder BufferingHandler (\<lambda>_. None)))"]
  by (simp add: sample_agent_def new_PluginProxy_def)

section \<open>A start that fails\<close>

text \<open>When the recorder cannot be created for a reason Poco reports, the exception is swallowed, nothing is
  started, and the shutdown fails on the recorder that is not there.\<close>

lemma main_without_recorder:
  assumes "cf = snd (initialize xml new_ConfigProvider)"
    and "create_recorder (E cf) (recorder_kind_of cf) fs = (Inl PocoException, r)"
  shows "\<exists>a. main_program False xml E fs L (returnE ()) new_CTargetAgentRuntime = (Inl RuntimeNullPointer, a) \<and>
    ag_plugins a = Some (new_PluginProxy None) \<and> ag_com a = Some new_ComController"
  using assms
  by (simp add: main_program_def run_def read_config_def create_components_def Let_def
      new_CTargetAgentRuntime_def thenE_def bindE_def catchE_def poco_exception_def shutdown_def
      on_recorder_def new_PluginProxy_def)

text \<open>Any other exception of the recorder ends the program at once.\<close>

lemma main_recorder_uncaught:
  assumes "cf = snd (initialize xml new_ConfigProvider)"
    and "create_recorder (E cf) (recorder_kind_of cf) fs = (Inl e, r)" "e \<noteq> PocoException"
  shows "fst (main_program False xml E fs L events new_CTargetAgentRuntime) = Inl (RecorderFault e)"
  using assms
  by (simp add: main_program_def run_def read_config_def create_components_def Let_def
      new_CTargetAgentRuntime_def thenE_def bindE_def catchE_def poco_exception_def)

text \<open>Any option keeps the agent from starting; of several the first alone is answered.\<close>

lemma server_with_options:
  "opts \<noteq> [] \<Longrightarrow> server_run texts opts xml E fs L events a = (Inr (), a)"
  "length (sa_output (process_options texts opts new_TargetAgentServer)) = min 1 (length opts)"
  by (cases texts; cases opts; auto simp: server_run_def main_program_def handleHelp_def handleRevision_def
      handleVersion_def print_and_stop_def new_TargetAgentServer_def split: server_option.splits)+

end
