(* ===== verification/PathGenerator.thy ===== *)
theory PathGenerator
  imports Scanf
begin

text \<open>
  The names of recording files (\<^verbatim>\<open>message-recorder/src/PathGenerator.cpp\<close>). A directory is its text as
  Poco prints it, with the separator at the end; the file system says which directories exist and
  whether one can be created. What the recorder relies on is that two parts of a recording never get
  the same name.
\<close>

section \<open>State\<close>

record local_time =
  lt_year :: nat
  lt_month :: nat
  lt_day :: nat
  lt_hour :: nat
  lt_minute :: nat
  lt_second :: nat
  lt_millisecond :: nat

record path_handler =
  mStartTime :: local_time
  mIsSplitingActive :: bool

text \<open>The settings, Poco's count of the directories in a path, and the file system: \<open>pe_exists\<close> may raise, as may
  \<open>pe_createDirectories\<close> (\<^const>\<open>None\<close>).\<close>

record path_env =
  pe_targetDirPath :: string
  pe_filePrefix :: string
  pe_doCreateOutputPath :: bool
  pe_depth :: "string \<Rightarrow> nat"
  pe_exists :: "string \<Rightarrow> bool option"
  pe_createDirectories :: "string \<Rightarrow> unit option"

definition new_CPathHandler :: "local_time \<Rightarrow> u32 \<Rightarrow> path_handler" where
  "new_CPathHandler now fileSizeLimit =
     \<lparr> mStartTime = now, mIsSplitingActive = (fileSizeLimit > 0) \<rparr>"

section \<open>Operations\<close>

definition separator :: char where "separator = CHR ''/''"

definition addSeparatorIfNeeded :: "string \<Rightarrow> string" where
  "addSeparatorIfNeeded dir =
     (if length dir > 0 \<and> last dir \<noteq> separator then dir @ [separator] else dir)"

definition createIntermediateDirs :: "path_env \<Rightarrow> string \<Rightarrow> bool" where
  "createIntermediateDirs E dir =
     (if pe_depth E dir > 0 then
        (case pe_exists E dir of
           None \<Rightarrow> False
         | Some True \<Rightarrow> True
         | Some False \<Rightarrow>
             (if pe_doCreateOutputPath E
              then (case pe_createDirectories E dir of None \<Rightarrow> False | Some _ \<Rightarrow> True)
              else False))
      else True)"

text \<open>A number printed with at least \<open>w\<close> digits.\<close>

definition print_padded :: "nat \<Rightarrow> nat \<Rightarrow> string" where
  "print_padded w n = (let d = print_decimal n in replicate (w - length d) CHR ''0'' @ d)"

definition time_text :: "local_time \<Rightarrow> string" where
  "time_text t =
     print_padded 2 (lt_day t) @ ''.'' @ print_padded 2 (lt_month t) @ ''.'' @ print_padded 4 (lt_year t) @
     ''-'' @ print_padded 2 (lt_hour t) @ ''.'' @ print_padded 2 (lt_minute t) @ ''.'' @
     print_padded 2 (lt_second t) @ ''.'' @ print_padded 2 (lt_millisecond t)"

text \<open>The path, and the part number counted up for the next call.\<close>

definition createPath :: "path_env \<Rightarrow> path_handler \<Rightarrow> u32 \<Rightarrow> string \<times> u32" where
  "createPath E h mPartNumber =
     (let dir0 = addSeparatorIfNeeded (pe_targetDirPath E);
          dir = (if \<not> createIntermediateDirs E dir0 then [] else dir0);
          name = pe_filePrefix E @ ''-'' @ time_text (mStartTime h) @
                 (if mIsSplitingActive h then ''-part'' @ print_decimal (unat mPartNumber) else [])
      in (dir @ name @ ''.bin'', mPartNumber + 1))"

section \<open>Names\<close>

lemma print_decimal_inj: "print_decimal m = print_decimal n \<longleftrightarrow> m = n"
  by (metis scan_print_decimal)

text \<open>The names of the first \<open>k\<close> parts of a recording, from part number \<open>n\<close> on.\<close>

fun part_names :: "path_env \<Rightarrow> path_handler \<Rightarrow> u32 \<Rightarrow> nat \<Rightarrow> string list" where
  "part_names E h n 0 = []"
| "part_names E h n (Suc k) = (let (name, n') = createPath E h n in name # part_names E h n' k)"

lemma createPath_number [simp]: "snd (createPath E h n) = n + 1"
  by (simp add: createPath_def Let_def)

lemma createPath_inj:
  assumes "mIsSplitingActive h"
  shows "fst (createPath E h m) = fst (createPath E h n) \<longleftrightarrow> m = n"
  using assms by (simp add: createPath_def Let_def print_decimal_inj word_unat_eq_iff)

lemma part_names_eq:
  "part_names E h n k = List.map (\<lambda>i. fst (createPath E h (n + word_of_nat i))) [0..<k]"
proof (induction k arbitrary: n)
  case (Suc k)
  have "List.map (\<lambda>i. fst (createPath E h (n + word_of_nat i))) [0..<Suc k] =
      fst (createPath E h n) # List.map (\<lambda>i. fst (createPath E h (n + 1 + word_of_nat i))) [0..<k]"
    by (simp only: map_upt_Suc) (simp add: algebra_simps)
  then show ?case
    using Suc.IH [of "n + 1"] by (simp add: Let_def split: prod.splits)
      (metis createPath_number fst_conv snd_conv)
qed simp

lemma word_of_nat_inj_u32:
  "i < 2 ^ 32 \<Longrightarrow> j < 2 ^ 32 \<Longrightarrow> (word_of_nat i :: u32) = word_of_nat j \<longleftrightarrow> i = j"
  by (simp add: word_unat_eq_iff unat_of_nat)

section \<open>Properties\<close>

text \<open>C27: Parts of a recording never share a file. With a size limit configured, up to \<open>2\<^sup>3\<^sup>2\<close> successive
  parts get pairwise different paths, whatever the settings and the file system; without a limit every
  part gets the same path. All of them lie in the target directory when it exists or may be and can be
  created, and in the current directory otherwise.\<close>

theorem part_paths:
  assumes "k \<le> 2 ^ 32"
  shows "(mIsSplitingActive h \<longrightarrow> distinct (part_names E h n k)) \<and>
         (\<not> mIsSplitingActive h \<longrightarrow> set (part_names E h n k) \<subseteq> {fst (createPath E h n)}) \<and>
         (\<forall>p \<in> set (part_names E h n k).
            (if createIntermediateDirs E (addSeparatorIfNeeded (pe_targetDirPath E))
             then take (length (addSeparatorIfNeeded (pe_targetDirPath E))) p =
                    addSeparatorIfNeeded (pe_targetDirPath E)
             else take (length (pe_filePrefix E)) p = pe_filePrefix E))"
proof -
  have "distinct (part_names E h n k)" if "mIsSplitingActive h"
    unfolding part_names_eq distinct_map
    using assms that by (auto simp: inj_on_def createPath_inj word_of_nat_inj_u32)
  moreover have "set (part_names E h n k) \<subseteq> {fst (createPath E h n)}" if "\<not> mIsSplitingActive h"
    using that by (auto simp: part_names_eq createPath_def Let_def)
  ultimately show ?thesis
    by (auto simp: part_names_eq createPath_def Let_def)
qed

definition sample_path_env :: path_env where
  "sample_path_env = \<lparr> pe_targetDirPath = ''/rec'', pe_filePrefix = ''ta'', pe_doCreateOutputPath = False,
     pe_depth = length,
     pe_exists = (\<lambda>d. Some (d = ''/rec/'')), pe_createDirectories = (\<lambda>_. None) \<rparr>"

definition sample_time :: local_time where
  "sample_time = \<lparr> lt_year = 2017, lt_month = 3, lt_day = 9, lt_hour = 8, lt_minute = 7, lt_second = 6,
     lt_millisecond = 5 \<rparr>"

theorem part_paths_witness:
  "distinct (part_names sample_path_env (new_CPathHandler sample_time 10) 0 3) \<and>
   list_all (\<lambda>p. take (length ''/rec/'') p = ''/rec/'') (part_names sample_path_env (new_CPathHandler sample_time 10) 0 3)"
proof -
  have "addSeparatorIfNeeded (pe_targetDirPath sample_path_env) = ''/rec/''"
    "createIntermediateDirs sample_path_env ''/rec/''"
    by (simp_all add: createIntermediateDirs_def addSeparatorIfNeeded_def separator_def sample_path_env_def)
  then show ?thesis
    using part_paths [of 3 "new_CPathHandler sample_time 10" sample_path_env 0]
    by (simp add: new_CPathHandler_def list_all_iff)
qed

end
