(* ===== verification/Logger.thy ===== *)
theory Logger
  imports Config Scanf
begin

text \<open>
  The logger (\<^verbatim>\<open>logger/src/CLogger.cpp\<close>, \<^verbatim>\<open>logger/inc/CLogger.hpp\<close>) and the connection over which it sends
  log texts to the socket reader plugin (\<^verbatim>\<open>logger/src/CConnector.cpp\<close>). Poco's channels are names here: what
  the constructor decides is which of them the root logger writes to and from which priority on.
\<close>

section \<open>Set-up\<close>

datatype log_channel = ConsoleChannel | SocketChannel | FileChannel

datatype log_priority =
    PRIO_FATAL
  | PRIO_CRITICAL
  | PRIO_ERROR
  | PRIO_WARNING
  | PRIO_NOTICE
  | PRIO_INFORMATION
  | PRIO_DEBUG
  | PRIO_TRACE

definition stringToEnum :: "(string \<times> log_priority) list" where
  "stringToEnum =
     [(''PRIO_FATAL'', PRIO_FATAL), (''PRIO_CRITICAL'', PRIO_CRITICAL), (''PRIO_ERROR'', PRIO_ERROR),
      (''PRIO_WARNING'', PRIO_WARNING), (''PRIO_NOTICE'', PRIO_NOTICE),
      (''PRIO_INFORMATION'', PRIO_INFORMATION), (''PRIO_DEBUG'', PRIO_DEBUG), (''PRIO_TRACE'', PRIO_TRACE)]"

definition isChannelActive :: "config_provider \<Rightarrow> string \<Rightarrow> bool" where
  "isChannelActive cf name =
     (case find (\<lambda>ch. ch_name ch = name) (cf_logChannels cf) of
        None \<Rightarrow> False | Some ch \<Rightarrow> ch_active ch)"

text \<open>The number of warnings that no socket reader is configured.\<close>

definition checkReaderAvailability :: "config_provider \<Rightarrow> nat" where
  "checkReaderAvailability cf =
     length (filter (\<lambda>p. contains ''socket-reader-plugin'' (pc_name p)) (Plugins cf))"

record logger =
  lg_channels :: "log_channel list"
  lg_level :: "log_priority option"
  lg_readerWarnings :: nat

text \<open>Without a channel the root logger gets the null channel and keeps its level.\<close>

definition new_CLogger :: "config_provider \<Rightarrow> logger" where
  "new_CLogger cf =
     (let console = (if isChannelActive cf ''Console'' then [ConsoleChannel] else []);
          sock = (if isChannelActive cf ''Socket'' then [SocketChannel] else []);
          file = (if isChannelActive cf ''File'' then [FileChannel] else []);
          channels = console @ sock @ file
      in \<lparr> lg_channels = channels,
           lg_level = (if channels \<noteq> []
                       then (case map_of stringToEnum (cf_logLevel cf) of
                               Some prio \<Rightarrow> Some prio | None \<Rightarrow> Some PRIO_ERROR)
                       else None),
           lg_readerWarnings = (if sock \<noteq> [] then checkReaderAvailability cf else 0) \<rparr>)"

section \<open>The queue of the socket channel\<close>

abbreviation MAX_NR_OF_ENTRIES :: nat where "MAX_NR_OF_ENTRIES \<equiv> 100"

definition log_message :: "string \<Rightarrow> string list \<Rightarrow> string list" where
  "log_message msg q = (if length q \<ge> MAX_NR_OF_ENTRIES then [] else q) @ [msg]"

section \<open>Writing to the reader\<close>

text \<open>\<^verbatim>\<open>writeNBytesToSocket\<close>: the \<open>i\<close>-th call of \<^verbatim>\<open>sendBytes\<close> takes as many of the bytes it is offered as
  \<open>takes i\<close> says, or returns that number when it is negative, or raises (\<^const>\<open>None\<close>), which ends the loop.
  The counter is a 32-bit unsigned number to which the return value is added. The result is the number
  of calls made and what is on the wire; a loop that never ends has none.\<close>

partial_function (option) write_from ::
    "(nat \<Rightarrow> int option) \<Rightarrow> string \<Rightarrow> nat \<Rightarrow> u32 \<Rightarrow> string \<Rightarrow> (nat \<times> string) option" where
  "write_from takes bytes i tmp out =
     (if (word_of_nat (length bytes) :: u32) > tmp then
        (case takes i of
           None \<Rightarrow> Some (Suc i, out)
         | Some k \<Rightarrow>
             (let r = min k (uint (word_of_nat (length bytes) - tmp)) in
              write_from takes bytes (Suc i) (tmp + word_of_int r)
                (out @ take (nat r) (drop (unat tmp) bytes))))
      else Some (i, out))"

definition writeNBytesToSocket :: "(nat \<Rightarrow> int option) \<Rightarrow> string \<Rightarrow> nat \<times> string \<Rightarrow> (nat \<times> string) option" where
  "writeNBytesToSocket takes bytes = (\<lambda>(i, out). write_from takes bytes i 0 out)"

text \<open>\<^verbatim>\<open>%4u\<close> pads with blanks.\<close>

definition print_width4 :: "nat \<Rightarrow> string" where
  "print_width4 n = (let d = print_decimal n in replicate (4 - length d) CHR '' '' @ d)"

definition log_header :: "nat \<Rightarrow> string" where
  "log_header n = ''payloadLength: '' @ print_width4 n @ '' messageType: TARGET_AGENT_MESSAGE''"

definition buildMessage :: "(nat \<Rightarrow> int option) \<Rightarrow> string \<Rightarrow> nat \<times> string \<Rightarrow> (nat \<times> string) option" where
  "buildMessage takes message w =
     Option.bind (writeNBytesToSocket takes (log_header (length message)) w)
       (writeNBytesToSocket takes message)"

fun buildMessages :: "(nat \<Rightarrow> int option) \<Rightarrow> string list \<Rightarrow> nat \<times> string \<Rightarrow> (nat \<times> string) option" where
  "buildMessages takes [] w = Some w"
| "buildMessages takes (m # ms) w = Option.bind (buildMessage takes m w) (buildMessages takes ms)"

definition version_texts :: "string \<Rightarrow> nat \<Rightarrow> string list" where
  "version_texts targetAgentVersion raceTaProtocolVersion =
     [''Target Agent Version: '' @ targetAgentVersion,
      ''SOLYS->TA Protocol Version: '' @ print_decimal raceTaProtocolVersion]"

definition sendVersionInformation ::
    "(nat \<Rightarrow> int option) \<Rightarrow> string \<Rightarrow> nat \<Rightarrow> nat \<times> string \<Rightarrow> (nat \<times> string) option" where
  "sendVersionInformation takes v n = buildMessages takes (version_texts v n)"

text \<open>\<open>conf\<close> are the lines of \<^verbatim>\<open>conf.xml\<close> (none when it cannot be opened).\<close>

definition sendXMLConfiguration ::
    "(nat \<Rightarrow> int option) \<Rightarrow> string list \<Rightarrow> string \<Rightarrow> nat \<Rightarrow> nat \<times> string \<Rightarrow> (nat \<times> string) option" where
  "sendXMLConfiguration takes conf v n w =
     Option.bind (buildMessages takes conf w) (sendVersionInformation takes v n)"

text \<open>\<^verbatim>\<open>onWritable\<close> stays in its loop and sends what the queue delivers, until it is woken without one.\<close>

definition onWritable :: "(nat \<Rightarrow> int option) \<Rightarrow> string list \<Rightarrow> nat \<times> string \<Rightarrow> (nat \<times> string) option" where
  "onWritable takes delivered = buildMessages takes delivered"

section \<open>Lemmas\<close>

definition progresses :: "(nat \<Rightarrow> int option) \<Rightarrow> bool" where
  "progresses takes \<longleftrightarrow> (\<forall>i. \<exists>k. takes i = Some k \<and> 1 \<le> k)"

lemma write_from_progress:
  assumes "progresses takes" "length bytes < 2 ^ 32" "t \<le> length bytes"
  shows "\<exists>j. write_from takes bytes i (word_of_nat t) out = Some (j, out @ drop t bytes) \<and>
           j \<le> i + (length bytes - t)"
  using assms(3)
proof (induction "length bytes - t" arbitrary: t i out rule: less_induct)
  case less
  let ?n = "length bytes"
  have u: "unat (word_of_nat t :: u32) = t" "unat (word_of_nat ?n :: u32) = ?n"
    using assms(2) less.prems by (simp_all add: unat_of_nat)
  have gt: "(word_of_nat ?n :: u32) > word_of_nat t \<longleftrightarrow> t < ?n"
    by (simp only: word_less_nat_alt u)
  show ?case
  proof (cases "t < ?n")
    case False
    then show ?thesis
      using less.prems by (subst write_from.simps) (simp add: gt)
  next
    case True
    obtain k where k: "takes i = Some k" "1 \<le> k"
      using assms(1) by (auto simp: progresses_def)
    define r where "r = min (nat k) (?n - t)"
    have "word_of_nat ?n - word_of_nat t = (word_of_nat (?n - t) :: u32)"
      using less.prems by (simp add: of_nat_diff)
    then have left: "uint (word_of_nat ?n - word_of_nat t :: u32) = int (?n - t)"
      using assms(2) by (simp only: uint_nat) (simp add: unat_of_nat)
    have r: "min k (int ?n - int t) = int r" "1 \<le> r" "t + r \<le> ?n"
      using k(2) True by (auto simp: r_def)
    have left': "uint (word_of_nat ?n - word_of_nat t :: u32) = int ?n - int t"
      using True by (simp add: left)
    have "write_from takes bytes i (word_of_nat t) out =
        write_from takes bytes (Suc i) (word_of_nat (t + r)) (out @ take r (drop t bytes))"
      using True k(1) by (subst write_from.simps) (simp add: gt left' r(1) u(1) Let_def del: of_nat_diff)
    moreover obtain j where "write_from takes bytes (Suc i) (word_of_nat (t + r)) (out @ take r (drop t bytes)) =
        Some (j, (out @ take r (drop t bytes)) @ drop (t + r) bytes)" "j \<le> Suc i + (?n - (t + r))"
      using less.hyps [of "t + r"] r True by fastforce
    moreover have "take r (drop t bytes) @ drop (t + r) bytes = drop t bytes"
      by (metis append_take_drop_id drop_drop add.commute)
    ultimately show ?thesis
      using r by auto
  qed
qed

lemma write_from_stuck:
  assumes "write_from takes bytes i tmp out = Some r" "\<forall>i. takes i = Some 0"
  shows "word_of_nat (length bytes) \<le> tmp"
proof -
  have "(\<forall>i. takes i = Some 0) \<longrightarrow> word_of_nat (length bytes) \<le> tmp"
  proof (rule write_from.raw_induct [OF _ assms(1),
        where P = "\<lambda>takes bytes i tmp out r. (\<forall>i. takes i = Some 0) \<longrightarrow> word_of_nat (length bytes) \<le> tmp"])
    fix f takes' bytes' i' r'
    fix tmp' :: u32 and out' :: string
    assume ih: "\<And>takes bytes i (tmp :: u32) out r. f takes bytes i tmp out = Some r \<Longrightarrow>
        (\<forall>i. takes i = Some 0) \<longrightarrow> word_of_nat (length bytes) \<le> tmp"
      and body: "(if word_of_nat (length bytes') > tmp' then
          (case takes' i' of None \<Rightarrow> Some (Suc i', out')
           | Some k \<Rightarrow> let r = min k (uint (word_of_nat (length bytes') - tmp'))
               in f takes' bytes' (Suc i') (tmp' + word_of_int r)
                    (out' @ take (nat r) (drop (unat tmp') bytes')))
        else Some (i', out')) = Some r'"
    show "(\<forall>i. takes' i = Some 0) \<longrightarrow> word_of_nat (length bytes') \<le> tmp'"
    proof
      assume z: "\<forall>i. takes' i = Some 0"
      then have "word_of_nat (length bytes') > tmp' \<Longrightarrow> f takes' bytes' (Suc i') tmp' out' = Some r'"
        using body by (simp add: Let_def min_absorb1)
      then show "word_of_nat (length bytes') \<le> tmp'"
        using ih z by (meson not_le)
    qed
  qed
  then show ?thesis
    using assms(2) by blast
qed

lemma writeNBytesToSocket_progress:
  "progresses takes \<Longrightarrow> length bytes < 2 ^ 32 \<Longrightarrow>
     \<exists>j. writeNBytesToSocket takes bytes (i, out) = Some (j, out @ bytes) \<and> j \<le> i + length bytes"
  using write_from_progress [of takes bytes 0 i out] by (simp add: writeNBytesToSocket_def)

text \<open>The bytes of a list of texts on the wire, each behind its header.\<close>

definition framed :: "string list \<Rightarrow> string" where
  "framed ms = concat (List.map (\<lambda>m. log_header (length m) @ m) ms)"

lemma buildMessages_progress:
  assumes "progresses takes" "\<forall>m \<in> set ms. length m < 2 ^ 32 \<and> length (log_header (length m)) < 2 ^ 32"
  shows "\<exists>j. buildMessages takes ms (i, out) = Some (j, out @ framed ms) \<and> j \<le> i + length (framed ms)"
  using assms(2)
proof (induction ms arbitrary: i out)
  case (Cons m ms)
  let ?h = "log_header (length m)"
  obtain j1 where j1: "writeNBytesToSocket takes ?h (i, out) = Some (j1, out @ ?h)" "j1 \<le> i + length ?h"
    using writeNBytesToSocket_progress [OF assms(1), of ?h i out] Cons.prems by auto
  obtain j2 where j2: "writeNBytesToSocket takes m (j1, out @ ?h) = Some (j2, (out @ ?h) @ m)"
      "j2 \<le> j1 + length m"
    using writeNBytesToSocket_progress [OF assms(1), of m j1 "out @ ?h"] Cons.prems by auto
  have one: "buildMessage takes m (i, out) = Some (j2, (out @ ?h) @ m)"
    using j1(1) j2(1) by (simp add: buildMessage_def)
  obtain j3 where j3: "buildMessages takes ms (j2, (out @ ?h) @ m) = Some (j3, ((out @ ?h) @ m) @ framed ms)"
      "j3 \<le> j2 + length (framed ms)"
    using Cons.IH [of j2 "(out @ ?h) @ m"] Cons.prems by auto
  show ?case
    using one j1(2) j2(2) j3 by (intro exI [of _ j3]) (simp add: framed_def)
qed (simp add: framed_def)

lemma log_message_length:
  "length q \<le> MAX_NR_OF_ENTRIES \<Longrightarrow> length (log_message msg q) \<le> MAX_NR_OF_ENTRIES"
  by (simp add: log_message_def)

section \<open>Properties\<close>

text \<open>C21: The loop that writes a text to the reader's socket returns whenever every call of
  \<^verbatim>\<open>sendBytes\<close> takes at least one byte: within as many calls as the text has bytes, with exactly the text on
  the wire. When the calls keep taking nothing (a full non-blocking socket), it never returns for any
  text but the empty one: no bound on the attempts stops it.\<close>

theorem writeNBytesToSocket_returns:
  assumes "length bytes < 2 ^ 32"
  shows "(progresses takes \<longrightarrow>
            (\<exists>j \<le> i + length bytes. writeNBytesToSocket takes bytes (i, out) = Some (j, out @ bytes))) \<and>
         ((\<forall>i. takes i = Some 0) \<and> bytes \<noteq> [] \<longrightarrow> writeNBytesToSocket takes bytes (i, out) = None)"
proof (intro conjI impI)
  assume "progresses takes"
  then show "\<exists>j \<le> i + length bytes. writeNBytesToSocket takes bytes (i, out) = Some (j, out @ bytes)"
    using writeNBytesToSocket_progress [OF _ assms, of takes i out] by auto
next
  assume z: "(\<forall>i. takes i = Some 0) \<and> bytes \<noteq> []"
  show "writeNBytesToSocket takes bytes (i, out) = None"
  proof (rule ccontr)
    assume "writeNBytesToSocket takes bytes (i, out) \<noteq> None"
    then obtain r where "write_from takes bytes i 0 out = Some r"
      by (auto simp: writeNBytesToSocket_def)
    then have "word_of_nat (length bytes) \<le> (0 :: u32)"
      using write_from_stuck z by blast
    then have "unat (word_of_nat (length bytes) :: u32) = 0"
      by (simp add: word_le_nat_alt)
    then show False
      using z assms by (simp add: unat_of_nat)
  qed
qed

lemma writeNBytesToSocket_returns_witness:
  "(\<exists>j \<le> 0 + length ''abc''. writeNBytesToSocket (\<lambda>_. Some 2) ''abc'' (0, []) = Some (j, [] @ ''abc'')) \<and>
   writeNBytesToSocket (\<lambda>_. Some 0) ''abc'' (0, []) = None"
  using writeNBytesToSocket_returns [of "''abc''" "\<lambda>_. Some 2" 0 "[]"]
    writeNBytesToSocket_returns [of "''abc''" "\<lambda>_. Some 0" 0 "[]"]
  by (simp add: progresses_def)

text \<open>While no reader takes texts from the queue, logging texts one after the other leaves exactly those
  since the last multiple of one hundred: each hundred-and-first text empties the queue first, so the
  queue never holds more than a hundred texts and what is lost are whole blocks of a hundred.\<close>

theorem logged_texts:
  "fold log_message ms [] = drop ((length ms - 1) div 100 * 100) ms"
proof (induction ms rule: rev_induct)
  case (snoc m ms)
  show ?case
  proof (cases "ms = []")
    case False
    let ?n = "length ms"
    define q r where "q = (?n - 1) div 100" and "r = (?n - 1) mod 100"
    have qr: "?n = q * 100 + r + 1" "r < 100"
      using False div_mult_mod_eq [of "?n - 1" 100] unfolding q_def r_def by (cases ms; simp)+
    have len: "length (drop (q * 100) ms) = r + 1"
      using qr(1) by simp
    have "(length (ms @ [m]) - 1) div 100 = (if r = 99 then q + 1 else q)"
      using qr by auto
    then show ?thesis
      using snoc len qr by (auto simp: log_message_def simp flip: q_def)
  qed (simp add: log_message_def)
qed simp

end
