(* ===== verification/SocketReader.thy ===== *)
theory SocketReader
  imports Logger
begin

text \<open>
  The socket reader plugin (\<^verbatim>\<open>socket-reader-plugin/src/socket_reader_activity.cpp\<close> and
  \<^verbatim>\<open>socket_reader_plugin.cpp\<close>): the server that reads length-prefixed texts from a socket and forwards
  them, and the plugin that runs one server per configured port. The parser of the header text is
  protobuf's and a parameter. The last section composes it with the logger's connection.
\<close>

section \<open>The connection\<close>

type_synonym header_parser = "string \<Rightarrow> (int \<times> int) option"

abbreviation SOCKET_READER_MESSAGE :: int where "SOCKET_READER_MESSAGE \<equiv> 0"
abbreviation TARGET_AGENT_MESSAGE :: int where "TARGET_AGENT_MESSAGE \<equiv> 1"
abbreviation Encoding_PlainAscii :: int where "Encoding_PlainAscii \<equiv> 1"

abbreviation BUFFER_SIZE :: nat where "BUFFER_SIZE \<equiv> 4096"
abbreviation HEADER_LENGTH_SIZE :: u32 where "HEADER_LENGTH_SIZE \<equiv> 53"

record reader_message =
  rm_type :: int
  rm_portno :: int
  rm_data :: string
  rm_encoding :: int

text \<open>\<open>sr_sent\<close> is what \<^verbatim>\<open>mMsgSenderHDL->sendMessage\<close> was given, oldest first.\<close>

record socket_reader =
  sr_messageIdentifier :: int
  sr_payloadbuffer :: string
  sr_bytesAlreadyReceived :: u32
  sr_payloadLength :: u32
  sr_expectedAmountOfBytes :: u32
  sr_sent :: "reader_message list"

datatype reader_error =
    BufferOverflow
  | ReadPastBuffer
  | NetException

text \<open>What one call of \<^verbatim>\<open>receiveBytes\<close> does: raise, return a negative number, or deliver at most \<open>n\<close> of
  the available bytes.\<close>

datatype receive_result =
    RecvThrows
  | RecvFails
  | RecvUpTo nat

definition new_CSocketReaderServer :: "string \<Rightarrow> socket_reader" where
  "new_CSocketReaderServer payloadbuffer =
     \<lparr> sr_messageIdentifier = TARGET_AGENT_MESSAGE, sr_payloadbuffer = payloadbuffer,
       sr_bytesAlreadyReceived = 0, sr_payloadLength = 0,
       sr_expectedAmountOfBytes = HEADER_LENGTH_SIZE, sr_sent = [] \<rparr>"

definition resetCounters :: "socket_reader \<Rightarrow> socket_reader" where
  "resetCounters r = r\<lparr> sr_bytesAlreadyReceived := 0, sr_payloadLength := 0,
                       sr_expectedAmountOfBytes := HEADER_LENGTH_SIZE \<rparr>"

definition sendRawTMessage :: "reader_message \<Rightarrow> socket_reader \<Rightarrow> socket_reader" where
  "sendRawTMessage m r = r\<lparr> sr_sent := sr_sent r @ [m] \<rparr>"

definition extractHeaderContent :: "header_parser \<Rightarrow> socket_reader \<Rightarrow> socket_reader" where
  "extractHeaderContent parse r =
     (if sr_bytesAlreadyReceived r \<ge> HEADER_LENGTH_SIZE \<and> sr_payloadLength r = 0 then
        (case parse (take (unat HEADER_LENGTH_SIZE) (sr_payloadbuffer r)) of
           None \<Rightarrow> r
         | Some (len, ty) \<Rightarrow>
             r\<lparr> sr_payloadLength := word_of_int len,
                sr_expectedAmountOfBytes := sr_expectedAmountOfBytes r + word_of_int len,
                sr_messageIdentifier := ty \<rparr>)
      else r)"

text \<open>The text is read as a C string; without a NUL in the rest of the buffer the read runs past it.\<close>

definition dispatchMessage :: "(reader_error, socket_reader, unit) op" where
  "dispatchMessage r =
     (if sr_bytesAlreadyReceived r \<noteq> 0 \<and> sr_bytesAlreadyReceived r \<ge> sr_expectedAmountOfBytes r then
        (let headerOffset = (if sr_payloadLength r \<noteq> 0 then HEADER_LENGTH_SIZE else 0);
             tail = drop (unat headerOffset) (sr_payloadbuffer r)
         in if (\<exists>c \<in> set tail. of_char c = (0 :: nat))
            then (Inr (), resetCounters (sendRawTMessage
                    \<lparr> rm_type = sr_messageIdentifier r, rm_portno = 1, rm_data = c_string tail,
                      rm_encoding = Encoding_PlainAscii \<rparr> r))
            else (Inl ReadPastBuffer, r))
      else (Inr (), r))"

text \<open>\<open>avail\<close> are the bytes the socket holds; the result are those left.\<close>

definition onSocketReadable ::
    "header_parser \<Rightarrow> receive_result \<Rightarrow> string \<Rightarrow> (reader_error, socket_reader, string) op" where
  "onSocketReadable parse recv avail r =
     (let left = sr_expectedAmountOfBytes r - sr_bytesAlreadyReceived r;
          big = sr_expectedAmountOfBytes r \<ge> of_nat BUFFER_SIZE;
          crtPosition = (if big then 0 else unat (sr_bytesAlreadyReceived r));
          crtRead = (if big \<and> left > of_nat BUFFER_SIZE then BUFFER_SIZE else unat left)
      in if avail = [] then (Inr avail, r)
         else (case recv of
             RecvThrows \<Rightarrow> (Inl NetException, r)
           | RecvFails \<Rightarrow> (Inr avail, resetCounters r)
           | RecvUpTo n \<Rightarrow>
               (let got = take (min n crtRead) avail in
                case buf_write crtPosition (got @ [CHR 0x00]) (sr_payloadbuffer r) of
                  None \<Rightarrow> (Inl BufferOverflow, r)
                | Some buf \<Rightarrow>
                    bindE dispatchMessage (\<lambda>_. returnE (drop (length got) avail))
                      (extractHeaderContent parse
                        (r\<lparr> sr_bytesAlreadyReceived := sr_bytesAlreadyReceived r + of_nat (length got),
                            sr_payloadbuffer := buf \<rparr>)))))"

text \<open>A run of the reactor on what is on the wire: one readable notification per entry.\<close>

fun readable_events ::
    "header_parser \<Rightarrow> receive_result list \<Rightarrow> string \<Rightarrow> (reader_error, socket_reader, string) op" where
  "readable_events parse [] wire = returnE wire"
| "readable_events parse (e # es) wire =
     bindE (onSocketReadable parse e wire) (readable_events parse es)"

section \<open>The plugin\<close>

text \<open>The four parallel lists of \<^verbatim>\<open>startPlugin\<close> grow and shrink together: one entry per running port.\<close>

record socket_reader_plugin =
  srp_ports :: "nat list"
  srp_servers :: "nat list"

definition new_CSocketReaderPlugin :: socket_reader_plugin where
  "new_CSocketReaderPlugin = \<lparr> srp_ports = [1223], srp_servers = [] \<rparr>"

text \<open>The configuration in key order; the number parser raises on what is no number.\<close>

fun set_ports :: "(string \<Rightarrow> nat option) \<Rightarrow> (string \<times> string) list \<Rightarrow> (string, socket_reader_plugin, bool) op" where
  "set_ports parseUnsigned [] p = (Inr True, p)"
| "set_ports parseUnsigned ((k, v) # cfg) p =
     (if contains ''portNumber'' k then
        (case parseUnsigned v of
           None \<Rightarrow> (Inl v, p)
         | Some n \<Rightarrow> set_ports parseUnsigned cfg (p\<lparr> srp_ports := srp_ports p @ [n] \<rparr>))
      else set_ports parseUnsigned cfg p)"

fun start_servers :: "(nat \<Rightarrow> bool) \<Rightarrow> nat list \<Rightarrow> (nat, socket_reader_plugin, bool) op" where
  "start_servers can_bind [] p = (Inr True, p)"
| "start_servers can_bind (port # ports) p =
     (if can_bind port then start_servers can_bind ports (p\<lparr> srp_servers := srp_servers p @ [port] \<rparr>)
      else (Inl port, p))"

definition start_reader_plugin :: "(nat \<Rightarrow> bool) \<Rightarrow> (nat, socket_reader_plugin, bool) op" where
  "start_reader_plugin can_bind p = start_servers can_bind (srp_ports p) p"

function stop_reader_plugin :: "socket_reader_plugin \<Rightarrow> bool \<times> socket_reader_plugin" where
  "stop_reader_plugin p =
     (if srp_servers p = [] then (True, p)
      else stop_reader_plugin (p\<lparr> srp_servers := tl (srp_servers p) \<rparr>))"
  by auto

termination
  by (relation "measure (\<lambda>p. length (srp_servers p))") auto

declare stop_reader_plugin.simps [simp del]

section \<open>Texts of the logger\<close>

definition frame :: "string \<Rightarrow> string" where
  "frame m = log_header (length m) @ m"

text \<open>What the connection can carry: not empty, with its header below the size of the buffer, no NUL.\<close>

definition carried_text :: "string \<Rightarrow> bool" where
  "carried_text m \<longleftrightarrow> m \<noteq> [] \<and> 53 + length m < BUFFER_SIZE \<and> (\<forall>c \<in> set m. of_char c \<noteq> (0 :: nat))"

definition agent_text :: "string \<Rightarrow> reader_message" where
  "agent_text m = \<lparr> rm_type = TARGET_AGENT_MESSAGE, rm_portno = 1, rm_data = m,
                    rm_encoding = Encoding_PlainAscii \<rparr>"

text \<open>The text format of protobuf: the header the logger prints is read back.\<close>

definition reads_headers :: "header_parser \<Rightarrow> bool" where
  "reads_headers parse \<longleftrightarrow> (\<forall>n < 10000. parse (log_header n) = Some (int n, TARGET_AGENT_MESSAGE))"

lemma length_log_header [simp]: "n < 10000 \<Longrightarrow> length (log_header n) = 53"
  using length_print_decimal [of n 4] by (simp add: log_header_def print_width4_def Let_def)

text \<open>\<open>mid_frame m k r\<close>: the server has read the first \<open>k\<close> bytes of the frame of \<open>m\<close>.\<close>

definition mid_frame :: "string \<Rightarrow> nat \<Rightarrow> socket_reader \<Rightarrow> bool" where
  "mid_frame m k r \<longleftrightarrow>
     length (sr_payloadbuffer r) = BUFFER_SIZE \<and>
     sr_bytesAlreadyReceived r = of_nat k \<and>
     take k (sr_payloadbuffer r) = take k (frame m) \<and>
     (if k < 53 then sr_payloadLength r = 0 \<and> sr_expectedAmountOfBytes r = of_nat 53
      else sr_payloadLength r = of_nat (length m) \<and>
           sr_expectedAmountOfBytes r = of_nat (53 + length m) \<and>
           sr_messageIdentifier r = TARGET_AGENT_MESSAGE)"

definition idle :: "socket_reader \<Rightarrow> bool" where
  "idle r \<longleftrightarrow> length (sr_payloadbuffer r) = BUFFER_SIZE \<and> sr_bytesAlreadyReceived r = 0 \<and>
     sr_payloadLength r = 0 \<and> sr_expectedAmountOfBytes r = HEADER_LENGTH_SIZE"

lemma idle_mid_frame: "idle r \<longleftrightarrow> mid_frame m 0 r"
  by (auto simp: idle_def mid_frame_def)

lemma small_word [simp]: "n \<le> BUFFER_SIZE \<Longrightarrow> unat (of_nat n :: u32) = n"
  by (simp add: unat_of_nat)

lemma receive_step:
  assumes "length (sr_payloadbuffer r) = BUFFER_SIZE" "sr_bytesAlreadyReceived r = of_nat k"
    "sr_expectedAmountOfBytes r = of_nat e" "k < e" "e < BUFFER_SIZE" "avail \<noteq> []"
    "c = min n (min (e - k) (length avail))"
  shows "onSocketReadable parse (RecvUpTo n) avail r =
    bindE dispatchMessage (\<lambda>_. returnE (drop c avail))
      (extractHeaderContent parse
        (r\<lparr> sr_bytesAlreadyReceived := of_nat (k + c),
            sr_payloadbuffer := take k (sr_payloadbuffer r) @ take c avail @ [CHR 0x00] @
              drop (k + c + 1) (sr_payloadbuffer r) \<rparr>))"
proof -
  have left: "of_nat e - of_nat k = (of_nat (e - k) :: u32)"
    using assms(4) by (simp add: of_nat_diff)
  have big: "\<not> of_nat BUFFER_SIZE \<le> (of_nat e :: u32)"
    using assms(5) by (simp add: word_le_nat_alt unat_of_nat)
  have len: "length (take (min n (e - k)) avail) = c"
    using assms(7) by simp
  have eq: "take (min n (e - k)) avail = take c avail"
    using assms(7) by (simp add: min_def)
  have "buf_write k (take c avail @ [CHR 0x00]) (sr_payloadbuffer r) =
      Some (take k (sr_payloadbuffer r) @ take c avail @ [CHR 0x00] @ drop (k + c + 1) (sr_payloadbuffer r))"
    using assms by (simp add: buf_write_def)
  then show ?thesis
    using assms left big
    by (simp add: onSocketReadable_def Let_def eq len del: of_nat_diff)
qed

text \<open>The same step while a frame is being read: the bytes received so far are those of the frame.\<close>

lemma receive_in_frame:
  assumes mf: "mid_frame m k r" and m: "carried_text m" and n: "1 \<le> n"
    and e: "e = (if k < 53 then 53 else 53 + length m)" "k < e"
    and avail: "avail = drop k (frame m) @ rest" and c: "c = min n (e - k)"
  shows "onSocketReadable parse (RecvUpTo n) avail r =
    bindE dispatchMessage (\<lambda>_. returnE (drop (k + c) (frame m) @ rest))
      (extractHeaderContent parse
        (r\<lparr> sr_bytesAlreadyReceived := of_nat (k + c),
            sr_payloadbuffer := take (k + c) (frame m) @ CHR 0x00 #
              drop (k + c + 1) (sr_payloadbuffer r) \<rparr>))"
proof -
  have len: "length (frame m) = 53 + length m" "e \<le> 53 + length m" "53 + length m < BUFFER_SIZE"
    using m e(1) by (auto simp: frame_def carried_text_def split: if_splits)
  have a: "length (sr_payloadbuffer r) = BUFFER_SIZE" "sr_bytesAlreadyReceived r = of_nat k"
    "sr_expectedAmountOfBytes r = of_nat e" "take k (sr_payloadbuffer r) = take k (frame m)"
    using mf e(1) unfolding mid_frame_def by (simp_all split: if_splits)
  have c': "c = min n (min (e - k) (length avail))" "avail \<noteq> []" "k + c \<le> length (frame m)"
    using c avail len e(2) by auto
  have "e < BUFFER_SIZE"
    using len by simp
  moreover have "take k (frame m) @ take c avail = take (k + c) (frame m)"
    using c'(3) avail by (simp add: take_add)
  moreover have "drop c avail = drop (k + c) (frame m) @ rest"
    using c'(3) avail by (simp add: add.commute)
  ultimately show ?thesis
    using receive_step [OF a(1-3) e(2) _ c'(2,1), of parse] a(4) by (simp flip: append_assoc)
qed

text \<open>What is still to be delivered: the texts of \<open>ms\<close>, the first of them read up to some byte.\<close>

fun pending :: "string list \<Rightarrow> string \<Rightarrow> socket_reader \<Rightarrow> bool" where
  "pending [] wire r = (idle r \<and> wire = [])"
| "pending (m # ms) wire r =
     (\<exists>k < length (frame m). mid_frame m k r \<and> wire = drop k (frame m) @ concat (List.map frame ms))"

lemma idle_pending: "idle r \<Longrightarrow> pending ms (concat (List.map frame ms)) r"
  by (cases ms) (auto simp: frame_def log_header_def intro!: exI [of _ 0] idle_mid_frame [THEN iffD1])

lemma length_frame: "carried_text m \<Longrightarrow> length (frame m) = 53 + length m"
  by (simp add: frame_def carried_text_def)

lemma step_header:
  assumes "reads_headers parse" "mid_frame m k r" "carried_text m" "1 \<le> n" "k < 53"
  shows "\<exists>r' j. onSocketReadable parse (RecvUpTo n) (drop k (frame m) @ rest) r =
      (Inr (drop j (frame m) @ rest), r') \<and> k < j \<and> j \<le> 53 \<and> mid_frame m j r' \<and> sr_sent r' = sr_sent r"
proof -
  define c where "c = min n (53 - k)"
  have c: "1 \<le> c" "k + c \<le> 53"
    using assms(4,5) by (auto simp: c_def)
  let ?buf = "take (k + c) (frame m) @ CHR 0x00 # drop (k + c + 1) (sr_payloadbuffer r)"
  let ?r = "r\<lparr> sr_bytesAlreadyReceived := of_nat (k + c), sr_payloadbuffer := ?buf \<rparr>"
  have st: "onSocketReadable parse (RecvUpTo n) (drop k (frame m) @ rest) r =
      bindE dispatchMessage (\<lambda>_. returnE (drop (k + c) (frame m) @ rest)) (extractHeaderContent parse ?r)"
    using receive_in_frame [OF assms(2,3,4) _ _ refl c_def, of parse rest] assms(5) by simp
  have buf: "length ?buf = BUFFER_SIZE" "take (k + c) ?buf = take (k + c) (frame m)"
    using assms(2,3) c(2) length_frame [OF assms(3)] by (simp_all add: mid_frame_def carried_text_def)
  have r: "sr_payloadLength r = 0" "sr_expectedAmountOfBytes r = of_nat 53"
    using assms(2,5) by (simp_all add: mid_frame_def)
  have m: "0 < length m" "length m < BUFFER_SIZE - 53"
    using assms(3) by (auto simp: carried_text_def)
  show ?thesis
  proof (cases "k + c < 53")
    case True
    have lt: "\<not> (53 :: u32) \<le> of_nat (k + c)"
      using True by (simp add: word_le_nat_alt unat_of_nat del: of_nat_add)
    have "extractHeaderContent parse ?r = ?r"
      using lt by (simp add: extractHeaderContent_def del: of_nat_add)
    moreover have "dispatchMessage ?r = (Inr (), ?r)"
      using lt r by (simp add: dispatchMessage_def del: of_nat_add)
    ultimately show ?thesis
      using st True c buf r
      by (intro exI [of _ ?r] exI [of _ "k + c"]) (simp add: bindE_def mid_frame_def del: of_nat_add)
  next
    case False
    then have kc: "k + c = 53"
      using c by simp
    have hd: "take 53 ?buf = log_header (length m)"
      using m kc by (simp add: frame_def)
    let ?s = "?r\<lparr> sr_payloadLength := of_nat (length m),
                 sr_expectedAmountOfBytes := of_nat (53 + length m),
                 sr_messageIdentifier := TARGET_AGENT_MESSAGE \<rparr>"
    have ex: "extractHeaderContent parse ?r = ?s"
      using assms(1) hd kc r m by (simp add: extractHeaderContent_def reads_headers_def)
    have "\<not> (of_nat (53 + length m) :: u32) \<le> 53"
      using m by (simp add: word_le_nat_alt unat_of_nat del: of_nat_add)
    then have "dispatchMessage ?s = (Inr (), ?s)"
      using kc by (simp add: dispatchMessage_def)
    then show ?thesis
      using st ex kc buf assms(5)
      by (intro exI [of _ ?s] exI [of _ 53]) (simp add: bindE_def mid_frame_def)
  qed
qed

lemma c_string_text: "\<forall>c \<in> set m. of_char c \<noteq> (0 :: nat) \<Longrightarrow> c_string (m @ CHR 0x00 # t) = m"
  by (simp add: c_string_def)

lemma step_text:
  assumes "mid_frame m k r" "carried_text m" "1 \<le> n" "53 \<le> k" "k < length (frame m)"
  shows "\<exists>r' j. onSocketReadable parse (RecvUpTo n) (drop k (frame m) @ rest) r =
      (Inr (drop j (frame m) @ rest), r') \<and> k < j \<and>
      (if j < length (frame m) then mid_frame m j r' \<and> sr_sent r' = sr_sent r
       else idle r' \<and> sr_sent r' = sr_sent r @ [agent_text m])"
proof -
  note len = length_frame [OF assms(2)]
  define c where "c = min n (53 + length m - k)"
  have c: "1 \<le> c" "k + c \<le> 53 + length m"
    using assms(3,5) len by (auto simp: c_def)
  let ?buf = "take (k + c) (frame m) @ CHR 0x00 # drop (k + c + 1) (sr_payloadbuffer r)"
  let ?r = "r\<lparr> sr_bytesAlreadyReceived := of_nat (k + c), sr_payloadbuffer := ?buf \<rparr>"
  have m: "0 < length m" "53 + length m < BUFFER_SIZE" "\<forall>c \<in> set m. of_char c \<noteq> (0 :: nat)"
    using assms(2) by (auto simp: carried_text_def)
  have r: "sr_payloadLength r = of_nat (length m)" "sr_messageIdentifier r = TARGET_AGENT_MESSAGE"
    "sr_expectedAmountOfBytes r = of_nat (53 + length m)" "length (sr_payloadbuffer r) = BUFFER_SIZE"
    using assms(1,4) by (simp_all add: mid_frame_def)
  have pl: "(of_nat (length m) :: u32) \<noteq> 0"
    using m by (simp add: word_unat_eq_iff unat_of_nat)
  have st: "onSocketReadable parse (RecvUpTo n) (drop k (frame m) @ rest) r =
      bindE dispatchMessage (\<lambda>_. returnE (drop (k + c) (frame m) @ rest)) (extractHeaderContent parse ?r)"
    using receive_in_frame [OF assms(1,2,3) _ _ refl c_def, of parse rest] assms(4,5) len by simp
  have ex: "extractHeaderContent parse ?r = ?r"
    using pl r by (simp add: extractHeaderContent_def)
  have buf: "length ?buf = BUFFER_SIZE" "take (k + c) ?buf = take (k + c) (frame m)"
    using r(4) c(2) m(2) len by simp_all
  have le: "(of_nat (53 + length m) :: u32) \<le> of_nat (k + c) \<longleftrightarrow> k + c = 53 + length m"
    using m(2) c(2) by (auto simp: word_le_nat_alt unat_of_nat simp del: of_nat_add)
  have pos: "(of_nat (k + c) :: u32) \<noteq> 0"
    using c m(2) assms(4) by (simp add: word_unat_eq_iff unat_of_nat del: of_nat_add)
  show ?thesis
  proof (cases "k + c = 53 + length m")
    case False
    then have "dispatchMessage ?r = (Inr (), ?r)"
      using le r by (simp add: dispatchMessage_def del: of_nat_add)
    then show ?thesis
      using st ex False buf r c assms(4) len
      by (intro exI [of _ ?r] exI [of _ "k + c"]) (simp add: bindE_def mid_frame_def del: of_nat_add)
  next
    case True
    have tail: "drop 53 ?buf = m @ CHR 0x00 # drop (k + c + 1) (sr_payloadbuffer r)"
      using True len m by (simp add: frame_def)
    have nul: "\<exists>c \<in> set (drop 53 ?buf). of_char c = (0 :: nat)"
      unfolding tail by simp
    let ?s = "resetCounters (sendRawTMessage (agent_text m) ?r)"
    have "dispatchMessage ?r = (Inr (), ?s)"
      using True le pos pl r nul tail c_string_text [OF m(3)]
      by (simp add: dispatchMessage_def agent_text_def Let_def del: of_nat_add)
    then show ?thesis
      using st ex True buf c len
      by (intro exI [of _ ?s] exI [of _ "k + c"])
        (simp add: bindE_def idle_def resetCounters_def sendRawTMessage_def del: of_nat_add)
  qed
qed

lemma step_pending:
  assumes law: "reads_headers parse" and ms: "\<forall>m \<in> set ms. carried_text m" and n: "1 \<le> n"
    and pd: "pending ms wire r"
  shows "\<exists>ms' wire' r' done. onSocketReadable parse (RecvUpTo n) wire r = (Inr wire', r') \<and>
      pending ms' wire' r' \<and> ms = done @ ms' \<and> sr_sent r' = sr_sent r @ List.map agent_text done \<and>
      (wire \<noteq> [] \<longrightarrow> length wire' < length wire)"
proof (cases ms)
  case Nil
  then show ?thesis
    using pd by (intro exI [of _ "[]"] exI [of _ r]) (simp add: onSocketReadable_def Let_def)
next
  case (Cons m ms1)
  obtain k where k: "k < length (frame m)" "mid_frame m k r"
      "wire = drop k (frame m) @ concat (List.map frame ms1)"
    using pd Cons by auto
  have m: "carried_text m"
    using ms Cons by simp
  let ?on = "onSocketReadable parse (RecvUpTo n) wire r"
  have "\<exists>r' j. ?on = (Inr (drop j (frame m) @ concat (List.map frame ms1)), r') \<and> k < j \<and>
      (if j < length (frame m) then mid_frame m j r' \<and> sr_sent r' = sr_sent r
       else idle r' \<and> sr_sent r' = sr_sent r @ [agent_text m])"
  proof (cases "k < 53")
    case True
    have "53 < length (frame m)"
      using m by (auto simp: frame_def carried_text_def)
    then show ?thesis
      using step_header [OF law k(2) m n True, of "concat (List.map frame ms1)"] k(3) by fastforce
  next
    case False
    then show ?thesis
      using step_text [OF k(2) m n _ k(1), of parse "concat (List.map frame ms1)"] k(3) by simp
  qed
  then obtain r' j where j: "?on = (Inr (drop j (frame m) @ concat (List.map frame ms1)), r')" "k < j"
      "if j < length (frame m) then mid_frame m j r' \<and> sr_sent r' = sr_sent r
       else idle r' \<and> sr_sent r' = sr_sent r @ [agent_text m]"
    by blast
  show ?thesis
  proof (cases "j < length (frame m)")
    case True
    then show ?thesis
      using j k Cons by (intro exI [of _ ms] exI [of _ r'] exI [of _ "[]"] exI) auto
  next
    case False
    then show ?thesis
      using j k Cons idle_pending [of r' ms1]
      by (intro exI [of _ ms1] exI [of _ r'] exI [of _ "[m]"] exI) auto
  qed
qed

lemma reads_deliver:
  assumes "reads_headers parse" "\<forall>m \<in> set ms. carried_text m" "\<forall>n \<in> set ns. 1 \<le> n"
    "length wire \<le> length ns" "pending ms wire r"
  shows "\<exists>r'. readable_events parse (List.map RecvUpTo ns) wire r = (Inr [], r') \<and> idle r' \<and>
      sr_sent r' = sr_sent r @ List.map agent_text ms"
  using assms(2-5)
proof (induction ns arbitrary: ms wire r)
  case Nil
  then have "pending ms [] r"
    by simp
  then have "ms = [] \<and> idle r"
    by (cases ms) auto
  then show ?case
    using Nil by simp
next
  case (Cons n ns)
  obtain ms' wire' r' dn where st: "onSocketReadable parse (RecvUpTo n) wire r = (Inr wire', r')"
      "pending ms' wire' r'" "ms = dn @ ms'" "sr_sent r' = sr_sent r @ List.map agent_text dn"
      "wire \<noteq> [] \<longrightarrow> length wire' < length wire"
    using step_pending [OF assms(1) Cons.prems(1) _ Cons.prems(4), of n] Cons.prems(2) by auto
  have "length wire' \<le> length ns"
    using st(1,5) Cons.prems(3) by (cases "wire = []") (auto simp: onSocketReadable_def Let_def)
  then show ?case
    using Cons.IH [of ms' wire' r'] st Cons.prems(1,2) by (simp add: bindE_def)
qed

lemma framed_frames: "framed ms = concat (List.map frame ms)"
  by (simp add: framed_def frame_def [abs_def])

text \<open>A header parser: \<^verbatim>\<open>sscanf\<close> on the format the logger prints.\<close>

definition scan_header :: header_parser where
  "scan_header t =
     (case sscanf (literal ''payloadLength:'' @ [White, Unsigned 10]) t of
        [n] \<Rightarrow> Some (n, TARGET_AGENT_MESSAGE) | _ \<Rightarrow> None)"

lemma scan_header_reads: "reads_headers scan_header"
  unfolding reads_headers_def
proof (intro allI impI)
  fix n :: nat
  let ?d = "print_decimal n" and ?t = "'' messageType: TARGET_AGENT_MESSAGE''"
  obtain c r where cr: "?d = c # r"
    by (cases ?d) auto
  obtain k where "k < 10" "c = digit_char k"
    using print_decimal_digits [of c n] cr by auto
  then have sp: "\<not> is_space c" "is_space CHR '' ''"
    using digit_char_not_sign [of k] by (simp_all add: is_space_def [of "CHR '' ''"])
  then have "dropWhile is_space (CHR '' '' # replicate j CHR '' '' @ ?d @ ?t) = ?d @ ?t" for j
    by (induction j) (simp_all add: cr)
  then have "sscanf [White, Unsigned 10] (CHR '' '' # replicate j CHR '' '' @ ?d @ ?t) = [int n]" for j
    using scan_unsigned_decimal [of ?t n] by (simp add: digit_value_def)
  moreover have "\<forall>c \<in> set ''payloadLength:''. \<not> is_space c"
    by (simp add: is_space_def)
  ultimately show "scan_header (log_header n) = Some (int n, TARGET_AGENT_MESSAGE)"
    using sscanf_literal [of "''payloadLength:''" "[White, Unsigned 10]"
        "CHR '' '' # replicate (4 - length ?d) CHR '' '' @ ?d @ ?t"]
    by (simp add: scan_header_def log_header_def print_width4_def Let_def)
qed

lemma length_framed_witness: "length (framed [''ready'', ''x'']) = 112"
  by (simp add: framed_def)

section \<open>Properties\<close>

text \<open>C7: Log texts that fit the reader's buffer reach the client exactly as logged: whatever pieces
  \<^verbatim>\<open>sendBytes\<close> takes on the logger's side and whatever pieces \<^verbatim>\<open>receiveBytes\<close> delivers on the reader's,
  each text is sent on once, whole, in order and marked as a message of the agent, nothing else is, and
  the connection ends between two frames. The texts are not empty, hold no NUL and are at most 4042
  characters long; the header parser reads the headers the logger prints.\<close>

theorem log_texts_delivered:
  assumes "reads_headers parse" "progresses takes" "\<forall>m \<in> set ms. carried_text m"
    "length payloadbuffer = BUFFER_SIZE" "\<forall>n \<in> set ns. 1 \<le> n" "length (framed ms) \<le> length ns"
  shows "\<exists>j wire r. buildMessages takes ms (0, []) = Some (j, wire) \<and>
      readable_events parse (List.map RecvUpTo ns) wire (new_CSocketReaderServer payloadbuffer) = (Inr [], r) \<and>
      sr_sent r = List.map agent_text ms \<and> idle r"
proof -
  have "\<forall>m \<in> set ms. length m < 2 ^ 32 \<and> length (log_header (length m)) < 2 ^ 32"
    using assms(3) by (auto simp: carried_text_def)
  then obtain j where j: "buildMessages takes ms (0, []) = Some (j, framed ms)"
    using buildMessages_progress [OF assms(2), of ms 0 "[]"] by auto
  let ?r = "new_CSocketReaderServer payloadbuffer"
  have "pending ms (framed ms) ?r"
    using idle_pending [of ?r ms] assms(4) by (simp add: framed_frames idle_def new_CSocketReaderServer_def)
  then show ?thesis
    using reads_deliver [OF assms(1,3,5,6), of ?r] j by (auto simp: new_CSocketReaderServer_def)
qed

lemma log_texts_delivered_witness:
  "\<exists>j wire r. buildMessages (\<lambda>_. Some 2) [''ready'', ''x''] (0, []) = Some (j, wire) \<and>
      readable_events scan_header (List.map RecvUpTo (replicate 200 7)) wire
        (new_CSocketReaderServer (replicate 4096 CHR 0x00)) = (Inr [], r) \<and>
      sr_sent r = List.map agent_text [''ready'', ''x''] \<and> idle r"
  by (rule log_texts_delivered [OF scan_header_reads])
    (simp_all add: progresses_def carried_text_def length_framed_witness)

text \<open>A text of 4043 characters or more is not carried: with its header it reaches the size of the
  buffer, and the server then reads it to the start of the buffer, over the header it still takes off.
  When the text arrives in one piece, up to 4095 characters are forwarded without their first 53, and
  from 4096 on the terminating NUL is written one byte past the end of the buffer.\<close>

theorem long_text_mangled:
  assumes "mid_frame m 53 r" "BUFFER_SIZE \<le> 53 + length m" "length m < 10000" "length m \<le> n"
    "\<forall>c \<in> set m. of_char c \<noteq> (0 :: nat)"
  shows "if length m < BUFFER_SIZE
         then \<exists>r'. onSocketReadable parse (RecvUpTo n) m r = (Inr [], r') \<and>
                sr_sent r' = sr_sent r @ [agent_text (drop 53 m)]
         else onSocketReadable parse (RecvUpTo n) m r = (Inl BufferOverflow, r)"
proof -
  have r: "sr_payloadLength r = of_nat (length m)" "sr_messageIdentifier r = TARGET_AGENT_MESSAGE"
    "sr_expectedAmountOfBytes r = of_nat (53 + length m)" "length (sr_payloadbuffer r) = BUFFER_SIZE"
    "sr_bytesAlreadyReceived r = of_nat 53"
    using assms(1) by (simp_all add: mid_frame_def)
  have u: "unat (of_nat (length m) :: u32) = length m" "unat (of_nat (53 + length m) :: u32) = 53 + length m"
    using assms(3) by (simp_all add: unat_of_nat del: of_nat_add)
  have left: "of_nat (53 + length m) - of_nat 53 = (of_nat (length m) :: u32)"
    by simp
  have big: "of_nat BUFFER_SIZE \<le> (of_nat (53 + length m) :: u32)"
    using assms(2) u(2) by (simp only: word_le_nat_alt) (simp add: unat_of_nat)
  have gt: "(of_nat BUFFER_SIZE :: u32) < of_nat (length m) \<longleftrightarrow> BUFFER_SIZE < length m"
    using u(1) by (simp only: word_less_nat_alt) (simp add: unat_of_nat)
  have ne: "m \<noteq> []" "(of_nat (length m) :: u32) \<noteq> 0"
    using assms(2) u(1) by (auto simp: word_unat_eq_iff)
  show ?thesis
  proof (cases "length m < BUFFER_SIZE")
    case True
    let ?b = "m @ CHR 0x00 # drop (length m + 1) (sr_payloadbuffer r)"
    let ?r = "r\<lparr> sr_bytesAlreadyReceived := of_nat (53 + length m), sr_payloadbuffer := ?b \<rparr>"
    have on: "onSocketReadable parse (RecvUpTo n) m r =
        bindE dispatchMessage (\<lambda>_. returnE []) (extractHeaderContent parse ?r)"
      using True big gt u r ne assms(4)
      by (simp add: onSocketReadable_def Let_def left buf_write_def min_absorb2)
    have ex: "extractHeaderContent parse ?r = ?r"
      using ne r by (simp add: extractHeaderContent_def)
    have tail: "drop 53 ?b = drop 53 m @ CHR 0x00 # drop (length m + 1) (sr_payloadbuffer r)"
      using assms(2) by simp
    have "(of_nat (53 + length m) :: u32) \<noteq> 0"
      using u(2) by (metis add_is_0 unat_0 zero_neq_numeral)
    moreover have "c_string (drop 53 ?b) = drop 53 m" "\<exists>c \<in> set (drop 53 ?b). of_char c = (0 :: nat)"
      unfolding tail using assms(5) by (auto intro!: c_string_text dest: in_set_dropD)
    ultimately have "dispatchMessage ?r = (Inr (), resetCounters (sendRawTMessage (agent_text (drop 53 m)) ?r))"
      using r ne by (simp add: dispatchMessage_def Let_def agent_text_def del: of_nat_add)
    then show ?thesis
      using True on ex by (simp add: bindE_def resetCounters_def sendRawTMessage_def)
  next
    case False
    then have "min n (if BUFFER_SIZE < length m then BUFFER_SIZE else length m) = BUFFER_SIZE"
      using assms(4) by simp
    then show ?thesis
      using False big gt u r ne by (auto simp: onSocketReadable_def Let_def left buf_write_def)
  qed
qed

text \<open>A server that has just read the header of \<open>m\<close>.\<close>

definition header_read :: "string \<Rightarrow> socket_reader" where
  "header_read m =
     \<lparr> sr_messageIdentifier = TARGET_AGENT_MESSAGE,
       sr_payloadbuffer = log_header (length m) @ replicate (BUFFER_SIZE - 53) CHR 0x00,
       sr_bytesAlreadyReceived = of_nat 53, sr_payloadLength = of_nat (length m),
       sr_expectedAmountOfBytes = of_nat (53 + length m), sr_sent = [] \<rparr>"

lemma header_read_mid_frame: "length m < 10000 \<Longrightarrow> mid_frame m 53 (header_read m)"
  by (simp add: mid_frame_def header_read_def frame_def)

lemma long_text_mangled_witness:
  "(\<exists>r'. onSocketReadable scan_header (RecvUpTo 5000) (replicate 4095 CHR ''a'')
           (header_read (replicate 4095 CHR ''a'')) = (Inr [], r') \<and>
         sr_sent r' = [agent_text (replicate 4042 CHR ''a'')]) \<and>
   onSocketReadable scan_header (RecvUpTo 5000) (replicate 4096 CHR ''a'')
     (header_read (replicate 4096 CHR ''a'')) = (Inl BufferOverflow, header_read (replicate 4096 CHR ''a''))"
  using long_text_mangled [OF header_read_mid_frame, of "replicate 4095 CHR ''a''" 5000 scan_header]
    long_text_mangled [OF header_read_mid_frame, of "replicate 4096 CHR ''a''" 5000 scan_header]
  by (simp add: header_read_def)

text \<open>Between two notifications the server always waits for at least one more byte.\<close>

definition reader_wf :: "socket_reader \<Rightarrow> bool" where
  "reader_wf r \<longleftrightarrow> length (sr_payloadbuffer r) = BUFFER_SIZE \<and>
     sr_bytesAlreadyReceived r < sr_expectedAmountOfBytes r"

lemma reader_wf_new: "length b = BUFFER_SIZE \<Longrightarrow> reader_wf (new_CSocketReaderServer b)"
  by (simp add: reader_wf_def new_CSocketReaderServer_def)

lemma reader_wf_reset: "length (sr_payloadbuffer r) = BUFFER_SIZE \<Longrightarrow> reader_wf (resetCounters r)"
  by (simp add: reader_wf_def resetCounters_def)

lemma extractHeaderContent_keeps [simp]:
  "sr_payloadbuffer (extractHeaderContent parse r) = sr_payloadbuffer r"
  "sr_bytesAlreadyReceived (extractHeaderContent parse r) = sr_bytesAlreadyReceived r"
  "sr_sent (extractHeaderContent parse r) = sr_sent r"
  by (simp_all add: extractHeaderContent_def split: option.split)

lemma dispatchMessage_wf:
  assumes "dispatchMessage r = (Inr u, r')" "length (sr_payloadbuffer r) = BUFFER_SIZE"
    "sr_bytesAlreadyReceived r \<noteq> 0 \<or> sr_bytesAlreadyReceived r < sr_expectedAmountOfBytes r"
  shows "reader_wf r' \<and> length (sr_sent r') \<le> Suc (length (sr_sent r))"
  using assms by (auto simp: dispatchMessage_def Let_def reader_wf_def resetCounters_def sendRawTMessage_def
      not_le split: if_splits)

lemma received_count:
  assumes "(b :: u32) < e" "c \<le> unat (e - b)"
  shows "unat (b + of_nat c) = unat b + c" "unat b + c \<le> unat e"
proof -
  have "unat (e - b) = unat e - unat b"
    using assms(1) by (simp add: unat_sub_if' word_less_nat_alt less_imp_le)
  then show le: "unat b + c \<le> unat e"
    using assms by (simp add: word_less_nat_alt)
  have "unat e < 2 ^ 32"
    using unsigned_less [of e] by simp
  then show "unat (b + of_nat c) = unat b + c"
    using le by (simp add: unat_word_ariths unat_of_nat)
qed

text \<open>What a call of \<^verbatim>\<open>receiveBytes\<close> takes from the socket, and where it goes.\<close>

lemma receive_into_buffer:
  assumes "reader_wf r" "avail \<noteq> []"
  obtains pos got where "length got \<le> n" "avail = got @ drop (length got) avail"
    and "length got \<le> unat (sr_expectedAmountOfBytes r - sr_bytesAlreadyReceived r)"
    and "onSocketReadable parse (RecvUpTo n) avail r =
      (case buf_write pos (got @ [CHR 0x00]) (sr_payloadbuffer r) of
         None \<Rightarrow> (Inl BufferOverflow, r)
       | Some buf \<Rightarrow> bindE dispatchMessage (\<lambda>_. returnE (drop (length got) avail))
           (extractHeaderContent parse
             (r\<lparr> sr_bytesAlreadyReceived := sr_bytesAlreadyReceived r + of_nat (length got),
                sr_payloadbuffer := buf \<rparr>)))"
    and "buf_write pos (got @ [CHR 0x00]) (sr_payloadbuffer r) = None \<Longrightarrow>
      of_nat BUFFER_SIZE \<le> sr_expectedAmountOfBytes r \<and> BUFFER_SIZE \<le> length got"
proof -
  let ?b = "sr_bytesAlreadyReceived r" and ?e = "sr_expectedAmountOfBytes r"
  have wf: "length (sr_payloadbuffer r) = BUFFER_SIZE" "?b < ?e"
    using assms(1) by (simp_all add: reader_wf_def)
  define pos where "pos = (if ?e \<ge> of_nat BUFFER_SIZE then 0 else unat ?b)"
  define want where "want = (if ?e \<ge> of_nat BUFFER_SIZE \<and> ?e - ?b > of_nat BUFFER_SIZE
      then BUFFER_SIZE else unat (?e - ?b))"
  define got where "got = take (min n want) avail"
  have "want \<le> unat (?e - ?b)"
    by (auto simp: want_def word_less_nat_alt)
  then have got: "length got \<le> unat (?e - ?b)" "length got \<le> n"
    by (simp_all add: got_def)
  show thesis
  proof (rule that [of got pos])
    show "avail = got @ drop (length got) avail"
      using append_take_drop_id [of "min n want" avail] by (auto simp: got_def min_def)
    show "onSocketReadable parse (RecvUpTo n) avail r =
      (case buf_write pos (got @ [CHR 0x00]) (sr_payloadbuffer r) of
         None \<Rightarrow> (Inl BufferOverflow, r)
       | Some buf \<Rightarrow> bindE dispatchMessage (\<lambda>_. returnE (drop (length got) avail))
           (extractHeaderContent parse
             (r\<lparr> sr_bytesAlreadyReceived := ?b + of_nat (length got), sr_payloadbuffer := buf \<rparr>)))"
      using assms(2) unfolding onSocketReadable_def Let_def pos_def want_def got_def by simp
  next
    assume "buf_write pos (got @ [CHR 0x00]) (sr_payloadbuffer r) = None"
    then have "BUFFER_SIZE < pos + length got + 1"
      using wf(1) by (simp add: buf_write_def split: if_splits)
    moreover have "pos + length got + 1 \<le> BUFFER_SIZE" if "\<not> ?e \<ge> of_nat BUFFER_SIZE"
      using that received_count(2) [OF wf(2) got(1)] by (simp add: pos_def word_le_nat_alt)
    ultimately show "of_nat BUFFER_SIZE \<le> ?e \<and> BUFFER_SIZE \<le> length got"
      unfolding pos_def by (cases "?e \<ge> of_nat BUFFER_SIZE"; simp; linarith)
  qed (use got in simp_all)
qed

text \<open>Then the header is looked at and a complete message forwarded.\<close>

lemma received_wf:
  assumes "reader_wf r" "n \<le> unat (sr_expectedAmountOfBytes r - sr_bytesAlreadyReceived r)"
    and "length buf = BUFFER_SIZE"
  shows "case bindE dispatchMessage (\<lambda>_. returnE rest)
      (extractHeaderContent parse
        (r\<lparr> sr_bytesAlreadyReceived := sr_bytesAlreadyReceived r + of_nat n, sr_payloadbuffer := buf \<rparr>)) of
      (Inr rest', r') \<Rightarrow> rest' = rest \<and> reader_wf r' \<and> length (sr_sent r') \<le> Suc (length (sr_sent r))
    | (Inl e, r') \<Rightarrow> e = ReadPastBuffer \<and> sr_sent r' = sr_sent r"
proof -
  let ?r = "extractHeaderContent parse
      (r\<lparr> sr_bytesAlreadyReceived := sr_bytesAlreadyReceived r + of_nat n, sr_payloadbuffer := buf \<rparr>)"
  have less: "sr_bytesAlreadyReceived r < sr_expectedAmountOfBytes r"
    using assms(1) by (simp add: reader_wf_def)
  have bytes: "sr_bytesAlreadyReceived ?r \<noteq> 0 \<or> sr_bytesAlreadyReceived ?r < sr_expectedAmountOfBytes ?r"
  proof (cases "sr_bytesAlreadyReceived r + of_nat n = 0")
    case True
    then show ?thesis
      using less received_count(1) [OF less assms(2)] by (simp add: extractHeaderContent_def word_less_nat_alt)
  qed simp
  obtain x r' where d: "dispatchMessage ?r = (x, r')"
    by force
  show ?thesis
  proof (cases x)
    case (Inl err)
    then have "err = ReadPastBuffer" "r' = ?r"
      using d by (auto simp: dispatchMessage_def Let_def split: if_splits)
    then show ?thesis
      using d Inl by (simp add: bindE_def)
  next
    case (Inr u)
    then show ?thesis
      using d dispatchMessage_wf [OF d [unfolded Inr] _ bytes] assms(3) by (simp add: bindE_def)
  qed
qed

text \<open>C23: Whatever arrives and whatever the header parser answers, a notification that returns leaves the
  server well formed - the buffer at its size, the count of received bytes below the expected one - and
  forwards at most one message; and a write outside the buffer happens only when at least 4096 bytes are
  expected and the call of \<^verbatim>\<open>receiveBytes\<close> fills the whole buffer.\<close>

theorem onSocketReadable_wf:
  assumes "reader_wf r"
  shows "case onSocketReadable parse recv avail r of
           (Inr rest, r') \<Rightarrow> reader_wf r' \<and> length (sr_sent r') \<le> Suc (length (sr_sent r)) \<and>
              (\<exists>got. avail = got @ rest)
         | (Inl BufferOverflow, r') \<Rightarrow> sr_expectedAmountOfBytes r \<ge> of_nat BUFFER_SIZE \<and>
              BUFFER_SIZE \<le> length avail \<and> (\<exists>n \<ge> BUFFER_SIZE. recv = RecvUpTo n)
         | (Inl e, r') \<Rightarrow> sr_sent r' = sr_sent r"
proof (cases "avail = []")
  case True
  then show ?thesis
    using assms by (simp add: onSocketReadable_def Let_def)
next
  case ne: False
  have len: "length (sr_payloadbuffer r) = BUFFER_SIZE"
    using assms by (simp add: reader_wf_def)
  show ?thesis
  proof (cases recv)
    case (RecvUpTo n)
    show ?thesis
    proof (rule receive_into_buffer [OF assms ne, of n parse])
      fix pos got
      assume got: "length got \<le> n" "avail = got @ drop (length got) avail"
          "length got \<le> unat (sr_expectedAmountOfBytes r - sr_bytesAlreadyReceived r)"
        and on: "onSocketReadable parse (RecvUpTo n) avail r =
          (case buf_write pos (got @ [CHR 0x00]) (sr_payloadbuffer r) of
             None \<Rightarrow> (Inl BufferOverflow, r)
           | Some buf \<Rightarrow> bindE dispatchMessage (\<lambda>_. returnE (drop (length got) avail))
               (extractHeaderContent parse
                 (r\<lparr> sr_bytesAlreadyReceived := sr_bytesAlreadyReceived r + of_nat (length got),
                    sr_payloadbuffer := buf \<rparr>)))"
        and full: "buf_write pos (got @ [CHR 0x00]) (sr_payloadbuffer r) = None \<Longrightarrow>
          of_nat BUFFER_SIZE \<le> sr_expectedAmountOfBytes r \<and> BUFFER_SIZE \<le> length got"
      show ?thesis
      proof (cases "buf_write pos (got @ [CHR 0x00]) (sr_payloadbuffer r)")
        case None
        moreover have "length got \<le> length avail"
          using arg_cong [OF got(2), of length] by simp
        ultimately show ?thesis
          using on full got(1) RecvUpTo by auto
      next
        case (Some buf)
        then show ?thesis
          using on RecvUpTo got(2) received_wf [OF assms got(3), of buf "drop (length got) avail" parse]
            buf_write_length [OF Some] len
          by (auto split: prod.splits sum.splits)
      qed
    qed
  qed (use len ne in \<open>simp_all add: onSocketReadable_def Let_def reader_wf_reset, simp_all add: resetCounters_def\<close>)
qed

lemma onSocketReadable_wf_witness:
  "case onSocketReadable (\<lambda>_. Some (-1, 7)) (RecvUpTo 60) ''abc'' (new_CSocketReaderServer (replicate 4096 CHR 0x00)) of
     (Inr rest, r') \<Rightarrow> reader_wf r' \<and> length (sr_sent r') \<le> 1 \<and> (\<exists>got. ''abc'' = got @ rest)
   | (Inl BufferOverflow, r') \<Rightarrow> False
   | (Inl e, r') \<Rightarrow> sr_sent r' = []"
  using onSocketReadable_wf [OF reader_wf_new [of "replicate 4096 CHR 0x00"], where parse = "\<lambda>_. Some (-1, 7)" and recv = "RecvUpTo 60" and avail = "''abc''"]
  by (simp add: new_CSocketReaderServer_def split: prod.splits sum.splits reader_error.splits)

text \<open>An empty text leaves no trace of its own: its header, whose length is zero, is forwarded as data.\<close>

lemma empty_text_forwards_header:
  assumes "reads_headers parse" "idle r"
  shows "\<exists>r'. onSocketReadable parse (RecvUpTo 53) (frame []) r = (Inr [], r') \<and> idle r' \<and>
           sr_sent r' = sr_sent r @ [agent_text (log_header 0)]"
proof -
  let ?r = "r\<lparr> sr_bytesAlreadyReceived := 53,
               sr_payloadbuffer := log_header 0 @ CHR 0x00 # drop 54 (sr_payloadbuffer r) \<rparr>"
  have r: "length (sr_payloadbuffer r) = BUFFER_SIZE" "sr_bytesAlreadyReceived r = of_nat 0"
    "sr_expectedAmountOfBytes r = of_nat 53" "sr_payloadLength r = 0"
    using assms(2) by (simp_all add: idle_def)
  have ne: "log_header 0 \<noteq> []"
    using length_log_header [of 0] by force
  have on: "onSocketReadable parse (RecvUpTo 53) (frame []) r =
      bindE dispatchMessage (\<lambda>_. returnE []) (extractHeaderContent parse ?r)"
    using receive_step [OF r(1-3), of "frame []" 53 53 parse] ne by (simp add: frame_def)
  let ?s = "?r\<lparr> sr_messageIdentifier := TARGET_AGENT_MESSAGE \<rparr>"
  have ex: "extractHeaderContent parse ?r = ?s"
    using assms(1) r by (simp add: extractHeaderContent_def reads_headers_def)
  have "\<forall>c \<in> set (log_header 0). of_char c \<noteq> (0 :: nat)"
    using print_decimal_no_nul [of _ 0] by (auto simp: log_header_def print_width4_def Let_def)
  then have "dispatchMessage ?s = (Inr (), resetCounters (sendRawTMessage (agent_text (log_header 0)) ?s))"
    using r by (simp add: dispatchMessage_def Let_def agent_text_def c_string_text)
  then show ?thesis
    using on ex r by (simp add: bindE_def idle_def resetCounters_def sendRawTMessage_def)
qed

text \<open>Stopping the plugin ends every server, whatever happened at the start.\<close>

lemma stop_reader_plugin_all: "stop_reader_plugin p = (True, p\<lparr> srp_servers := [] \<rparr>)"
proof (induction p rule: stop_reader_plugin.induct)
  case (1 p)
  then show ?case
    by (subst stop_reader_plugin.simps) (cases p; simp)
qed

lemma start_servers_prefix:
  "\<exists>k. srp_servers (snd (start_servers can_bind ports p)) = srp_servers p @ take k ports \<and>
       (\<forall>i < k. i < length ports \<longrightarrow> can_bind (ports ! i))"
proof (induction ports arbitrary: p)
  case (Cons port ports)
  show ?case
  proof (cases "can_bind port")
    case True
    obtain k where "srp_servers (snd (start_servers can_bind ports (p\<lparr> srp_servers := srp_servers p @ [port] \<rparr>))) =
          (srp_servers p @ [port]) @ take k ports" "\<forall>i < k. i < length ports \<longrightarrow> can_bind (ports ! i)"
      using Cons.IH [of "p\<lparr> srp_servers := srp_servers p @ [port] \<rparr>"] by auto
    then show ?thesis
      using True by (intro exI [of _ "Suc k"]) (auto simp: nth_Cons split: nat.split)
  qed (auto intro: exI [of _ 0])
qed simp

end
