(* ===== verification/PacketSniffer.thy ===== *)
theory PacketSniffer
  imports Scanf
begin

unbundle bit_operations_syntax

text \<open>
  The network packet sniffer plugin (\<^verbatim>\<open>networkPacketSniffer-plugin/src/networkPacketCollector.cpp\<close> and
  \<^verbatim>\<open>networkPacketSnifferPlugin.cpp\<close>): the packets the capture library delivers are decoded, wrapped
  into a JSON text and forwarded. A captured packet is the parts of it the code asks the library for.
  Whether a plain \<^verbatim>\<open>char\<close> is signed is the platform's choice and a parameter (\<open>sg\<close>): the constants the
  frame decoder compares with are of that type.
\<close>

section \<open>Frames\<close>

definition char_value :: "bool \<Rightarrow> byte \<Rightarrow> int" where
  "char_value sg b = (if sg then sint b else uint b)"

abbreviation DATA_FRAME_MASK :: byte where "DATA_FRAME_MASK \<equiv> 0x81"
abbreviation PAYLOAD_LENGTH_MASK :: byte where "PAYLOAD_LENGTH_MASK \<equiv> 0x7f"
abbreviation PAYLOAD_MASKBIT_MASK :: byte where "PAYLOAD_MASKBIT_MASK \<equiv> 0x80"
abbreviation PAYLOAD_SIZE_126 :: nat where "PAYLOAD_SIZE_126 \<equiv> 126"
abbreviation PAYLOAD_SIZE_127 :: nat where "PAYLOAD_SIZE_127 \<equiv> 127"
abbreviation MASK_SIZE :: nat where "MASK_SIZE \<equiv> 4"

text \<open>Reading and writing through the raw pointer: \<^const>\<open>None\<close> outside the payload.\<close>

definition payload_at :: "byte list \<Rightarrow> nat \<Rightarrow> byte option" where
  "payload_at p i = (if i < length p then Some (p ! i) else None)"

definition unmask_payload :: "byte list \<Rightarrow> nat \<Rightarrow> nat \<Rightarrow> byte list \<Rightarrow> byte list option" where
  "unmask_payload key off len p =
     (if off + len \<le> length p
      then Some (take off p @ List.map (\<lambda>i. p ! (off + i) XOR key ! (i mod MASK_SIZE)) [0..<len] @
                 drop (off + len) p)
      else None)"

text \<open>\<^verbatim>\<open>asprintf(&buffer, "%.*s", n, s)\<close>: at most \<open>n\<close> bytes, up to the first NUL.\<close>

definition print_precision :: "nat \<Rightarrow> byte list \<Rightarrow> byte list option" where
  "print_precision n s =
     (if n \<le> length s \<or> 0 \<in> set s then Some (takeWhile (\<lambda>b. b \<noteq> 0) (take n s)) else None)"

text \<open>\<^const>\<open>None\<close>: the code reads or writes outside the payload. Otherwise the buffer it returns, which is
  a null pointer for frames of the 64-bit length format, and the payload, which it unmasks in place.\<close>

definition decodeWebsockFrame :: "bool \<Rightarrow> byte list \<Rightarrow> (byte list option \<times> byte list) option" where
  "decodeWebsockFrame sg payload =
     Option.bind (payload_at payload 0) (\<lambda>first.
       (let finish = (\<lambda>len off p. Option.bind (print_precision len (drop off p)) (\<lambda>t. Some (Some t, p)))
        in if uint first = char_value sg DATA_FRAME_MASK then
             Option.bind (payload_at payload 1) (\<lambda>second.
               (let isMasked = (uint second AND char_value sg PAYLOAD_MASKBIT_MASK =
                                char_value sg PAYLOAD_MASKBIT_MASK);
                    payloadLength = nat (uint second AND char_value sg PAYLOAD_LENGTH_MASK)
                in if payloadLength = PAYLOAD_SIZE_127 then Some (None, payload)
                   else Option.bind
                     (if payloadLength = PAYLOAD_SIZE_126 then
                        Option.bind (payload_at payload 2) (\<lambda>lenght_byte_1.
                          Option.bind (payload_at payload 3) (\<lambda>lenght_byte_2.
                            Some (unat lenght_byte_1 * 2 ^ 8 + unat lenght_byte_2, 4)))
                      else Some (payloadLength, 2))
                     (\<lambda>(len, off).
                       (if isMasked then
                          (if off + MASK_SIZE \<le> length payload then
                             Option.bind
                               (unmask_payload (take MASK_SIZE (drop off payload)) (off + MASK_SIZE) len payload)
                               (finish len (off + MASK_SIZE))
                           else None)
                        else finish len off payload))))
           else finish (length payload) 0 payload))"

section \<open>Packets and messages\<close>

record pdu =
  pdu_raw :: "byte list option"
  pdu_ip :: "(string \<times> string) option"
  pdu_udp :: "(nat \<times> nat) option"
  pdu_tcp :: "(nat \<times> nat) option"

abbreviation MESSAGE_SOURCE_WEBSOCK :: int where "MESSAGE_SOURCE_WEBSOCK \<equiv> 0"
abbreviation MESSAGE_SOURCE_SOMEIP :: int where "MESSAGE_SOURCE_SOMEIP \<equiv> 1"

record network_packet =
  np_source :: int
  np_pdu_payload :: string
  np_src_addr :: string
  np_dst_addr :: string
  np_tcp :: "(nat \<times> nat) option"
  np_udp :: "(nat \<times> nat) option"

datatype sniffer_error =
    PduNotFound
  | OutsidePayload

record packet_sniffer =
  ps_payloadType :: string
  ps_protocolType :: string
  ps_interface :: string
  ps_filter :: "string option"
  ps_sent :: "network_packet list"

definition bytes_text :: "byte list \<Rightarrow> string" where
  "bytes_text bs = List.map (\<lambda>b. char_of (unat b)) bs"

text \<open>The process names and ids it was meant to look up are never filled in.\<close>

definition fillInJsonMessage :: "string \<Rightarrow> string" where
  "fillInJsonMessage buffer =
     List.map (\<lambda>c. if c = CHR 0x0A then CHR '' '' else c)
       (''{\"websock\":{'' @ ''\"payload\":'' @ buffer @
        '',\"metadata\": {  \"sender\":'' @ ''{  \"name\":'' @ ''\"'' @ ''\"'' @ '','' @ ''\"pid\":'' @
        print_decimal 0 @ ''},'' @ ''\"receiver\": { '' @ ''\"name\":'' @ ''\"'' @ ''\"'' @ '','' @
        ''\"pid\":'' @ print_decimal 0 @ ''}'' @ ''}}}'')"

text \<open>The ports go into the TCP header of the message whatever the protocol.\<close>

definition fillProtobuf :: "string \<Rightarrow> string \<times> string \<Rightarrow> nat \<times> nat \<Rightarrow> int \<Rightarrow> network_packet" where
  "fillProtobuf payload ip ports typeOfPackt =
     \<lparr> np_source = typeOfPackt, np_pdu_payload = c_string payload, np_src_addr = fst ip,
       np_dst_addr = snd ip, np_tcp = Some ports, np_udp = None \<rparr>"

definition dispatch_packet :: "network_packet \<Rightarrow> packet_sniffer \<Rightarrow> packet_sniffer" where
  "dispatch_packet m ps = ps\<lparr> ps_sent := ps_sent ps @ [m] \<rparr>"

definition find_pdu :: "'a option \<Rightarrow> (sniffer_error, packet_sniffer, 'a) op" where
  "find_pdu x = (case x of None \<Rightarrow> throwE PduNotFound | Some a \<Rightarrow> returnE a)"

definition forward_text ::
    "string \<Rightarrow> string \<times> string \<Rightarrow> nat \<times> nat \<Rightarrow> int \<Rightarrow> (sniffer_error, packet_sniffer, unit) op" where
  "forward_text text ip ports src =
     (if text \<noteq> [] then modifyE (dispatch_packet (fillProtobuf (fillInJsonMessage text) ip ports src))
      else returnE ())"

text \<open>Streaming a null pointer leaves the stream empty.\<close>

definition handlingSocketMessage ::
    "bool \<Rightarrow> (pdu \<Rightarrow> (nat \<times> nat) option) \<Rightarrow> pdu \<Rightarrow> (sniffer_error, packet_sniffer, unit) op" where
  "handlingSocketMessage sg T pdu =
     bindE (find_pdu (pdu_raw pdu)) (\<lambda>payload.
     bindE (find_pdu (pdu_ip pdu)) (\<lambda>ip.
     bindE (find_pdu (T pdu)) (\<lambda>ports.
       (if payload = [] then returnE ()
        else (case decodeWebsockFrame sg payload of
            None \<Rightarrow> throwE OutsidePayload
          | Some (buffer, _) \<Rightarrow>
              forward_text (case buffer of None \<Rightarrow> [] | Some t \<Rightarrow> bytes_text t) ip ports
                MESSAGE_SOURCE_WEBSOCK)))))"

definition handlingSomeIPMessage ::
    "(pdu \<Rightarrow> (nat \<times> nat) option) \<Rightarrow> pdu \<Rightarrow> (sniffer_error, packet_sniffer, unit) op" where
  "handlingSomeIPMessage T pdu =
     bindE (find_pdu (pdu_raw pdu)) (\<lambda>payload.
     bindE (find_pdu (pdu_ip pdu)) (\<lambda>ip.
       (if payload = [] then returnE ()
        else bindE (find_pdu (T pdu)) (\<lambda>ports.
          forward_text (bytes_text payload) ip ports MESSAGE_SOURCE_SOMEIP))))"

definition handle_packet :: "bool \<Rightarrow> pdu \<Rightarrow> (sniffer_error, packet_sniffer, bool) op" where
  "handle_packet sg pdu ps =
     thenE (if ps_payloadType ps = ''SOMEIP'' then
              (if ps_protocolType ps = ''UDP'' then handlingSomeIPMessage pdu_udp pdu
               else handlingSomeIPMessage pdu_tcp pdu)
            else if ps_payloadType ps = ''WEBSOCKET'' then
              (if ps_protocolType ps = ''UDP'' then handlingSocketMessage sg pdu_udp pdu
               else handlingSocketMessage sg pdu_tcp pdu)
            else returnE ())
       (returnE True) ps"

section \<open>Configuration\<close>

text \<open>Each port sets the filter of the capture anew.\<close>

definition new_CPacketSniffer :: "string \<Rightarrow> int list \<Rightarrow> string \<Rightarrow> string \<Rightarrow> packet_sniffer" where
  "new_CPacketSniffer interface ports payloadT protocolT =
     \<lparr> ps_payloadType = payloadT, ps_protocolType = protocolT, ps_interface = interface,
       ps_filter = fold (\<lambda>port _. Some (''port '' @ print_int port)) ports None, ps_sent = [] \<rparr>"

record sniffer_config =
  sc_networkInterface :: string
  sc_ports :: "int list"
  sc_protocolType :: string
  sc_payloadType :: string

definition sniffer_defaults :: sniffer_config where
  "sniffer_defaults = \<lparr> sc_networkInterface = [], sc_ports = [], sc_protocolType = ''SOMEIP'',
                        sc_payloadType = ''UDP'' \<rparr>"

definition sniffer_entry :: "string \<times> string \<Rightarrow> sniffer_config \<Rightarrow> sniffer_config" where
  "sniffer_entry = (\<lambda>(k, v) c.
     if contains ''NetworkInterface'' k then c\<lparr> sc_networkInterface := v \<rparr>
     else if contains ''PortNr'' k then c\<lparr> sc_ports := sc_ports c @ [atoi v] \<rparr>
     else if contains ''PayloadType'' k then c\<lparr> sc_payloadType := v \<rparr>
     else if contains ''ProtocolType'' k then c\<lparr> sc_protocolType := v \<rparr>
     else c)"

definition sniffer_setConfig :: "(string \<times> string) list \<Rightarrow> packet_sniffer" where
  "sniffer_setConfig pluginConfiguration =
     (let c = fold sniffer_entry pluginConfiguration sniffer_defaults
      in new_CPacketSniffer (sc_networkInterface c) (sc_ports c) (sc_payloadType c) (sc_protocolType c))"

section \<open>Frames as RFC 6455 defines them\<close>

definition ws_length :: "bool \<Rightarrow> nat \<Rightarrow> byte list" where
  "ws_length masked n =
     (let m = (if masked then 128 else 0) in
      if n < 126 then [of_nat (m + n)] else [of_nat (m + 126), of_nat (n div 256), of_nat (n mod 256)])"

definition ws_frame :: "byte list option \<Rightarrow> byte list \<Rightarrow> byte list" where
  "ws_frame key t =
     (case key of
        None \<Rightarrow> 0x81 # ws_length False (length t) @ t
      | Some k \<Rightarrow> 0x81 # ws_length True (length t) @ k @
          List.map (\<lambda>i. t ! i XOR k ! (i mod 4)) [0..<length t])"

section \<open>Decoding a frame\<close>

lemma print_precision_text: "0 \<notin> set t \<Longrightarrow> print_precision (length t) (t @ s) = Some t"
  by (auto simp: print_precision_def takeWhile_eq_all_conv)

lemma payload_at_Cons [simp]:
  "payload_at (b # p) 0 = Some b"
  "payload_at (b # p) (Suc i) = payload_at p i"
  by (simp_all add: payload_at_def)

lemma xor_twice: "(a XOR k) XOR k = (a :: byte)"
  by (simp add: xor.assoc)

lemma unmask_frame:
  "unmask_payload k (length h) (length t) (h @ List.map (\<lambda>i. t ! i XOR k ! (i mod 4)) [0..<length t] @ s) =
    Some (h @ t @ s)"
proof -
  let ?c = "List.map (\<lambda>i. t ! i XOR k ! (i mod 4)) [0..<length t]"
  have "List.map (\<lambda>i. (h @ ?c @ s) ! (length h + i) XOR k ! (i mod 4)) [0..<length t] = t"
    by (rule nth_equalityI) (simp_all add: nth_append xor_twice)
  then show ?thesis
    by (simp add: unmask_payload_def)
qed

text \<open>The second byte of a frame: its mask bit and its seven bits of length.\<close>

lemma small_bytes:
  "uint (of_nat n :: byte) = int n mod 256" "unat (of_nat n :: byte) = n mod 256"
  by (simp_all add: unsigned_of_nat take_bit_eq_mod zmod_int)

lemma and_exp: "(x :: int) AND 2 ^ n = of_bool (bit x n) * 2 ^ n"
  by (rule bit_eqI) (auto simp: bit_and_iff bit_exp_iff)

lemma and_128: "(x :: int) AND 128 = of_bool (bit x 7) * 128"
  using and_exp [of x 7] by simp

lemma and_127: "(x :: int) AND 127 = x mod 128"
  using take_bit_eq_mask [of 7 x] by (simp add: mask_eq_exp_minus_1 take_bit_eq_mod)

lemma second_byte:
  assumes "l < 128"
  shows "(uint (of_nat (128 + l) :: byte) AND 128 = 128) \<and> uint (of_nat (128 + l) :: byte) AND 127 = int l"
    "(uint (of_nat l :: byte) AND 128 \<noteq> 128) \<and> uint (of_nat l :: byte) AND 127 = int l"
proof -
  have u: "uint (of_nat (128 + l) :: byte) = 128 + int l" "uint (of_nat l :: byte) = int l"
    using assms by (simp_all add: small_bytes del: of_nat_add)
  show "(uint (of_nat (128 + l) :: byte) AND 128 = 128) \<and> uint (of_nat (128 + l) :: byte) AND 127 = int l"
    "(uint (of_nat l :: byte) AND 128 \<noteq> 128) \<and> uint (of_nat l :: byte) AND 127 = int l"
    unfolding u using assms by (simp_all add: and_128 and_127 bit_iff_odd div_add_self1)
qed

text \<open>A frame is a head, of two or four bytes, a key when it is masked, and the text, with or without key.\<close>

definition ws_head :: "bool \<Rightarrow> nat \<Rightarrow> byte list" where
  "ws_head masked n = 0x81 # ws_length masked n"

lemma decode_head:
  assumes "n < 65536"
  shows "decodeWebsockFrame False (ws_head masked n @ rest) =
    (let off = length (ws_head masked n); p = ws_head masked n @ rest in
     if masked then
       (if off + 4 \<le> length p
        then Option.bind (unmask_payload (take 4 rest) (off + 4) n p)
          (\<lambda>p. Option.bind (print_precision n (drop (off + 4) p)) (\<lambda>t. Some (Some t, p)))
        else None)
     else Option.bind (print_precision n rest) (\<lambda>t. Some (Some t, p)))"
proof (cases "n < 126")
  case True
  then show ?thesis
    using second_byte [of n]
    by (simp add: decodeWebsockFrame_def ws_head_def ws_length_def char_value_def Let_def split: if_splits)
next
  case False
  have n: "n div 256 < 256" "n div 256 * 256 + n mod 256 = n"
    using assms by auto
  then have ext: "unat (of_nat (n div 256) :: byte) * 256 + unat (of_nat (n mod 256) :: byte) = n"
    by (simp add: small_bytes)
  define h where "h = ws_head masked n"
  let ?b = "of_nat ((if masked then 128 else 0) + 126) :: byte"
  have head: "h = [0x81, ?b, of_nat (n div 256), of_nat (n mod 256)]"
    using False by (simp add: h_def ws_head_def ws_length_def Let_def)
  have at: "payload_at (h @ rest) 0 = Some 0x81" "payload_at (h @ rest) 1 = Some ?b"
    "payload_at (h @ rest) 2 = Some (of_nat (n div 256))"
    "payload_at (h @ rest) 3 = Some (of_nat (n mod 256))"
    unfolding head by (simp_all add: payload_at_def)
  have off: "length h = 4"
    by (simp add: head)
  have second: "(uint ?b AND 128 = 128) = masked" "nat (uint ?b AND 127) = 126"
    using second_byte [of 126] by (simp_all del: of_nat_add)
  have chars: "char_value False 0x81 = 129" "char_value False 0x80 = 128" "char_value False 0x7f = 127"
    by (simp_all add: char_value_def)
  show ?thesis
    unfolding h_def [symmetric] decodeWebsockFrame_def at(1) bind.simps Let_def chars at(2) second
    by (simp add: at(3,4) ext off)
qed

lemma decode_ws_frame:
  assumes "length t < 65536" "0 \<notin> set t" "\<forall>k. key = Some k \<longrightarrow> length k = 4"
  shows "\<exists>p. decodeWebsockFrame False (ws_frame key t @ rest) = Some (Some t, p)"
proof (cases key)
  case None
  have "ws_frame key t @ rest = ws_head False (length t) @ t @ rest"
    by (simp add: None ws_frame_def ws_head_def)
  then show ?thesis
    using decode_head [OF assms(1), of False "t @ rest"] print_precision_text [OF assms(2)]
    by (simp add: Let_def)
next
  case (Some k)
  let ?h = "ws_head True (length t)" and ?c = "List.map (\<lambda>i. t ! i XOR k ! (i mod 4)) [0..<length t]"
  have k: "length k = 4"
    using assms(3) Some by simp
  have fr: "ws_frame key t @ rest = ?h @ k @ ?c @ rest"
    by (simp add: Some ws_frame_def ws_head_def)
  have un: "unmask_payload k (length ?h + 4) (length t) (?h @ k @ ?c @ rest) = Some (?h @ k @ t @ rest)"
    using unmask_frame [of k "?h @ k" t rest] k by simp
  have "print_precision (length t) (drop (length ?h + 4) (?h @ k @ t @ rest)) = Some t"
    using print_precision_text [OF assms(2)] k by simp
  then show ?thesis
    using decode_head [OF assms(1), of True "k @ ?c @ rest"] k un unfolding fr by (simp add: Let_def)
qed

lemma decode_signed:
  assumes "p \<noteq> []"
  shows "decodeWebsockFrame True p = Some (Some (takeWhile (\<lambda>b. b \<noteq> 0) p), p)"
proof -
  obtain b bs where p: "p = b # bs"
    using assms by (cases p) auto
  have "char_value True DATA_FRAME_MASK < 0"
    by (simp add: char_value_def)
  then have "uint b \<noteq> char_value True DATA_FRAME_MASK"
    by (metis not_le unsigned_greater_eq)
  then show ?thesis
    by (simp add: decodeWebsockFrame_def p print_precision_def Let_def)
qed

lemma c_string_id: "\<forall>c \<in> set s. of_char c \<noteq> (0 :: nat) \<Longrightarrow> c_string s = s"
  by (simp add: c_string_def takeWhile_eq_all_conv)

lemma of_char_byte: "of_char (char_of (unat (b :: byte))) = unat b"
proof -
  have "unat b < 256"
    by (rule order.strict_trans2 [OF unsigned_less]) simp
  then show ?thesis
    by simp
qed

lemma bytes_text_no_nul: "0 \<notin> set t \<Longrightarrow> c \<in> set (bytes_text t) \<Longrightarrow> of_char c \<noteq> (0 :: nat)"
proof -
  assume t: "0 \<notin> set t" "c \<in> set (bytes_text t)"
  then obtain b where "b \<in> set t" "c = char_of (unat b)"
    by (auto simp: bytes_text_def)
  then show ?thesis
    using t(1) by (auto simp: of_char_byte unat_eq_0 simp del: of_char_of)
qed

lemma fillInJson_no_nul:
  "\<forall>c \<in> set s. of_char c \<noteq> (0 :: nat) \<Longrightarrow> c_string (fillInJsonMessage s) = fillInJsonMessage s"
  by (rule c_string_id) (auto simp: fillInJsonMessage_def dest: print_decimal_no_nul)

lemma handle_websocket:
  assumes "ps_payloadType ps = ''WEBSOCKET''" "pdu_raw pdu = Some p" "p \<noteq> []" "pdu_ip pdu = Some ip"
    "(if ps_protocolType ps = ''UDP'' then pdu_udp pdu else pdu_tcp pdu) = Some ports"
    "decodeWebsockFrame sg p = Some (Some t, p')" "t \<noteq> []" "0 \<notin> set t"
  shows "handle_packet sg pdu ps =
    (Inr True, ps\<lparr> ps_sent := ps_sent ps @
       [\<lparr> np_source = MESSAGE_SOURCE_WEBSOCK, np_pdu_payload = fillInJsonMessage (bytes_text t),
          np_src_addr = fst ip, np_dst_addr = snd ip, np_tcp = Some ports, np_udp = None \<rparr>] \<rparr>)"
proof -
  have ne: "bytes_text t \<noteq> []"
    using assms(7) by (simp add: bytes_text_def)
  have "\<forall>c \<in> set (bytes_text t). of_char c \<noteq> (0 :: nat)"
    using bytes_text_no_nul [OF assms(8)] by blast
  note nn = fillInJson_no_nul [OF this]
  show ?thesis
    using assms ne nn
    by (simp add: handle_packet_def handlingSocketMessage_def find_pdu_def forward_text_def
        dispatch_packet_def fillProtobuf_def thenE_def bindE_def split: if_splits)
qed

lemma fold_entry_payload_type:
  "\<forall>(k, v) \<in> set cfg. \<not> contains ''PayloadType'' k \<Longrightarrow>
     sc_payloadType (fold sniffer_entry cfg c) = sc_payloadType c"
  by (induction cfg arbitrary: c) (auto simp: sniffer_entry_def)

lemma fold_filter:
  "fold (\<lambda>port _. Some (''port '' @ print_int port)) ports f =
     (if ports = [] then f else Some (''port '' @ print_int (last ports)))"
  by (induction ports arbitrary: f) auto

lemma filter_last_port:
  "ps_filter (new_CPacketSniffer i ports pt pr) =
     (if ports = [] then None else Some (''port '' @ print_int (last ports)))"
  unfolding new_CPacketSniffer_def fold_filter by simp

section \<open>Properties\<close>



text \<open>Where plain \<^verbatim>\<open>char\<close> is signed, no frame is ever decoded: the first byte of a packet never equals the
  constant it is compared with, and what is sent on as the text is the raw packet up to its first NUL byte,
  frame header and masked text included.\<close>

theorem signed_char_forwards_raw_packet:
  assumes "ps_payloadType ps = ''WEBSOCKET''" "pdu_raw pdu = Some p" "pdu_ip pdu = Some ip"
    "(if ps_protocolType ps = ''UDP'' then pdu_udp pdu else pdu_tcp pdu) = Some ports"
    "p \<noteq> []" "hd p \<noteq> 0"
  shows "handle_packet True pdu ps =
    (Inr True, ps\<lparr> ps_sent := ps_sent ps @
       [\<lparr> np_source = MESSAGE_SOURCE_WEBSOCK,
          np_pdu_payload = fillInJsonMessage (bytes_text (takeWhile (\<lambda>b. b \<noteq> 0) p)),
          np_src_addr = fst ip, np_dst_addr = snd ip, np_tcp = Some ports, np_udp = None \<rparr>] \<rparr>)"
proof (rule handle_websocket [OF assms(1,2,5,3,4) decode_signed [OF assms(5)]])
  show "takeWhile (\<lambda>b. b \<noteq> 0) p \<noteq> []"
    using assms(5,6) by (cases p) auto
  show "0 \<notin> set (takeWhile (\<lambda>b. b \<noteq> 0) p)"
    by (auto dest: set_takeWhileD)
qed

lemma signed_char_forwards_raw_packet_witness:
  "snd (handle_packet True
     \<lparr> pdu_raw = Some (ws_frame None [72, 105]),
       pdu_ip = Some (''10.0.0.1'', ''10.0.0.2''), pdu_udp = Some (80, 4711), pdu_tcp = None \<rparr>
     (new_CPacketSniffer ''eth0'' [80] ''WEBSOCKET'' ''UDP'')) =
   (new_CPacketSniffer ''eth0'' [80] ''WEBSOCKET'' ''UDP'')\<lparr> ps_sent :=
     [\<lparr> np_source = 0, np_pdu_payload = fillInJsonMessage (bytes_text [0x81, 2, 72, 105]),
        np_src_addr = ''10.0.0.1'', np_dst_addr = ''10.0.0.2'', np_tcp = Some (80, 4711), np_udp = None \<rparr>] \<rparr>"
  by (subst signed_char_forwards_raw_packet [where p = "ws_frame None [72, 105]"
        and ip = "(''10.0.0.1'', ''10.0.0.2'')" and ports = "(80, 4711)"])
    (simp_all add: new_CPacketSniffer_def ws_frame_def ws_length_def)

text \<open>A sniffer configured without a payload type never forwards anything: the defaults of payload type
  and protocol are swapped, and a payload type \<^verbatim>\<open>UDP\<close> is handled by no branch. Whatever the configuration,
  the capture filter is that of the last configured port only.\<close>

theorem sniffer_without_payload_type:
  "((\<forall>(k, v) \<in> set cfg. \<not> contains ''PayloadType'' k) \<longrightarrow>
      handle_packet sg pdu (sniffer_setConfig cfg) = (Inr True, sniffer_setConfig cfg)) \<and>
   (let ports = sc_ports (fold sniffer_entry cfg sniffer_defaults) in
      ps_filter (sniffer_setConfig cfg) =
        (if ports = [] then None else Some (''port '' @ print_int (last ports))))"
proof -
  have "handle_packet sg pdu (sniffer_setConfig cfg) = (Inr True, sniffer_setConfig cfg)"
    if "\<forall>(k, v) \<in> set cfg. \<not> contains ''PayloadType'' k"
    using fold_entry_payload_type [OF that, of sniffer_defaults]
    by (simp add: handle_packet_def sniffer_setConfig_def new_CPacketSniffer_def sniffer_defaults_def Let_def
        thenE_def bindE_def)
  then show ?thesis
    by (simp only: sniffer_setConfig_def Let_def filter_last_port) blast
qed

lemma sniffer_without_payload_type_witness:
  "handle_packet True \<lparr> pdu_raw = Some [1], pdu_ip = Some ([], []), pdu_udp = Some (1, 2), pdu_tcp = None \<rparr>
     (sniffer_setConfig [(''PortNr1'', ''80'')]) = (Inr True, sniffer_setConfig [(''PortNr1'', ''80'')])"
proof -
  have "\<forall>(k, v) \<in> set [(''PortNr1'', ''80'')]. \<not> contains ''PayloadType'' k"
    by code_simp
  then show ?thesis
    using sniffer_without_payload_type [of "[(''PortNr1'', ''80'')]" True] by blast
qed

section \<open>The thread\<close>

text \<open>The capture hands each packet to the handler until that returns false or the capture ends; a layer that
  is missing in a packet only skips the packet. The result says whether the handler ended it.\<close>

fun sniff_loop :: "bool \<Rightarrow> pdu list \<Rightarrow> (sniffer_error, packet_sniffer, bool) op" where
  "sniff_loop sg [] = returnE False"
| "sniff_loop sg (pdu # pdus) = (\<lambda>ps.
     (case handle_packet sg pdu ps of
        (Inr True, ps') \<Rightarrow> sniff_loop sg pdus ps'
      | (Inr False, ps') \<Rightarrow> (Inr True, ps')
      | (Inl PduNotFound, ps') \<Rightarrow> sniff_loop sg pdus ps'
      | (Inl OutsidePayload, ps') \<Rightarrow> (Inl OutsidePayload, ps')))"

text \<open>Each round: whether the stop was requested at the test, and the packets until the capture ends.\<close>

fun sniffer_activity :: "bool \<Rightarrow> (bool \<times> pdu list) list \<Rightarrow> (sniffer_error, packet_sniffer, unit) op" where
  "sniffer_activity sg [] = returnE ()"
| "sniffer_activity sg ((stopped, pdus) # rounds) =
     (if stopped then returnE () else thenE (sniff_loop sg pdus) (sniffer_activity sg rounds))"

lemma handle_packet_true: "handle_packet sg pdu ps = (Inr b, ps') \<Longrightarrow> b"
  by (auto simp: handle_packet_def thenE_def bindE_def split: if_splits prod.splits sum.splits)

text \<open>The handler never ends a round: every packet is handled until the capture itself ends, whatever has been
  requested meanwhile. So a stop takes effect with the end of the capture only.\<close>

lemma sniff_loop_all:
  assumes "\<forall>pdu \<in> set pdus. \<forall>ps. fst (handle_packet sg pdu ps) \<noteq> Inl OutsidePayload"
  shows "sniff_loop sg pdus ps = (Inr False, fold (\<lambda>pdu ps. snd (handle_packet sg pdu ps)) pdus ps)"
  using assms
proof (induction pdus arbitrary: ps)
  case (Cons pdu pdus)
  obtain r ps' where h: "handle_packet sg pdu ps = (r, ps')"
    by fastforce
  have "r = Inr True \<or> r = Inl PduNotFound"
  proof (cases r)
    case (Inl e)
    then show ?thesis
      using Cons.prems h by (cases e) (auto dest: spec [of _ ps])
  next
    case (Inr b)
    then show ?thesis
      using handle_packet_true [of sg pdu ps b ps'] h by simp
  qed
  then show ?case
    using Cons.IH [of ps'] Cons.prems h by auto
qed simp

end
