(* ===== verification/ProcFs.thy ===== *)
theory ProcFs
  imports Scanf
begin

text \<open>
  The reader of the proc file system (\<^verbatim>\<open>resource-monitor-plugin/src/utils/procFsReader.cpp\<close>, Linux): one
  global buffer holds the file read last, and \<^verbatim>\<open>sscanf\<close> takes the values out of it. The kernel's side is a
  parameter: directories, file contents, the clock tick and the page size. File texts are at their full
  length, so a text longer than the buffer is cut; the fixed-size name array is a list here.
\<close>

section \<open>The kernel's side\<close>

record sysinfo =
  si_totalram :: u64
  si_freeram :: u64
  si_totalswap :: u64
  si_freeswap :: u64
  si_mem_unit :: u64

record proc_env =
  px_dirs :: "string \<Rightarrow> string list option"
  px_files :: "string \<Rightarrow> string option"
  px_clk_tck :: nat
  px_pagesize :: u32
  px_sysinfo :: "sysinfo option"

section \<open>Containers\<close>

record sstat =
  st_fullName :: string
  st_new_utime :: u64
  st_new_stime :: u64
  st_state :: char
  st_pid :: int
  st_ppid :: int
  st_pgrp :: int
  st_session :: int
  st_tty :: int
  st_tpgid :: int
  st_flags :: u64
  st_minflt :: u64
  st_majflt :: u64
  st_cminflt :: u64
  st_cmajflt :: u64
  st_cutime :: int
  st_cstime :: int

text \<open>\<^verbatim>\<open>Rss\<close> and \<^verbatim>\<open>PageSize\<close> are multiplied at their width of 32 bits.\<close>

record sstatm =
  sm_PageSize :: u32
  sm_Rss :: u32
  sm_Text :: int
  sm_Data :: int
  sm_Lib :: int
  sm_Shared :: int
  sm_Size :: int
  sm_Dirty :: int

record sysMemInfo =
  totalVirtualMem :: u64
  virtualMemUsed :: u64
  totalPhysMem :: u64
  physMemUsed :: u64

record sysCpuInfo =
  userModeTime :: u64
  niceUserModeTime :: u64
  kernelModeTime :: u64
  idleTime :: u64

definition zero_sstat :: sstat where
  "zero_sstat = \<lparr> st_fullName = [], st_new_utime = 0, st_new_stime = 0, st_state = CHR 0x00, st_pid = 0,
     st_ppid = 0, st_pgrp = 0, st_session = 0, st_tty = 0, st_tpgid = 0, st_flags = 0, st_minflt = 0,
     st_majflt = 0, st_cminflt = 0, st_cmajflt = 0, st_cutime = 0, st_cstime = 0 \<rparr>"

definition zero_sstatm :: sstatm where
  "zero_sstatm = \<lparr> sm_PageSize = 0, sm_Rss = 0, sm_Text = 0, sm_Data = 0, sm_Lib = 0, sm_Shared = 0,
     sm_Size = 0, sm_Dirty = 0 \<rparr>"

section \<open>Reading one file\<close>

abbreviation FILE_BUFFER :: nat where "FILE_BUFFER \<equiv> 8192"

definition overwrite :: "string \<Rightarrow> string \<Rightarrow> string" where
  "overwrite new buf = new @ drop (length new) buf"

definition readProcEntry :: "proc_env \<Rightarrow> string \<Rightarrow> string \<Rightarrow> bool \<times> string" where
  "readProcEntry env filename gFileDataBuffer =
     (case px_files env filename of
        None \<Rightarrow> (False, gFileDataBuffer)
      | Some content \<Rightarrow>
          (True, overwrite (take (FILE_BUFFER - 1) content @ [CHR 0x00]) gFileDataBuffer))"

definition MSEC_PER_CLOCK :: "proc_env \<Rightarrow> nat" where
  "MSEC_PER_CLOCK env = 1000 div px_clk_tck env"

text \<open>The \<open>i\<close>-th value of a scan, when it was reached, else what the variable held.\<close>

definition scanned_int :: "scanned list \<Rightarrow> nat \<Rightarrow> int option" where
  "scanned_int vs i = (if i < length vs then (case vs ! i of SInt v \<Rightarrow> Some v | _ \<Rightarrow> None) else None)"

definition int_or :: "int \<Rightarrow> int option \<Rightarrow> int" where
  "int_or old v = (case v of None \<Rightarrow> old | Some x \<Rightarrow> x)"

definition word_or :: "('a::len) word \<Rightarrow> int option \<Rightarrow> 'a word" where
  "word_or old v = (case v of None \<Rightarrow> old | Some x \<Rightarrow> word_of_int x)"

definition readCpuInfo :: "proc_env \<Rightarrow> string \<times> sysCpuInfo \<Rightarrow> bool \<times> string \<times> sysCpuInfo" where
  "readCpuInfo env = (\<lambda>(buf, ci).
     (case readProcEntry env ''/proc/stat'' buf of
        (False, buf) \<Rightarrow> (False, buf, ci)
      | (True, buf) \<Rightarrow>
          (let vs = scan_fields ([FLit CHR ''c'', FLit CHR ''p'', FLit CHR ''u''] @
                      concat (replicate 4 [FWhite, FInt])) (c_string buf);
               k = of_nat (MSEC_PER_CLOCK env)
           in (True, buf,
               \<lparr> userModeTime = word_or (userModeTime ci) (scanned_int vs 0) * k,
                 niceUserModeTime = word_or (niceUserModeTime ci) (scanned_int vs 1) * k,
                 kernelModeTime = word_or (kernelModeTime ci) (scanned_int vs 2) * k,
                 idleTime = word_or (idleTime ci) (scanned_int vs 3) * k \<rparr>))))"

definition readMeminfo :: "proc_env \<Rightarrow> sysMemInfo \<Rightarrow> bool \<times> sysMemInfo" where
  "readMeminfo env mi =
     (case px_sysinfo env of
        None \<Rightarrow> (False, mi)
      | Some s \<Rightarrow>
          (True,
           \<lparr> totalVirtualMem = (si_totalram s + si_totalswap s) * si_mem_unit s,
             virtualMemUsed =
               ((si_totalram s - si_freeram s) + (si_totalswap s - si_freeswap s)) * si_mem_unit s,
             totalPhysMem = si_totalram s * si_mem_unit s,
             physMemUsed = (si_totalram s - si_freeram s) * si_mem_unit s \<rparr>))"

definition stat_format :: "field_directive list" where
  "stat_format = [FInt, FWhite, FLit CHR ''('', FNot CHR '')'', FLit CHR '')'', FWhite, FChar] @
     concat (replicate 14 [FWhite, FInt])"

definition scan_stat :: "string \<Rightarrow> sstat \<Rightarrow> sstat" where
  "scan_stat text st =
     (let vs = scan_fields stat_format text
      in \<lparr> st_fullName = (if 1 < length vs then (case vs ! 1 of SText t \<Rightarrow> t | _ \<Rightarrow> st_fullName st)
                          else st_fullName st),
           st_new_utime = word_or (st_new_utime st) (scanned_int vs 13),
           st_new_stime = word_or (st_new_stime st) (scanned_int vs 14),
           st_state = (if 2 < length vs then (case vs ! 2 of SChar c \<Rightarrow> c | _ \<Rightarrow> st_state st)
                       else st_state st),
           st_pid = int_or (st_pid st) (scanned_int vs 0),
           st_ppid = int_or (st_ppid st) (scanned_int vs 3),
           st_pgrp = int_or (st_pgrp st) (scanned_int vs 4),
           st_session = int_or (st_session st) (scanned_int vs 5),
           st_tty = int_or (st_tty st) (scanned_int vs 6),
           st_tpgid = int_or (st_tpgid st) (scanned_int vs 7),
           st_flags = word_or (st_flags st) (scanned_int vs 8),
           st_minflt = word_or (st_minflt st) (scanned_int vs 9),
           st_majflt = word_or (st_majflt st) (scanned_int vs 10),
           st_cminflt = word_or (st_cminflt st) (scanned_int vs 11),
           st_cmajflt = word_or (st_cmajflt st) (scanned_int vs 12),
           st_cutime = int_or (st_cutime st) (scanned_int vs 15),
           st_cstime = int_or (st_cstime st) (scanned_int vs 16) \<rparr>)"

definition scan_statm :: "string \<Rightarrow> sstatm \<Rightarrow> sstatm" where
  "scan_statm text sm =
     (let vs = scan_fields (FInt # concat (replicate 6 [FWhite, FInt])) text
      in sm\<lparr> sm_Size := int_or (sm_Size sm) (scanned_int vs 0),
             sm_Rss := word_or (sm_Rss sm) (scanned_int vs 1),
             sm_Shared := int_or (sm_Shared sm) (scanned_int vs 2),
             sm_Text := int_or (sm_Text sm) (scanned_int vs 3),
             sm_Data := int_or (sm_Data sm) (scanned_int vs 4),
             sm_Lib := int_or (sm_Lib sm) (scanned_int vs 5),
             sm_Dirty := int_or (sm_Dirty sm) (scanned_int vs 6) \<rparr>)"

section \<open>Iterating over the entries of a directory\<close>

record descriptor =
  de_dp :: "string option"
  de_dir :: "string list option"
  de_pid :: int

record proc_data =
  pd_buffer :: string
  pd_stat :: sstat
  pd_statm :: sstatm

definition digit_name :: "string \<Rightarrow> bool" where
  "digit_name d = (case d of [] \<Rightarrow> False | c # _ \<Rightarrow> is_digit c)"

definition entry_file :: "int \<Rightarrow> string \<Rightarrow> string \<Rightarrow> string" where
  "entry_file pid d_name file =
     (if pid > 0 then ''/proc/'' @ print_int pid @ ''/task/'' @ d_name @ ''/'' @ file
      else ''/proc/'' @ d_name @ ''/'' @ file)"

text \<open>The loop that skips to the next entry whose name begins with a digit.\<close>

definition next_entry :: "descriptor \<Rightarrow> descriptor" where
  "next_entry e =
     (case de_dir e of
        None \<Rightarrow> e
      | Some names \<Rightarrow>
          (case dropWhile (\<lambda>n. \<not> digit_name n) names of
             [] \<Rightarrow> e\<lparr> de_dp := None, de_dir := Some [] \<rparr>
           | n # rest \<Rightarrow> e\<lparr> de_dp := Some n, de_dir := Some rest \<rparr>))"

text \<open>The values are scanned, and the times multiplied, whether or not the files could be read.\<close>

definition read_entry :: "proc_env \<Rightarrow> int \<Rightarrow> string \<Rightarrow> proc_data \<Rightarrow> bool \<times> proc_data" where
  "read_entry env pid d_name d =
     (let (ok1, buf1) = readProcEntry env (entry_file pid d_name ''stat'') (pd_buffer d);
          st = scan_stat (c_string buf1) (pd_stat d);
          k = of_nat (MSEC_PER_CLOCK env);
          st = st\<lparr> st_new_stime := st_new_stime st * k, st_new_utime := st_new_utime st * k \<rparr>;
          sm = (pd_statm d)\<lparr> sm_PageSize := px_pagesize env \<rparr>;
          (ok2, buf2) = (if ok1 then readProcEntry env (entry_file pid d_name ''statm'') buf1
                         else (False, buf1));
          sm = scan_statm (c_string buf2) sm;
          sm = sm\<lparr> sm_Rss := sm_Rss sm * sm_PageSize sm \<rparr>
      in (ok2, \<lparr> pd_buffer = buf2, pd_stat = st, pd_statm = sm \<rparr>))"

definition readProcFs :: "proc_env \<Rightarrow> descriptor \<times> proc_data \<Rightarrow> bool \<times> descriptor \<times> proc_data" where
  "readProcFs env = (\<lambda>(entryInfo, d).
     (let e = next_entry entryInfo
      in case de_dp e of
           None \<Rightarrow> (False, e, d)
         | Some d_name \<Rightarrow>
             (case read_entry env (de_pid e) d_name d of (result, d) \<Rightarrow> (result, e, d))))"

text \<open>A directory stream that is still open gets shorter with every entry.\<close>

definition entries_left :: "descriptor \<Rightarrow> nat" where
  "entries_left e = (case de_dir e of None \<Rightarrow> 0 | Some names \<Rightarrow> length names)"

lemma readProcFs_entry: "fst (snd (readProcFs env (e, d))) = next_entry e"
  by (simp add: readProcFs_def Let_def split: option.split prod.split)

lemma readProcFs_next:
  assumes "(v, e', d') = readProcFs env (e, d)"
  shows "e' = next_entry e"
  using readProcFs_entry [of env e d] unfolding assms [symmetric] by simp

lemma next_entry_shorter [intro]:
  assumes "de_dp (next_entry e) \<noteq> None" "de_dir e \<noteq> None"
  shows "entries_left (next_entry e) < entries_left e"
proof -
  obtain names where n: "de_dir e = Some names"
    using assms(2) by auto
  show ?thesis
    using assms(1) length_dropWhile_le [of "\<lambda>n. \<not> digit_name n" names]
    by (auto simp: n next_entry_def entries_left_def split: list.splits)
qed

section \<open>Processes by name\<close>

abbreviation (input) PIDS_MAX :: nat where "PIDS_MAX \<equiv> 10"

text \<open>\<open>pids\<close> are the slots of the caller's array filled so far, \<open>size\<close> of them; a store beyond the array
  is \<^const>\<open>None\<close>. The text read is not terminated here: behind it the buffer keeps its old bytes.\<close>

fun pids_by_name ::
    "proc_env \<Rightarrow> string \<Rightarrow> nat \<Rightarrow> string list \<Rightarrow> string \<times> sstat \<Rightarrow> bool \<Rightarrow> int list \<Rightarrow>
     (bool \<times> int list \<times> string) option" where
  "pids_by_name env procName maxSize [] (buf, st) result pids = Some (result, pids, buf)"
| "pids_by_name env procName maxSize (d_name # des) (buf, st) result pids =
     (if d_name = ''.'' \<or> d_name = ''..'' then pids_by_name env procName maxSize des (buf, st) result pids
      else (case scan_unsigned 10 d_name of
          None \<Rightarrow> pids_by_name env procName maxSize des (buf, st) result pids
        | Some (pid, _) \<Rightarrow>
            (case px_files env (''/proc/'' @ print_int pid @ ''/stat'') of
               None \<Rightarrow> pids_by_name env procName maxSize des (buf, st) result pids
             | Some content \<Rightarrow>
                 (if content = [] then pids_by_name env procName maxSize des (buf, st) result pids
                  else (let buf = overwrite (take (FILE_BUFFER - 1) content) buf;
                            st = scan_stat (c_string buf) st
                        in if st_fullName st = procName then
                             (if length pids < maxSize
                              then pids_by_name env procName maxSize des (buf, st)
                                     (maxSize > Suc (length pids)) (pids @ [pid])
                              else None)
                           else pids_by_name env procName maxSize des (buf, st) result pids)))))"

definition getProcIDbyName ::
    "proc_env \<Rightarrow> string \<Rightarrow> nat \<Rightarrow> string \<Rightarrow> (bool \<times> int list \<times> string) option" where
  "getProcIDbyName env procName pidsArrayMaxSize gFileDataBuffer =
     (case px_dirs env ''/proc'' of
        None \<Rightarrow> Some (False, [], gFileDataBuffer)
      | Some des \<Rightarrow>
          pids_by_name env procName pidsArrayMaxSize des (gFileDataBuffer, zero_sstat) False [])"

section \<open>What the kernel prints\<close>

text \<open>A process or thread as its two files show it: the fourteen numbers behind the state begin with the
  parent and hold the times at places ten and eleven; the memory sizes are in pages, the resident ones
  first. What follows them on the line is arbitrary.\<close>

record proc_entry =
  pr_pid :: nat
  pr_name :: string
  pr_state :: char
  pr_nums :: "int list"
  pr_rest :: string
  pr_size :: int
  pr_mem :: "int list"

definition stat_line :: "proc_entry \<Rightarrow> string" where
  "stat_line p = print_decimal (pr_pid p) @ '' ('' @ pr_name p @ '') '' @ [pr_state p] @
     blank_ints (pr_nums p) @ pr_rest p"

definition statm_line :: "proc_entry \<Rightarrow> string" where
  "statm_line p = print_int (pr_size p) @ blank_ints (pr_mem p) @ [CHR 0x0A]"

definition file_text :: "string \<Rightarrow> bool" where
  "file_text t \<longleftrightarrow> length t < FILE_BUFFER \<and> (\<forall>c \<in> set t. of_char c \<noteq> (0 :: nat))"

definition entry_ok :: "proc_entry \<Rightarrow> bool" where
  "entry_ok p \<longleftrightarrow> pr_name p \<noteq> [] \<and> CHR '')'' \<notin> set (pr_name p) \<and> \<not> is_space (pr_state p) \<and>
     length (pr_nums p) = 14 \<and> length (pr_mem p) = 6 \<and>
     (pr_rest p = [] \<or> digit_value 10 (hd (pr_rest p)) = None) \<and>
     file_text (stat_line p) \<and> file_text (statm_line p)"

text \<open>The two files of \<open>p\<close> below the directory \<open>root\<close>.\<close>

definition shows_entry :: "proc_env \<Rightarrow> string \<Rightarrow> proc_entry \<Rightarrow> bool" where
  "shows_entry env root p \<longleftrightarrow> entry_ok p \<and>
     px_files env (root @ print_decimal (pr_pid p) @ ''/stat'') = Some (stat_line p) \<and>
     px_files env (root @ print_decimal (pr_pid p) @ ''/statm'') = Some (statm_line p)"

text \<open>A directory whose numbered entries are those of a table.\<close>

definition shows_dir :: "proc_env \<Rightarrow> string \<Rightarrow> proc_entry list \<Rightarrow> bool" where
  "shows_dir env path table \<longleftrightarrow>
     (\<exists>names. px_dirs env path = Some names \<and>
        filter digit_name names = List.map (\<lambda>p. print_decimal (pr_pid p)) table)"

section \<open>Reading it back\<close>

lemma readProcEntry_text:
  assumes "px_files env f = Some t" "file_text t"
  shows "\<exists>buf'. readProcEntry env f buf = (True, buf') \<and> c_string buf' = t"
  using assms by (auto simp: readProcEntry_def overwrite_def file_text_def c_string_def)

lemma scan_name:
  assumes "name \<noteq> []" "CHR '')'' \<notin> set name"
  shows "scan_fields stat_format (print_decimal n @ '' ('' @ name @ '')'' @ s) =
    SInt (int n) # SText name # scan_fields ([FWhite, FChar] @ concat (replicate 14 [FWhite, FInt])) s"
proof -
  have "scan_unsigned 10 (print_decimal n @ '' ('' @ name @ '')'' @ s) = Some (int n, '' ('' @ name @ '')'' @ s)"
    by (rule scan_unsigned_decimal) (simp add: digit_value_def)
  moreover have "takeWhile (\<lambda>x. x \<noteq> CHR '')'') (name @ CHR '')'' # s) = name"
    using assms(2) by (auto simp: takeWhile_append)
  moreover have "\<not> is_space CHR ''(''" "is_space CHR '' ''"
    by (simp_all add: is_space_def)
  ultimately show ?thesis
    using assms(1) by (simp add: stat_format_def Let_def)
qed

lemma scan_stat_line:
  assumes "entry_ok p"
  shows "scan_fields stat_format (stat_line p) =
    [SInt (int (pr_pid p)), SText (pr_name p), SChar (pr_state p)] @ List.map SInt (pr_nums p)"
proof -
  let ?s = "CHR '' '' # pr_state p # blank_ints (pr_nums p) @ pr_rest p"
  have line: "stat_line p = print_decimal (pr_pid p) @ '' ('' @ pr_name p @ '')'' @ ?s"
    by (simp add: stat_line_def)
  have sp: "is_space CHR '' ''" "\<not> is_space (pr_state p)"
    using assms by (simp_all add: is_space_def entry_ok_def)
  have "scan_fields (concat (replicate (length (pr_nums p)) [FWhite, FInt]) @ [])
      (blank_ints (pr_nums p) @ pr_rest p) = List.map SInt (pr_nums p) @ scan_fields [] (pr_rest p)"
    by (rule scan_blank_ints) (use assms in \<open>simp add: entry_ok_def\<close>)
  then have "scan_fields (concat (replicate 14 [FWhite, FInt])) (blank_ints (pr_nums p) @ pr_rest p) =
      List.map SInt (pr_nums p)"
    using assms by (simp add: entry_ok_def del: replicate.simps)
  moreover have "scan_fields stat_format (stat_line p) = SInt (int (pr_pid p)) # SText (pr_name p) #
      scan_fields ([FWhite, FChar] @ concat (replicate 14 [FWhite, FInt])) ?s"
    unfolding line by (rule scan_name) (use assms in \<open>simp_all add: entry_ok_def\<close>)
  ultimately show ?thesis
    using sp by simp
qed

lemma scan_stat_entry:
  assumes "entry_ok p"
  shows "st_pid (scan_stat (stat_line p) st) = int (pr_pid p)"
    "st_fullName (scan_stat (stat_line p) st) = pr_name p"
    "st_state (scan_stat (stat_line p) st) = pr_state p"
    "st_new_utime (scan_stat (stat_line p) st) = word_of_int (pr_nums p ! 10)"
    "st_new_stime (scan_stat (stat_line p) st) = word_of_int (pr_nums p ! 11)"
proof -
  have "length (pr_nums p) = 14"
    using assms by (simp add: entry_ok_def)
  then show "st_pid (scan_stat (stat_line p) st) = int (pr_pid p)"
    "st_fullName (scan_stat (stat_line p) st) = pr_name p"
    "st_state (scan_stat (stat_line p) st) = pr_state p"
    "st_new_utime (scan_stat (stat_line p) st) = word_of_int (pr_nums p ! 10)"
    "st_new_stime (scan_stat (stat_line p) st) = word_of_int (pr_nums p ! 11)"
    by (simp_all add: scan_stat_def scan_stat_line [OF assms] Let_def scanned_int_def word_or_def int_or_def
        nth_append nth_Cons')
qed

lemma scan_statm_entry:
  assumes "entry_ok p"
  shows "sm_Rss (scan_statm (statm_line p) sm) = word_of_int (pr_mem p ! 0)"
    "sm_PageSize (scan_statm (statm_line p) sm) = sm_PageSize sm"
proof -
  have len: "length (pr_mem p) = 6"
    using assms by (simp add: entry_ok_def)
  have "digit_value 10 CHR '' '' = None" "digit_value 10 CHR 0x0A = None"
    by (simp_all add: digit_value_def)
  then have nd: "blank_ints (pr_mem p) @ [CHR 0x0A] = [] \<or>
      digit_value 10 (hd (blank_ints (pr_mem p) @ [CHR 0x0A])) = None"
    by (cases "pr_mem p") (auto simp: blank_ints_def)
  have "scan_fields (concat (replicate (length (pr_mem p)) [FWhite, FInt]) @ [])
      (blank_ints (pr_mem p) @ [CHR 0x0A]) = List.map SInt (pr_mem p) @ scan_fields [] [CHR 0x0A]"
    by (rule scan_blank_ints) (simp add: digit_value_def)
  then have "scan_fields (FInt # concat (replicate 6 [FWhite, FInt])) (statm_line p) =
      SInt (pr_size p) # List.map SInt (pr_mem p)"
    using scan_unsigned_int [OF nd] len by (simp add: statm_line_def del: replicate.simps)
  then show "sm_Rss (scan_statm (statm_line p) sm) = word_of_int (pr_mem p ! 0)"
    "sm_PageSize (scan_statm (statm_line p) sm) = sm_PageSize sm"
    using len by (simp_all add: scan_statm_def Let_def scanned_int_def word_or_def)
qed

text \<open>What an entry tells: clock ticks become milliseconds, pages become bytes.\<close>

definition ticks_ms :: "proc_env \<Rightarrow> int \<Rightarrow> u64" where
  "ticks_ms env t = word_of_int t * of_nat (MSEC_PER_CLOCK env)"

definition shows_data :: "proc_env \<Rightarrow> proc_entry \<Rightarrow> proc_data \<Rightarrow> bool" where
  "shows_data env p d \<longleftrightarrow>
     st_pid (pd_stat d) = int (pr_pid p) \<and> st_fullName (pd_stat d) = pr_name p \<and>
     st_state (pd_stat d) = pr_state p \<and> st_new_utime (pd_stat d) = ticks_ms env (pr_nums p ! 10) \<and>
     st_new_stime (pd_stat d) = ticks_ms env (pr_nums p ! 11) \<and>
     sm_Rss (pd_statm d) = word_of_int (pr_mem p ! 0) * px_pagesize env"

lemma read_entry_shows:
  assumes "shows_entry env root p"
    "\<forall>f. entry_file pid (print_decimal (pr_pid p)) f = root @ print_decimal (pr_pid p) @ ''/'' @ f"
  shows "\<exists>d'. read_entry env pid (print_decimal (pr_pid p)) d = (True, d') \<and> shows_data env p d'"
proof -
  have ok: "entry_ok p" "file_text (stat_line p)" "file_text (statm_line p)"
    using assms(1) by (simp_all add: shows_entry_def entry_ok_def)
  let ?f = "entry_file pid (print_decimal (pr_pid p))"
  have files: "px_files env (?f ''stat'') = Some (stat_line p)" "px_files env (?f ''statm'') = Some (statm_line p)"
    using assms by (simp_all add: shows_entry_def)
  obtain b1 where b1: "readProcEntry env (?f ''stat'') (pd_buffer d) = (True, b1)" "c_string b1 = stat_line p"
    using readProcEntry_text [OF files(1) ok(2)] by blast
  obtain b2 where b2: "readProcEntry env (?f ''statm'') b1 = (True, b2)" "c_string b2 = statm_line p"
    using readProcEntry_text [OF files(2) ok(3)] by blast
  show ?thesis
    using b1 b2 scan_stat_entry [OF ok(1)] scan_statm_entry [OF ok(1)]
    by (simp add: read_entry_def shows_data_def ticks_ms_def Let_def)
qed

lemma next_digit_entry:
  "filter digit_name names = n # ns \<Longrightarrow>
     \<exists>rest. dropWhile (\<lambda>n. \<not> digit_name n) names = n # rest \<and> filter digit_name rest = ns"
  by (induction names) (auto split: if_splits)

lemma no_digit_entry: "filter digit_name names = [] \<Longrightarrow> dropWhile (\<lambda>n. \<not> digit_name n) names = []"
  by (induction names) (auto split: if_splits)

lemma print_int_nat [simp]: "print_int (int n) = print_decimal n"
  by (simp add: print_int_def)

lemma scan_unterminated:
  assumes "shows_entry env root p"
  shows "st_fullName (scan_stat (c_string (overwrite (take (FILE_BUFFER - 1) (stat_line p)) buf)) st) = pr_name p"
proof -
  have ok: "entry_ok p" "file_text (stat_line p)"
    using assms by (simp_all add: shows_entry_def entry_ok_def)
  let ?tail = "'' '' @ [pr_state p] @ blank_ints (pr_nums p) @ pr_rest p"
  have "c_string (overwrite (take (FILE_BUFFER - 1) (stat_line p)) buf) =
      stat_line p @ c_string (drop (length (stat_line p)) buf)"
    using ok(2) by (simp add: overwrite_def file_text_def c_string_append)
  also have "\<dots> = print_decimal (pr_pid p) @ '' ('' @ pr_name p @ '')'' @ ?tail @
      c_string (drop (length (stat_line p)) buf)"
    by (simp add: stat_line_def)
  finally show ?thesis
    using scan_name [of "pr_name p" "pr_pid p"] ok(1) by (simp add: scan_stat_def Let_def entry_ok_def)
qed

lemma print_decimal_not_dot: "print_decimal n \<noteq> ''.'' \<and> print_decimal n \<noteq> ''..''"
proof -
  have "CHR ''.'' \<notin> set (print_decimal n)"
  proof
    assume "CHR ''.'' \<in> set (print_decimal n)"
    then obtain k where "k < 10" "CHR ''.'' = digit_char k"
      using print_decimal_digits by blast
    then have "of_char CHR ''.'' = (48 + k :: nat)"
      using of_digit_char [of k] by simp
    then show False
      by simp
  qed
  then show ?thesis
    by auto
qed

lemma pids_by_name_table:
  assumes "\<forall>p \<in> set table. shows_entry env ''/proc/'' p" "length pids \<le> maxSize"
    "result = (pids \<noteq> [] \<and> length pids < maxSize)"
  shows "\<exists>buf'. pids_by_name env name maxSize (List.map (\<lambda>p. print_decimal (pr_pid p)) table) (buf, st) result pids =
    (let pids' = pids @ List.map (\<lambda>p. int (pr_pid p)) (filter (\<lambda>p. pr_name p = name) table)
     in if length pids' \<le> maxSize then Some (pids' \<noteq> [] \<and> length pids' < maxSize, pids', buf') else None)"
  using assms
proof (induction table arbitrary: buf st result pids)
  case (Cons p table)
  have sh: "shows_entry env ''/proc/'' p"
    using Cons.prems(1) by simp
  have line: "px_files env (''/proc/'' @ print_decimal (pr_pid p) @ ''/stat'') = Some (stat_line p)"
    using sh by (simp add: shows_entry_def)
  have ne: "stat_line p \<noteq> []"
    by (simp add: stat_line_def)
  have num: "scan_unsigned 10 (print_decimal (pr_pid p)) = Some (int (pr_pid p), [])"
    using scan_unsigned_decimal [of "[]" "pr_pid p"] by simp
  define buf1 where "buf1 = overwrite (take 8191 (stat_line p)) buf"
  define st1 where "st1 = scan_stat (c_string buf1) st"
  have name: "st_fullName st1 = pr_name p"
    using scan_unterminated [OF sh] by (simp add: st1_def buf1_def)
  let ?names = "List.map (\<lambda>p. print_decimal (pr_pid p)) table"
  have step: "pids_by_name env name maxSize (print_decimal (pr_pid p) # ?names) (buf, st) result pids =
      (if pr_name p = name then
         (if length pids < maxSize
          then pids_by_name env name maxSize ?names (buf1, st1) (maxSize > Suc (length pids)) (pids @ [int (pr_pid p)])
          else None)
       else pids_by_name env name maxSize ?names (buf1, st1) result pids)"
    using print_decimal_not_dot [of "pr_pid p"] num line ne name
    by (simp add: Let_def flip: buf1_def st1_def)
  show ?case
  proof (cases "pr_name p = name")
    case False
    then show ?thesis
      using Cons.IH [of pids result buf1 st1] Cons.prems step by simp
  next
    case True
    show ?thesis
    proof (cases "length pids < maxSize")
      case True
      then show ?thesis
        using \<open>pr_name p = name\<close> Cons.IH [of "pids @ [int (pr_pid p)]" "maxSize > Suc (length pids)" buf1 st1]
          Cons.prems step by simp
    next
      case False
      then show ?thesis
        using \<open>pr_name p = name\<close> Cons.prems step by simp
    qed
  qed
qed simp

section \<open>Properties\<close>

text \<open>Looking up a process name finds the ids of exactly the processes of that name, in the order of
  the directory, and reports success when there are between one and nine of them. With ten the call
  fails although all ten were stored, and from eleven on it writes past the caller's array: the size of
  the array is compared only after the store.\<close>

theorem pids_of_name:
  assumes "px_dirs env ''/proc'' = Some ([''.'', ''..''] @ List.map (\<lambda>p. print_decimal (pr_pid p)) table)"
    "\<forall>p \<in> set table. shows_entry env ''/proc/'' p"
  shows "let found = List.map (\<lambda>p. int (pr_pid p)) (filter (\<lambda>p. pr_name p = name) table) in
    if length found \<le> PIDS_MAX
    then \<exists>buf'. getProcIDbyName env name PIDS_MAX buf = Some (0 < length found \<and> length found < PIDS_MAX, found, buf')
    else getProcIDbyName env name PIDS_MAX buf = None"
proof -
  let ?names = "List.map (\<lambda>p. print_decimal (pr_pid p)) table"
  have dots: "pids_by_name env name PIDS_MAX (''.'' # ''..'' # ?names) (buf, zero_sstat) False [] =
      pids_by_name env name PIDS_MAX ?names (buf, zero_sstat) False []"
    by simp
  show ?thesis
    using pids_by_name_table [OF assms(2), of "[]" PIDS_MAX False name buf zero_sstat]
    by (auto simp: getProcIDbyName_def assms(1) dots Let_def simp del: pids_by_name.simps)
qed

text \<open>A process named \<open>a\<close>, for the witness.\<close>

definition sample_entry :: "nat \<Rightarrow> proc_entry" where
  "sample_entry n = \<lparr> pr_pid = n, pr_name = ''a'', pr_state = CHR ''S'', pr_nums = replicate 14 0,
     pr_rest = [], pr_size = 0, pr_mem = replicate 6 0 \<rparr>"

definition sample_env :: "nat list \<Rightarrow> proc_env" where
  "sample_env ns =
     \<lparr> px_dirs = (\<lambda>d. if d = ''/proc'' then Some ([''.'', ''..''] @ List.map print_decimal ns) else None),
       px_files = (\<lambda>f. case scan_unsigned 10 (drop (length ''/proc/'') f) of
          None \<Rightarrow> None
        | Some (n, file) \<Rightarrow>
            (if file = ''/stat'' then Some (stat_line (sample_entry (nat n)))
             else if file = ''/statm'' then Some (statm_line (sample_entry (nat n))) else None)),
       px_clk_tck = 100, px_pagesize = 4096, px_sysinfo = None \<rparr>"

lemma sample_shown:
  assumes "n < 1000"
  shows "shows_entry (sample_env ns) ''/proc/'' (sample_entry n)"
proof -
  have zero: "print_int 0 = [digit_char 0]" "of_char (digit_char 0) = (48 :: nat)"
    by (simp_all add: print_int_def print_decimal.simps of_digit_char)
  have "length (print_decimal n) \<le> 3"
    by (rule length_print_decimal) (use assms in simp_all)
  then have "file_text (stat_line (sample_entry n))" "file_text (statm_line (sample_entry n))"
    using print_decimal_no_nul [of _ n]
    by (auto simp: file_text_def stat_line_def statm_line_def sample_entry_def blank_ints_def zero length_concat
        sum_list_replicate)
  then have "entry_ok (sample_entry n)"
    by (simp add: entry_ok_def is_space_def sample_entry_def)
  moreover have "scan_unsigned 10 (print_decimal n @ CHR ''/'' # s) = Some (int n, CHR ''/'' # s)" for s
    by (rule scan_unsigned_decimal) (simp add: digit_value_def)
  moreover have "pr_pid (sample_entry n) = n"
    by (simp add: sample_entry_def)
  ultimately show ?thesis
    by (simp add: shows_entry_def sample_env_def)
qed

lemma pids_of_name_witness:
  "getProcIDbyName (sample_env [1..<12]) ''a'' PIDS_MAX [] = None \<and>
   (\<exists>buf'. getProcIDbyName (sample_env [7]) ''a'' PIDS_MAX [] = Some (True, [7], buf'))"
proof -
  have e: "px_dirs (sample_env ns) ''/proc'' =
      Some ([''.'', ''..''] @ List.map (\<lambda>p. print_decimal (pr_pid p)) (List.map sample_entry ns))" for ns
    by (simp add: sample_env_def sample_entry_def o_def)
  have f: "filter (\<lambda>p. pr_name p = ''a'') (List.map sample_entry ns) = List.map sample_entry ns" for ns
    by (induction ns) (simp_all add: sample_entry_def)
  show ?thesis
    using pids_of_name [OF e, of "[1..<12]" "''a''" "[]"] pids_of_name [OF e, of "[7]" "''a''" "[]"]
    by (simp add: f Let_def sample_shown) (simp add: sample_entry_def)
qed

text \<open>A number is not read where neither white space, a sign nor a digit stands.\<close>

lemma scan_unsigned_none:
  assumes "\<not> is_space x" "x \<noteq> CHR ''-''" "x \<noteq> CHR ''+''" "digit_value 10 x = None"
  shows "scan_unsigned 10 (x # s) = None"
proof -
  have "scan_prefix 10 t = t" for t
    by (simp add: scan_prefix_def split: list.splits)
  then show ?thesis
    using assms by (simp add: scan_unsigned_def Let_def)
qed

text \<open>A process whose name holds a closing parenthesis is reported with the times of the entry read before
  it, multiplied once more by the milliseconds per tick: the scan takes the name up to the first
  parenthesis and the next character as the state, finds no number there and leaves every later variable
  as it was.\<close>

theorem parenthesis_in_name:
  assumes "px_files env (entry_file pid dn ''stat'') = Some (print_decimal n @ '' ('' @ a @ '')'' @ c # x # rest)"
    "px_files env (entry_file pid dn ''statm'') = Some m"
    "file_text (print_decimal n @ '' ('' @ a @ '')'' @ c # x # rest)"
    "a \<noteq> []" "CHR '')'' \<notin> set a" "\<not> is_space c"
    "\<not> is_space x" "x \<noteq> CHR ''-''" "x \<noteq> CHR ''+''" "digit_value 10 x = None"
  shows "\<exists>d'. read_entry env pid dn d = (True, d') \<and>
    st_pid (pd_stat d') = int n \<and> st_fullName (pd_stat d') = a \<and> st_state (pd_stat d') = c \<and>
    st_new_utime (pd_stat d') = st_new_utime (pd_stat d) * of_nat (MSEC_PER_CLOCK env) \<and>
    st_new_stime (pd_stat d') = st_new_stime (pd_stat d) * of_nat (MSEC_PER_CLOCK env)"
proof -
  let ?t = "print_decimal n @ '' ('' @ a @ '')'' @ c # x # rest"
  obtain b1 where b1: "readProcEntry env (entry_file pid dn ''stat'') (pd_buffer d) = (True, b1)" "c_string b1 = ?t"
    using readProcEntry_text [OF assms(1,3)] by blast
  obtain b2 where b2: "readProcEntry env (entry_file pid dn ''statm'') b1 = (True, b2)"
    using assms(2) by (auto simp: readProcEntry_def)
  have "scan_unsigned 10 (x # rest) = None"
    by (rule scan_unsigned_none) (fact assms)+
  then have "scan_fields stat_format ?t = [SInt (int n), SText a, SChar c]"
    using scan_name [OF assms(4,5), of n "c # x # rest"] assms(6,7) by (simp add: numeral_nat)
  then show ?thesis
    using b1 b2
    by (simp add: read_entry_def scan_stat_def scanned_int_def word_or_def int_or_def Let_def)
qed

lemma parenthesis_in_name_witness:
  "\<exists>d'. read_entry \<lparr> px_dirs = (\<lambda>_. None), px_files = (\<lambda>f. Some ''7 (a)bc) S 1''), px_clk_tck = 100,
                    px_pagesize = 4096, px_sysinfo = None \<rparr> 0 ''7''
        \<lparr> pd_buffer = [], pd_stat = zero_sstat\<lparr> st_new_utime := 3 \<rparr>, pd_statm = zero_sstatm \<rparr> = (True, d') \<and>
     st_pid (pd_stat d') = int 7 \<and> st_fullName (pd_stat d') = ''a'' \<and> st_state (pd_stat d') = CHR ''b'' \<and>
     st_new_utime (pd_stat d') = 3 * of_nat 10 \<and> st_new_stime (pd_stat d') = 0 * of_nat 10"
proof -
  let ?env = "\<lparr> px_dirs = (\<lambda>_. None), px_files = (\<lambda>f. Some ''7 (a)bc) S 1''), px_clk_tck = 100,
      px_pagesize = 4096, px_sysinfo = None \<rparr>"
  let ?d = "\<lparr> pd_buffer = [], pd_stat = zero_sstat\<lparr> st_new_utime := 3 \<rparr>, pd_statm = zero_sstatm \<rparr>"
  have seven: "print_decimal 7 = ''7''"
    by code_simp
  have k: "MSEC_PER_CLOCK ?env = 10"
    by (simp add: MSEC_PER_CLOCK_def)
  show ?thesis
    using parenthesis_in_name [where env = ?env and pid = 0 and dn = "''7''" and n = 7 and a = "''a''"
        and c = "CHR ''b''" and x = "CHR ''c''" and rest = "'') S 1''" and m = "''7 (a)bc) S 1''" and d = ?d]
    unfolding k by (simp add: seven file_text_def is_space_def digit_value_def zero_sstat_def)
qed

end
