(* ===== verification/ResourceMonitor.thy ===== *)
theory ResourceMonitor
  imports ProcFs
begin

text \<open>
  The resource monitor plugin (\<^verbatim>\<open>resource-monitor-plugin/src/resource-monitor-scheduler.cpp\<close> and
  \<^verbatim>\<open>resource-monitor-plugin.cpp\<close>, Linux): per timer tick it collects the system's memory, every process
  and the threads of the observed ones, and sends them with the processor time as context. Protocol
  messages are records; \<open>rs_sent\<close> is what was handed to \<^verbatim>\<open>sendMessage\<close>, oldest first.
\<close>

section \<open>Messages and state\<close>

record thread_info =
  ti_tid :: int
  ti_name :: string
  ti_timeInUserModeMs :: u64
  ti_timeInKernelModeMs :: u64
  ti_state :: string
  ti_vmBytes :: u64

record process_info =
  pi_pid :: int
  pi_name :: string
  pi_timeInUserModeMs :: u64
  pi_timeInKernelModeMs :: u64
  pi_vmUsageBytes :: u64
  pi_threads :: "thread_info list"

record system_info =
  sy_numberOfCores :: u32
  sy_totalVmMemBytes :: u64
  sy_usedVmMemBytes :: u64
  sy_totalPmMemBytes :: u64
  sy_usedPmMemBytes :: u64

record resource_info =
  ri_system :: "system_info option"
  ri_process :: "process_info list"

record sent_resources =
  sd_message :: resource_info
  sd_timestamp :: u64
  sd_context :: "(string \<times> string) list"

record scheduler =
  rs_observedProcesses :: "int list"
  rs_unresolvedNames :: "string list"
  rs_samplingRateInMs :: u32
  rs_wakeups_missed :: u64
  rs_numCPU :: u32
  rs_cpuUsageSummedUp :: u64
  rs_lastIterationTs :: u64
  rs_gFileDataBuffer :: string
  rs_sent_resources :: "sent_resources list"

definition new_ResourceMonitorScheduler :: "u32 \<Rightarrow> string \<Rightarrow> scheduler" where
  "new_ResourceMonitorScheduler processorCount gFileDataBuffer =
     \<lparr> rs_observedProcesses = [], rs_unresolvedNames = [], rs_samplingRateInMs = 1000,
       rs_wakeups_missed = 0, rs_numCPU = processorCount, rs_cpuUsageSummedUp = 0,
       rs_lastIterationTs = 0, rs_gFileDataBuffer = gFileDataBuffer, rs_sent_resources = [] \<rparr>"

definition setConfiguration :: "int list \<Rightarrow> u32 \<Rightarrow> string list \<Rightarrow> scheduler \<Rightarrow> bool \<times> scheduler" where
  "setConfiguration observed samplingRate unresolvedNames s =
     (True, s\<lparr> rs_observedProcesses := observed, rs_samplingRateInMs := samplingRate,
               rs_unresolvedNames := unresolvedNames \<rparr>)"

section \<open>The timer\<close>

text \<open>\<open>fd\<close> and \<open>settime\<close> are the results of \<^verbatim>\<open>timerfd_create\<close> and \<^verbatim>\<open>timerfd_settime\<close>; the timer is armed with
  \<^const>\<open>timer_interval\<close> of the rate, as its interval and its first expiration.\<close>

definition configureTimer :: "int \<Rightarrow> int \<Rightarrow> scheduler \<Rightarrow> bool \<times> scheduler" where
  "configureTimer fd settime s =
     (fd \<noteq> - 1 \<and> settime \<noteq> - 1, s\<lparr> rs_wakeups_missed := 0 \<rparr>)"

section \<open>Collecting\<close>

definition collectSystemInfo :: "proc_env \<Rightarrow> scheduler \<Rightarrow> resource_info \<Rightarrow> resource_info" where
  "collectSystemInfo env s ri =
     (case readMeminfo env \<lparr> totalVirtualMem = 0, virtualMemUsed = 0, totalPhysMem = 0, physMemUsed = 0 \<rparr> of
        (False, _) \<Rightarrow> ri
      | (True, mi) \<Rightarrow>
          ri\<lparr> ri_system := Some
            \<lparr> sy_numberOfCores = rs_numCPU s, sy_totalVmMemBytes = totalVirtualMem mi,
              sy_usedVmMemBytes = virtualMemUsed mi, sy_totalPmMemBytes = totalPhysMem mi,
              sy_usedPmMemBytes = physMemUsed mi \<rparr> \<rparr>)"

text \<open>The conversion of the signed 32-bit product to the message's unsigned 64 bits.\<close>

definition rss_bytes :: "sstatm \<Rightarrow> u64" where
  "rss_bytes sm = word_of_int (sint (sm_Rss sm))"

definition thread_info_of :: "proc_data \<Rightarrow> thread_info" where
  "thread_info_of d =
     \<lparr> ti_tid = st_pid (pd_stat d), ti_name = st_fullName (pd_stat d),
       ti_timeInUserModeMs = st_new_utime (pd_stat d), ti_timeInKernelModeMs = st_new_stime (pd_stat d),
       ti_state = [st_state (pd_stat d)], ti_vmBytes = rss_bytes (pd_statm d) \<rparr>"

text \<open>A stream that could not be opened delivers no entry, so the loop ends after its first pass.\<close>

function thread_loop ::
    "proc_env \<Rightarrow> descriptor \<Rightarrow> proc_data \<Rightarrow> thread_info list \<Rightarrow> proc_data \<times> thread_info list" where
  "thread_loop env e d threads =
     (case readProcFs env (e, d) of
        (readingValid, e', d') \<Rightarrow>
          (let threads = (if readingValid then threads @ [thread_info_of d'] else threads)
           in if de_dp e' = None \<or> de_dir e = None then (d', threads)
              else thread_loop env e' d' threads))"
  by pat_completeness auto

termination
  by (relation "measure (\<lambda>(env, e, d, threads). entries_left e)") (auto dest!: readProcFs_next intro: next_entry_shorter)

declare thread_loop.simps [simp del]

definition collectThreadInfo :: "proc_env \<Rightarrow> int \<Rightarrow> string \<Rightarrow> string \<times> thread_info list" where
  "collectThreadInfo env pid buf =
     (let e = \<lparr> de_dp = None, de_dir = px_dirs env (''/proc/'' @ print_int pid @ ''/task''), de_pid = pid \<rparr>;
          (d, threads) = thread_loop env e
            \<lparr> pd_buffer = buf, pd_stat = zero_sstat, pd_statm = zero_sstatm \<rparr> []
      in (pd_buffer d, threads))"

definition updateObservedProcList :: "sstat \<Rightarrow> scheduler \<Rightarrow> scheduler" where
  "updateObservedProcList entry s =
     fold (\<lambda>it s. if st_fullName entry = it \<and> st_pid entry \<notin> set (rs_observedProcesses s)
                  then s\<lparr> rs_observedProcesses := rs_observedProcesses s @ [st_pid entry] \<rparr> else s)
       (rs_unresolvedNames s) s"

text \<open>One entry that could be read: the message gets a process, with its threads when it is observed.\<close>

definition collect_process ::
    "proc_env \<Rightarrow> proc_data \<Rightarrow> scheduler \<Rightarrow> string \<times> process_info \<times> scheduler" where
  "collect_process env d s =
     (let st = pd_stat d;
          s = s\<lparr> rs_cpuUsageSummedUp := rs_cpuUsageSummedUp s + (st_new_stime st + st_new_utime st) \<rparr>;
          s = updateObservedProcList st s;
          (buf, threads) = (if st_pid st \<in> set (rs_observedProcesses s)
                            then collectThreadInfo env (st_pid st) (pd_buffer d)
                            else (pd_buffer d, []))
      in (buf,
          \<lparr> pi_pid = st_pid st, pi_name = st_fullName st, pi_timeInUserModeMs = st_new_utime st,
            pi_timeInKernelModeMs = st_new_stime st, pi_vmUsageBytes = rss_bytes (pd_statm d),
            pi_threads = threads \<rparr>, s))"

function process_loop ::
    "proc_env \<Rightarrow> descriptor \<Rightarrow> proc_data \<Rightarrow> process_info list \<Rightarrow> scheduler \<Rightarrow>
     proc_data \<times> process_info list \<times> scheduler" where
  "process_loop env e d ps s =
     (case readProcFs env (e, d) of
        (readingValid, e', d') \<Rightarrow>
          (let (d'', ps', s') =
             (if readingValid then
                (case collect_process env d' s of (buf, p, s') \<Rightarrow> (d'\<lparr> pd_buffer := buf \<rparr>, ps @ [p], s'))
              else (d', ps, s))
           in if de_dp e' = None \<or> de_dir e = None then (d'', ps', s')
              else process_loop env e' d'' ps' s'))"
  by pat_completeness auto

termination
  by (relation "measure (\<lambda>(env, e, d, ps, s). entries_left e)") (auto dest!: readProcFs_next intro: next_entry_shorter)

declare process_loop.simps [simp del]

definition collectProcessInfo :: "proc_env \<Rightarrow> scheduler \<Rightarrow> resource_info \<Rightarrow> resource_info \<times> scheduler" where
  "collectProcessInfo env s ri =
     (let e = \<lparr> de_dp = None, de_dir = px_dirs env ''/proc'', de_pid = 0 \<rparr>;
          (d, ps, s) = process_loop env e
            \<lparr> pd_buffer = rs_gFileDataBuffer s, pd_stat = zero_sstat, pd_statm = zero_sstatm \<rparr>
            (ri_process ri) (s\<lparr> rs_cpuUsageSummedUp := 0 \<rparr>)
      in (ri\<lparr> ri_process := ps \<rparr>, s\<lparr> rs_gFileDataBuffer := pd_buffer d \<rparr>))"

definition sendResourceMonitorMessage :: "proc_env \<Rightarrow> resource_info \<Rightarrow> u64 \<Rightarrow> scheduler \<Rightarrow> scheduler" where
  "sendResourceMonitorMessage env ri timestamp s =
     (case readCpuInfo env (rs_gFileDataBuffer s,
              \<lparr> userModeTime = 0, niceUserModeTime = 0, kernelModeTime = 0, idleTime = 0 \<rparr>) of
        (_, buf, ci) \<Rightarrow>
          (let cpuSystem = (userModeTime ci + niceUserModeTime ci + kernelModeTime ci) div ucast (rs_numCPU s)
           in s\<lparr> rs_gFileDataBuffer := buf,
                 rs_sent_resources := rs_sent_resources s @
                   [\<lparr> sd_message = ri, sd_timestamp = timestamp,
                      sd_context = [(''cpu.system.raw'', print_decimal (unat cpuSystem))] \<rparr>] \<rparr>))"

section \<open>The activity\<close>

text \<open>One pass of the loop. \<open>missed\<close> is what \<^verbatim>\<open>missedIteration\<close> holds after the read of the timer: the number
  of expirations, or, when the read fails, whatever the uninitialised variable held.\<close>

record iteration_input =
  it_env :: proc_env
  it_startTs :: u64
  it_missed :: u64
  it_sendTs :: u64

definition run_iteration :: "iteration_input \<Rightarrow> scheduler \<Rightarrow> scheduler" where
  "run_iteration i s =
     (let s = s\<lparr> rs_lastIterationTs := it_startTs i \<rparr>;
          s = (if it_missed i > 0
               then s\<lparr> rs_wakeups_missed := rs_wakeups_missed s + (it_missed i - 1) \<rparr> else s);
          ri = collectSystemInfo (it_env i) s \<lparr> ri_system = None, ri_process = [] \<rparr>;
          (ri, s) = collectProcessInfo (it_env i) s ri
      in sendResourceMonitorMessage (it_env i) ri (it_sendTs i) s)"

definition runActivity :: "int \<Rightarrow> int \<Rightarrow> iteration_input list \<Rightarrow> scheduler \<Rightarrow> scheduler" where
  "runActivity fd settime is s =
     (case configureTimer fd settime s of
        (False, s) \<Rightarrow> s
      | (True, s) \<Rightarrow> fold run_iteration is s)"

section \<open>The plugin\<close>

abbreviation MIN_SAMPLING_RATE :: u32 where "MIN_SAMPLING_RATE \<equiv> 50"
abbreviation MAX_SAMPLING_RATE :: u32 where "MAX_SAMPLING_RATE \<equiv> 5000"
abbreviation DEFAULT_SAMPLING_RATE :: u32 where "DEFAULT_SAMPLING_RATE \<equiv> 1000"

text \<open>The result, the rate, and whether the warning about the recommended range was logged.\<close>

definition storeSamplingRate :: "(string \<Rightarrow> u32 option) \<Rightarrow> string \<Rightarrow> u32 \<Rightarrow> bool \<times> u32 \<times> bool" where
  "storeSamplingRate parseUnsigned samplingAsText samplingAsValue =
     (case parseUnsigned samplingAsText of
        None \<Rightarrow> (False, samplingAsValue, False)
      | Some rate \<Rightarrow> (True, rate, MIN_SAMPLING_RATE \<ge> rate \<or> MAX_SAMPLING_RATE \<le> rate))"

definition storeProcById :: "string \<Rightarrow> int list \<Rightarrow> bool \<times> int list" where
  "storeProcById procID observed =
     (let pid = atoi procID in if - 1 \<noteq> pid then (True, observed @ [pid]) else (False, observed))"

definition storeProcByName ::
    "proc_env \<Rightarrow> string \<Rightarrow> string \<Rightarrow> int list \<Rightarrow> (bool \<times> int list \<times> string) option" where
  "storeProcByName env procName buf observed =
     Option.bind (getProcIDbyName env (c_string procName) PIDS_MAX buf) (\<lambda>(found, pidArray, buf).
       Some (if found then (True, observed @ pidArray, buf) else (False, observed, buf)))"

record monitor_settings =
  ms_observed :: "int list"
  ms_unresolved :: "string list"
  ms_samplingRate :: u32

definition monitor_entry ::
    "(string \<Rightarrow> u32 option) \<Rightarrow> string \<times> string \<Rightarrow> monitor_settings \<Rightarrow> monitor_settings" where
  "monitor_entry parseUnsigned = (\<lambda>(k, v) m.
     if contains ''procName'' k then m\<lparr> ms_unresolved := ms_unresolved m @ [v] \<rparr>
     else if contains ''samplingRate'' k then
       m\<lparr> ms_samplingRate := fst (snd (storeSamplingRate parseUnsigned v (ms_samplingRate m))) \<rparr>
     else if contains ''procID'' k then m\<lparr> ms_observed := snd (storeProcById v (ms_observed m)) \<rparr>
     else m)"

definition monitor_setConfig ::
    "(string \<Rightarrow> u32 option) \<Rightarrow> (string \<times> string) list \<Rightarrow> u32 \<Rightarrow> string \<Rightarrow> scheduler" where
  "monitor_setConfig parseUnsigned pluginConfiguration processorCount buf =
     (let m = fold (monitor_entry parseUnsigned) pluginConfiguration
                \<lparr> ms_observed = [], ms_unresolved = [], ms_samplingRate = DEFAULT_SAMPLING_RATE \<rparr>
      in snd (setConfiguration (ms_observed m) (ms_samplingRate m) (ms_unresolved m)
                (new_ResourceMonitorScheduler processorCount buf)))"

section \<open>A collection is the process table\<close>

text \<open>The reference: what a message should say of an entry of the process table.\<close>

definition thread_of :: "proc_env \<Rightarrow> proc_entry \<Rightarrow> thread_info" where
  "thread_of env t =
     \<lparr> ti_tid = int (pr_pid t), ti_name = pr_name t, ti_timeInUserModeMs = ticks_ms env (pr_nums t ! 10),
       ti_timeInKernelModeMs = ticks_ms env (pr_nums t ! 11), ti_state = [pr_state t],
       ti_vmBytes = word_of_int (sint (word_of_int (pr_mem t ! 0) * px_pagesize env)) \<rparr>"

definition process_of :: "proc_env \<Rightarrow> proc_entry \<Rightarrow> thread_info list \<Rightarrow> process_info" where
  "process_of env p threads =
     \<lparr> pi_pid = int (pr_pid p), pi_name = pr_name p, pi_timeInUserModeMs = ticks_ms env (pr_nums p ! 10),
       pi_timeInKernelModeMs = ticks_ms env (pr_nums p ! 11),
       pi_vmUsageBytes = word_of_int (sint (word_of_int (pr_mem p ! 0) * px_pagesize env)),
       pi_threads = threads \<rparr>"

definition observes :: "scheduler \<Rightarrow> proc_entry \<Rightarrow> bool" where
  "observes s p \<longleftrightarrow> int (pr_pid p) \<in> set (rs_observedProcesses s) \<or> pr_name p \<in> set (rs_unresolvedNames s)"

definition task_dir :: "nat \<Rightarrow> string" where
  "task_dir pid = ''/proc/'' @ print_decimal pid @ ''/task''"

text \<open>The file system shows a table of processes and, for each, its threads.\<close>

definition shows_processes :: "proc_env \<Rightarrow> proc_entry list \<Rightarrow> (nat \<Rightarrow> proc_entry list) \<Rightarrow> bool" where
  "shows_processes env table threads \<longleftrightarrow>
     shows_dir env ''/proc'' table \<and> distinct (List.map pr_pid table) \<and>
     (\<forall>p \<in> set table. 0 < pr_pid p \<and> shows_entry env ''/proc/'' p \<and>
        shows_dir env (task_dir (pr_pid p)) (threads (pr_pid p)) \<and>
        (\<forall>t \<in> set (threads (pr_pid p)). shows_entry env (task_dir (pr_pid p) @ ''/'') t))"

lemma readProcFs_table:
  assumes "de_dir e = Some names" "filter digit_name names = print_decimal (pr_pid p) # ns"
    "shows_entry env root p"
    "\<forall>f. entry_file (de_pid e) (print_decimal (pr_pid p)) f = root @ print_decimal (pr_pid p) @ ''/'' @ f"
  shows "\<exists>d' rest. readProcFs env (e, d) =
      (True, e\<lparr> de_dp := Some (print_decimal (pr_pid p)), de_dir := Some rest \<rparr>, d') \<and>
      filter digit_name rest = ns \<and> shows_data env p d'"
proof -
  obtain rest where r: "dropWhile (\<lambda>n. \<not> digit_name n) names = print_decimal (pr_pid p) # rest"
      "filter digit_name rest = ns"
    using next_digit_entry [OF assms(2)] by blast
  have n: "next_entry e = e\<lparr> de_dp := Some (print_decimal (pr_pid p)), de_dir := Some rest \<rparr>"
    unfolding next_entry_def assms(1) option.case r(1) list.case ..
  obtain d' where "read_entry env (de_pid e) (print_decimal (pr_pid p)) d = (True, d')" "shows_data env p d'"
    using read_entry_shows [OF assms(3,4)] by blast
  then show ?thesis
    using r(2) by (intro exI [of _ d'] exI [of _ rest]) (simp add: readProcFs_def n)
qed

lemma readProcFs_end:
  assumes "de_dir e = Some names" "filter digit_name names = []"
  shows "readProcFs env (e, d) = (False, e\<lparr> de_dp := None, de_dir := Some [] \<rparr>, d)"
proof -
  have "next_entry e = e\<lparr> de_dp := None, de_dir := Some [] \<rparr>"
    unfolding next_entry_def assms(1) option.case no_digit_entry [OF assms(2)] list.case ..
  then show ?thesis
    by (simp add: readProcFs_def)
qed

lemma thread_info_shown: "shows_data env t d \<Longrightarrow> thread_info_of d = thread_of env t"
  by (simp add: thread_info_of_def thread_of_def shows_data_def rss_bytes_def)

lemma thread_loop_table:
  assumes "0 < pid" "\<forall>t \<in> set table. shows_entry env (task_dir pid @ ''/'') t"
    "de_dir e = Some names" "de_pid e = int pid"
    "filter digit_name names = List.map (\<lambda>p. print_decimal (pr_pid p)) table"
  shows "snd (thread_loop env e d threads) = threads @ List.map (thread_of env) table"
  using assms(2-5)
proof (induction table arbitrary: e d names threads)
  case Nil
  then show ?case
    using readProcFs_end [of e names env d] by (subst thread_loop.simps) simp
next
  case (Cons t table)
  have path: "\<forall>f. entry_file (de_pid e) (print_decimal (pr_pid t)) f =
      (task_dir pid @ ''/'') @ print_decimal (pr_pid t) @ ''/'' @ f"
    using assms(1) Cons.prems(3) by (simp add: entry_file_def task_dir_def)
  obtain d' rest where r: "readProcFs env (e, d) =
      (True, e\<lparr> de_dp := Some (print_decimal (pr_pid t)), de_dir := Some rest \<rparr>, d')"
      "filter digit_name rest = List.map (\<lambda>p. print_decimal (pr_pid p)) table" "shows_data env t d'"
    using readProcFs_table [OF Cons.prems(2) _ _ path, of _ env d] Cons.prems(1,4) by auto
  show ?case
    using Cons.IH [of "e\<lparr> de_dp := Some (print_decimal (pr_pid t)), de_dir := Some rest \<rparr>" rest d'
        "threads @ [thread_of env t]"] Cons.prems r thread_info_shown [OF r(3)]
    by (subst thread_loop.simps) simp
qed

lemma collectThreadInfo_table:
  assumes "0 < pid" "shows_dir env (task_dir pid) table"
    "\<forall>t \<in> set table. shows_entry env (task_dir pid @ ''/'') t"
  shows "snd (collectThreadInfo env (int pid) buf) = List.map (thread_of env) table"
proof -
  obtain names where n: "px_dirs env (task_dir pid) = Some names"
      "filter digit_name names = List.map (\<lambda>p. print_decimal (pr_pid p)) table"
    using assms(2) by (auto simp: shows_dir_def)
  then have "px_dirs env (''/proc/'' @ print_int (int pid) @ ''/task'') = Some names"
    by (simp add: task_dir_def)
  then show ?thesis
    using thread_loop_table [OF assms(1,3) _ _ n(2), of "\<lparr> de_dp = None, de_dir = Some names, de_pid = int pid \<rparr>"
        "\<lparr> pd_buffer = buf, pd_stat = zero_sstat, pd_statm = zero_sstatm \<rparr>" "[]"]
    by (simp add: collectThreadInfo_def case_prod_unfold del: print_int_nat)
qed

text \<open>Names are resolved to process ids as their processes come by, and stay resolved.\<close>

lemma update_fold:
  "rs_unresolvedNames (fold (\<lambda>it s. if st_fullName st = it \<and> st_pid st \<notin> set (rs_observedProcesses s)
       then s\<lparr> rs_observedProcesses := rs_observedProcesses s @ [st_pid st] \<rparr> else s) ns s) = rs_unresolvedNames s"
  "set (rs_observedProcesses (fold (\<lambda>it s. if st_fullName st = it \<and> st_pid st \<notin> set (rs_observedProcesses s)
       then s\<lparr> rs_observedProcesses := rs_observedProcesses s @ [st_pid st] \<rparr> else s) ns s)) =
     set (rs_observedProcesses s) \<union> (if st_fullName st \<in> set ns then {st_pid st} else {})"
  by (induction ns arbitrary: s) auto

lemma update_observed:
  "rs_unresolvedNames (updateObservedProcList st s) = rs_unresolvedNames s"
  "set (rs_observedProcesses (updateObservedProcList st s)) =
     set (rs_observedProcesses s) \<union> (if st_fullName st \<in> set (rs_unresolvedNames s) then {st_pid st} else {})"
  unfolding updateObservedProcList_def by (rule update_fold)+

lemma collect_process_table:
  assumes "shows_data env p d" "0 < pr_pid p" "shows_dir env (task_dir (pr_pid p)) threads"
    "\<forall>t \<in> set threads. shows_entry env (task_dir (pr_pid p) @ ''/'') t"
  shows "\<exists>buf s'. collect_process env d s =
      (buf, process_of env p (if observes s p then List.map (thread_of env) threads else []), s') \<and>
      rs_unresolvedNames s' = rs_unresolvedNames s \<and>
      set (rs_observedProcesses s') =
        set (rs_observedProcesses s) \<union> (if pr_name p \<in> set (rs_unresolvedNames s) then {int (pr_pid p)} else {})"
proof -
  define s0 where "s0 = s\<lparr> rs_cpuUsageSummedUp := rs_cpuUsageSummedUp s +
      (st_new_stime (pd_stat d) + st_new_utime (pd_stat d)) \<rparr>"
  have st: "st_pid (pd_stat d) = int (pr_pid p)" "st_fullName (pd_stat d) = pr_name p"
    using assms(1) by (simp_all add: shows_data_def)
  note up = update_observed [of "pd_stat d" s0, unfolded st]
  have s0: "rs_unresolvedNames s0 = rs_unresolvedNames s" "rs_observedProcesses s0 = rs_observedProcesses s"
    by (simp_all add: s0_def)
  have obs: "int (pr_pid p) \<in> set (rs_observedProcesses (updateObservedProcList (pd_stat d) s0)) \<longleftrightarrow> observes s p"
    using up s0 by (simp add: observes_def)
  obtain buf where "collectThreadInfo env (int (pr_pid p)) (pd_buffer d) = (buf, List.map (thread_of env) threads)"
    using collectThreadInfo_table [OF assms(2,3,4), of "pd_buffer d"] by (metis prod.collapse)
  then have "collect_process env d s =
      (if observes s p then buf else pd_buffer d,
       process_of env p (if observes s p then List.map (thread_of env) threads else []),
       updateObservedProcList (pd_stat d) s0)"
    unfolding collect_process_def Let_def s0_def [symmetric]
    using assms(1) obs by (simp add: process_of_def shows_data_def rss_bytes_def)
  then show ?thesis
    using up s0 by simp
qed

lemma process_loop_table:
  assumes "distinct (List.map pr_pid table)"
    "\<forall>p \<in> set table. 0 < pr_pid p \<and> shows_entry env ''/proc/'' p \<and>
        shows_dir env (task_dir (pr_pid p)) (threads (pr_pid p)) \<and>
        (\<forall>t \<in> set (threads (pr_pid p)). shows_entry env (task_dir (pr_pid p) @ ''/'') t)"
    "de_dir e = Some names" "de_pid e = 0"
    "filter digit_name names = List.map (\<lambda>p. print_decimal (pr_pid p)) table"
  shows "\<exists>d' s'. process_loop env e d ps s =
      (d', ps @ List.map (\<lambda>p. process_of env p
             (if observes s p then List.map (thread_of env) (threads (pr_pid p)) else [])) table, s') \<and>
      rs_unresolvedNames s' = rs_unresolvedNames s \<and>
      set (rs_observedProcesses s') = set (rs_observedProcesses s) \<union>
        {int (pr_pid p) |p. p \<in> set table \<and> pr_name p \<in> set (rs_unresolvedNames s)}"
  using assms
proof (induction table arbitrary: e d names ps s)
  case Nil
  then show ?case
    using readProcFs_end [of e names env d] by (subst process_loop.simps) simp
next
  case (Cons p table)
  have path: "\<forall>f. entry_file (de_pid e) (print_decimal (pr_pid p)) f =
      ''/proc/'' @ print_decimal (pr_pid p) @ ''/'' @ f"
    using Cons.prems(4) by (simp add: entry_file_def)
  let ?e = "\<lambda>rest. e\<lparr> de_dp := Some (print_decimal (pr_pid p)), de_dir := Some rest \<rparr>"
  obtain d' rest where r: "readProcFs env (e, d) = (True, ?e rest, d')"
      "filter digit_name rest = List.map (\<lambda>p. print_decimal (pr_pid p)) table" "shows_data env p d'"
    using readProcFs_table [OF Cons.prems(3) _ _ path, of _ env d] Cons.prems(2,5) by auto
  let ?pi = "\<lambda>s p. process_of env p (if observes s p then List.map (thread_of env) (threads (pr_pid p)) else [])"
  obtain buf s1 where c: "collect_process env d' s = (buf, ?pi s p, s1)"
      "rs_unresolvedNames s1 = rs_unresolvedNames s"
      "set (rs_observedProcesses s1) =
        set (rs_observedProcesses s) \<union> (if pr_name p \<in> set (rs_unresolvedNames s) then {int (pr_pid p)} else {})"
    using collect_process_table [OF r(3), of "threads (pr_pid p)" s] Cons.prems(2) by auto
  have same: "List.map (?pi s1) table = List.map (?pi s) table"
  proof (rule map_cong [OF refl])
    fix q
    assume "q \<in> set table"
    then have "pr_pid q \<noteq> pr_pid p"
      using Cons.prems(1) by (auto simp: image_iff)
    then have "observes s1 q = observes s q"
      using c(2,3) by (simp add: observes_def)
    then show "?pi s1 q = ?pi s q"
      by simp
  qed
  have step: "process_loop env e d ps s =
      process_loop env (?e rest) (d'\<lparr> pd_buffer := buf \<rparr>) (ps @ [?pi s p]) s1"
    using r(1) c(1) Cons.prems(3) by (subst process_loop.simps) simp
  obtain d2 s2 where "process_loop env (?e rest) (d'\<lparr> pd_buffer := buf \<rparr>) (ps @ [?pi s p]) s1 =
        (d2, (ps @ [?pi s p]) @ List.map (?pi s1) table, s2)"
      "rs_unresolvedNames s2 = rs_unresolvedNames s1"
      "set (rs_observedProcesses s2) = set (rs_observedProcesses s1) \<union>
        {int (pr_pid p) |p. p \<in> set table \<and> pr_name p \<in> set (rs_unresolvedNames s1)}"
    using Cons.IH [of "?e rest" rest "d'\<lparr> pd_buffer := buf \<rparr>" "ps @ [?pi s p]" s1] Cons.prems r(2) by auto
  then show ?case
    using step same c(2,3) by (intro exI [of _ d2] exI [of _ s2]) auto
qed

section \<open>Properties\<close>


text \<open>A system with one process and its main thread, for the witness.\<close>

definition monitor_env :: proc_env where
  "monitor_env =
     \<lparr> px_dirs = (\<lambda>d. if d = ''/proc'' then Some [''.'', ''self'', ''7''] else Some [''.'', ''7'']),
       px_files = (\<lambda>f. if f = ''/proc/7/stat'' \<or> f = ''/proc/7/task/7/stat'' then Some (stat_line (sample_entry 7))
                       else Some (statm_line (sample_entry 7))),
       px_clk_tck = 100, px_pagesize = 4096, px_sysinfo = None \<rparr>"

lemma monitor_env_shows: "shows_processes monitor_env [sample_entry 7] (\<lambda>_. [sample_entry 7])"
proof -
  have seven: "print_decimal 7 = ''7''"
    by code_simp
  have pid: "pr_pid (sample_entry 7) = 7"
    by (simp add: sample_entry_def)
  have "entry_ok (sample_entry 7)"
    using sample_shown [of 7 "[]"] by (simp add: shows_entry_def)
  then have "shows_entry monitor_env ''/proc/'' (sample_entry 7)"
    "shows_entry monitor_env (task_dir 7 @ ''/'') (sample_entry 7)"
    by (simp_all add: shows_entry_def monitor_env_def pid seven task_dir_def)
  moreover have "shows_dir monitor_env ''/proc'' [sample_entry 7]"
    "shows_dir monitor_env (task_dir 7) [sample_entry 7]"
    by (simp_all add: shows_dir_def monitor_env_def pid seven task_dir_def digit_name_def is_digit_def)
  ultimately show ?thesis
    by (simp add: shows_processes_def pid)
qed


lemma resident_bytes:
  assumes "0 \<le> pr_mem p ! 0" "pr_mem p ! 0 * uint (px_pagesize env) < 2 ^ 32"
  shows "uint (word_of_int (sint (word_of_int (pr_mem p ! 0) * px_pagesize env)) :: u64) =
    (let bytes = pr_mem p ! 0 * uint (px_pagesize env)
     in if bytes < 2 ^ 31 then bytes else 2 ^ 64 - 2 ^ 32 + bytes)"
proof -
  define b where "b = pr_mem p ! 0 * uint (px_pagesize env)"
  have b: "0 \<le> b" "b < 2 ^ 32"
    using assms by (simp_all add: b_def)
  have w: "word_of_int (pr_mem p ! 0) * px_pagesize env = (word_of_int b :: u32)"
    by (simp add: b_def)
  have s: "sint (word_of_int b :: u32) = (if b < 2 ^ 31 then b else b - 2 ^ 32)"
  proof (cases "b < 2 ^ 31")
    case True
    then show ?thesis
      using b(1) by (simp add: signed_of_int signed_take_bit_int_eq_self)
  next
    case False
    have w: "(word_of_int b :: u32) = word_of_int (b - 2 ^ 32)"
      by (simp add: word_of_int_eq_iff take_bit_eq_mod minus_mod_self2)
    have "sint (word_of_int b :: u32) = signed_take_bit 31 (b - 2 ^ 32)"
      unfolding w signed_of_int by simp
    moreover have "signed_take_bit 31 (b - 2 ^ 32) = b - 2 ^ 32"
      using False b by (intro signed_take_bit_int_eq_self) simp_all
    ultimately show ?thesis
      using False by simp
  qed
  show ?thesis
  proof (cases "b < 2 ^ 31")
    case True
    then show ?thesis
      using b(1) by (simp add: w s uint_of_int_u64 flip: b_def)
  next
    case False
    have m: "uint (word_of_int x :: u64) = x mod 2 ^ 64" for x :: int
      by (simp add: uint_word_of_int)
    have "uint (word_of_int (b - 2 ^ 32) :: u64) = (b - 2 ^ 32) mod 2 ^ 64"
      by (rule m)
    also have "\<dots> = (b - 2 ^ 32 + 2 ^ 64) mod 2 ^ 64"
      by (rule mod_add_self2 [symmetric])
    also have "\<dots> = b - 2 ^ 32 + 2 ^ 64"
      using False b by (intro mod_pos_pos_trivial) simp_all
    finally show ?thesis
      using False by (simp add: w s flip: b_def)
  qed
qed

text \<open>A process's resident memory is reported exactly while it is below 2 GiB. From there to 4 GiB the
  product of pages and page size, computed at 32 bits, is negative, and the message says nearly
  \<open>2 ^ 64\<close> bytes.\<close>

theorem resident_bytes_reported:
  assumes "shows_entry env root p"
    "\<forall>f. entry_file pid (print_decimal (pr_pid p)) f = root @ print_decimal (pr_pid p) @ ''/'' @ f"
    "0 \<le> pr_mem p ! 0" "pr_mem p ! 0 * uint (px_pagesize env) < 2 ^ 32"
  shows "\<exists>d'. read_entry env pid (print_decimal (pr_pid p)) d = (True, d') \<and>
    uint (rss_bytes (pd_statm d')) =
      (let bytes = pr_mem p ! 0 * uint (px_pagesize env)
       in if bytes < 2 ^ 31 then bytes else 2 ^ 64 - 2 ^ 32 + bytes)"
proof -
  obtain d' where "read_entry env pid (print_decimal (pr_pid p)) d = (True, d')" "shows_data env p d'"
    using read_entry_shows [OF assms(1,2)] by blast
  then show ?thesis
    using resident_bytes [OF assms(3,4)] by (auto simp: shows_data_def rss_bytes_def)
qed

text \<open>A process with 2 GiB in use, for the witness.\<close>

definition big_entry :: proc_entry where
  "big_entry = (sample_entry 7)\<lparr> pr_mem := replicate 6 524288 \<rparr>"

definition big_env :: proc_env where
  "big_env = monitor_env\<lparr> px_files :=
     (\<lambda>f. if f = ''/proc/7/stat'' then Some (stat_line big_entry) else Some (statm_line big_entry)) \<rparr>"

lemma big_entry_shown: "shows_entry big_env ''/proc/'' big_entry"
proof -
  have seven: "print_decimal 7 = ''7''" "print_int 0 = ''0''"
    by code_simp+
  have pages: "print_int 524288 = print_decimal 524288"
    by (simp add: print_int_def)
  have short: "length (print_decimal 524288) \<le> 6"
    by (rule length_print_decimal) simp_all
  have stat: "stat_line big_entry = stat_line (sample_entry 7)" "pr_pid big_entry = 7"
    by (simp_all add: stat_line_def big_entry_def sample_entry_def)
  have "entry_ok (sample_entry 7)"
    using sample_shown [of 7 "[]"] by (simp add: shows_entry_def)
  moreover have "file_text (statm_line big_entry)"
    using short print_decimal_no_nul [of _ 524288]
    by (auto simp: file_text_def statm_line_def big_entry_def sample_entry_def blank_ints_def seven pages
        length_concat sum_list_replicate)
  ultimately have "entry_ok big_entry"
    by (simp add: entry_ok_def stat(1)) (simp add: big_entry_def)
  then show ?thesis
    by (simp add: shows_entry_def big_env_def stat(2) seven)
qed

lemma resident_bytes_reported_witness:
  "\<exists>d'. read_entry big_env 0 (print_decimal 7)
        \<lparr> pd_buffer = [], pd_stat = zero_sstat, pd_statm = zero_sstatm \<rparr> = (True, d') \<and>
     uint (rss_bytes (pd_statm d')) = 2 ^ 64 - 2 ^ 32 + 524288 * 4096"
proof -
  have pid: "pr_pid big_entry = 7"
    by (simp add: big_entry_def sample_entry_def)
  show ?thesis
    using resident_bytes_reported [OF big_entry_shown, of 0
        "\<lparr> pd_buffer = [], pd_stat = zero_sstat, pd_statm = zero_sstatm \<rparr>"]
    by (simp add: pid entry_file_def) (simp add: big_entry_def big_env_def monitor_env_def)
qed

end
