(* ===== verification/DltMonitor.thy ===== *)
theory DltMonitor
  imports Scanf
begin

text \<open>
  The DLT monitor plugin (\<^verbatim>\<open>dlt-monitor-plugin/src/dlt-client-activity.cpp\<close> and \<^verbatim>\<open>dlt-monitor-plugin.cpp\<close>):
  the callback of the DLT client turns trace messages into protocol messages, those of the MOST
  application into MOST messages. The DLT library is a parameter: a message is what the code asks it for
  (filter result, header bits, type fields, identifiers, the payload as text), and Poco's \<^verbatim>\<open>parseHex\<close> is
  the function \<open>parseHex\<close>.
\<close>

section \<open>Messages\<close>

record dlt_message =
  dm_filtered :: bool
  dm_wtms :: bool
  dm_ueh :: bool
  dm_mstp :: nat
  dm_mtin :: nat
  dm_apid :: string
  dm_ctid :: string
  dm_tmsp :: u32
  dm_payload :: string

abbreviation (input) FBLOCK_ID_BEGIN :: nat where "FBLOCK_ID_BEGIN \<equiv> 10"
abbreviation (input) INST_ID_BEGIN :: nat where "INST_ID_BEGIN \<equiv> 12"
abbreviation (input) OPTYPE_BEGIN :: nat where "OPTYPE_BEGIN \<equiv> 14"
abbreviation (input) FKT_ID_BEGIN :: nat where "FKT_ID_BEGIN \<equiv> 16"
abbreviation (input) CHARS_PRO_BYTE :: nat where "CHARS_PRO_BYTE \<equiv> 2"
abbreviation (input) MOST_HEADER_SIZE :: nat where "MOST_HEADER_SIZE \<equiv> 20"
abbreviation (input) DLT_ID_SIZE :: nat where "DLT_ID_SIZE \<equiv> 4"

record most_message =
  mm_fblockid :: nat
  mm_instid :: nat
  mm_optype :: nat
  mm_fktid :: nat
  mm_timestamp :: string
  mm_payload :: string

text \<open>The numbered kinds of the protocol's enums.\<close>

datatype dlt_info = LogInfo nat | TraceInfo nat | BusInfo nat | ControlInfo nat

definition DLTMessageType_IsValid :: "nat \<Rightarrow> bool" where
  "DLTMessageType_IsValid n \<longleftrightarrow> n \<le> 3"

definition info_of :: "nat \<Rightarrow> nat \<Rightarrow> dlt_info option" where
  "info_of messageType sub =
     (if messageType = 0 \<and> 1 \<le> sub \<and> sub \<le> 6 then Some (LogInfo sub)
      else if messageType = 1 \<and> 1 \<le> sub \<and> sub \<le> 5 then Some (TraceInfo sub)
      else if messageType = 2 \<and> 1 \<le> sub \<and> sub \<le> 4 then Some (BusInfo sub)
      else if messageType = 3 \<and> 1 \<le> sub \<and> sub \<le> 3 then Some (ControlInfo sub)
      else None)"

record trace_info =
  tr_timestamp :: string
  tr_messageType :: "nat option"
  tr_info :: "dlt_info option"
  tr_channel :: string
  tr_data :: string
  tr_context :: string

datatype dlt_sent =
    SentDlt trace_info
  | SentMost most_message

text \<open>\<open>dl_trace\<close> is the one trace message the handler fills again and again.\<close>

record dlt_handler =
  dl_trace :: trace_info
  dl_sent :: "dlt_sent list"

datatype dlt_error =
    PocoSyntaxException
  | StdOutOfRange

definition new_DltMessageHandler :: dlt_handler where
  "new_DltMessageHandler =
     \<lparr> dl_trace = \<lparr> tr_timestamp = [], tr_messageType = None, tr_info = None, tr_channel = [], tr_data = [],
                   tr_context = [] \<rparr>, dl_sent = [] \<rparr>"

definition sendDLTMessage :: "dlt_handler \<Rightarrow> dlt_handler" where
  "sendDLTMessage h = h\<lparr> dl_sent := dl_sent h @ [SentDlt (dl_trace h)] \<rparr>"

definition sendMOSTMessage :: "most_message \<Rightarrow> dlt_handler \<Rightarrow> dlt_handler" where
  "sendMOSTMessage m h = h\<lparr> dl_sent := dl_sent h @ [SentMost m] \<rparr>"

section \<open>The handler\<close>

definition isMostMessage :: "dlt_message \<Rightarrow> bool" where
  "isMostMessage m \<longleftrightarrow> take 4 (c_string (dm_apid m)) = ''MOST'' \<and>
     (take 2 (c_string (dm_ctid m)) = ''IN'' \<or> take 3 (c_string (dm_ctid m)) = ''OUT'')"

definition isMostMessageValid :: "string \<Rightarrow> bool" where
  "isMostMessageValid message \<longleftrightarrow> MOST_HEADER_SIZE < length message \<and> is_digit (hd message)"

text \<open>\<^verbatim>\<open>substr\<close> raises behind the end; both kinds of exceptions leave the handler as it was.\<close>

definition substrE :: "nat \<Rightarrow> nat \<Rightarrow> string \<Rightarrow> (dlt_error, dlt_handler, string) op" where
  "substrE pos n s = (if pos \<le> length s then returnE (take n (drop pos s)) else throwE StdOutOfRange)"

definition hexE :: "(string \<Rightarrow> nat option) \<Rightarrow> string \<Rightarrow> (dlt_error, dlt_handler, nat) op" where
  "hexE parseHex s = (case parseHex s of None \<Rightarrow> throwE PocoSyntaxException | Some n \<Rightarrow> returnE n)"

definition parseMostMessage ::
    "(string \<Rightarrow> nat option) \<Rightarrow> dlt_message \<Rightarrow> string \<Rightarrow> (dlt_error, dlt_handler, bool) op" where
  "parseMostMessage parseHex message payload =
     (if isMostMessageValid payload then
        (let payloadAsString = filter (\<lambda>c. c \<noteq> CHR '' '') payload in
         bindE (substrE FBLOCK_ID_BEGIN CHARS_PRO_BYTE payloadAsString) (\<lambda>fktblockid.
         bindE (substrE INST_ID_BEGIN CHARS_PRO_BYTE payloadAsString) (\<lambda>instid.
         bindE (substrE OPTYPE_BEGIN CHARS_PRO_BYTE payloadAsString) (\<lambda>optype.
         bindE (substrE (FKT_ID_BEGIN + CHARS_PRO_BYTE) CHARS_PRO_BYTE payloadAsString) (\<lambda>fkt_high.
         bindE (substrE FKT_ID_BEGIN CHARS_PRO_BYTE payloadAsString) (\<lambda>fkt_low.
         bindE (substrE MOST_HEADER_SIZE (length payloadAsString - MOST_HEADER_SIZE) payloadAsString)
           (\<lambda>remainingPayload.
         bindE (hexE parseHex fktblockid) (\<lambda>f.
         bindE (hexE parseHex instid) (\<lambda>i.
         bindE (hexE parseHex optype) (\<lambda>t.
         bindE (hexE parseHex (fkt_high @ fkt_low)) (\<lambda>k.
         thenE (modifyE (sendMOSTMessage
           \<lparr> mm_fblockid = f, mm_instid = i, mm_optype = t, mm_fktid = k,
             mm_timestamp = print_decimal (unat (dm_tmsp message)), mm_payload = remainingPayload \<rparr>))
         (returnE True))))))))))))
      else returnE False)"

text \<open>An invalid type changes neither the type nor the cleared informations.\<close>

definition storeMessageInfo :: "dlt_message \<Rightarrow> trace_info \<Rightarrow> trace_info" where
  "storeMessageInfo msg t =
     (if DLTMessageType_IsValid (dm_mstp msg)
      then t\<lparr> tr_messageType := Some (dm_mstp msg), tr_info := info_of (dm_mstp msg) (dm_mtin msg) \<rparr> else t)"

definition parseDltMessage :: "dlt_message \<Rightarrow> string \<Rightarrow> dlt_handler \<Rightarrow> dlt_handler" where
  "parseDltMessage message payload h =
     (let t = (dl_trace h)\<lparr> tr_data := [], tr_info := None \<rparr>;
          t = t\<lparr> tr_channel := take DLT_ID_SIZE (c_string (dm_apid message)) \<rparr>;
          t = t\<lparr> tr_timestamp := print_decimal (unat (dm_tmsp message)) \<rparr>;
          t = t\<lparr> tr_context := take DLT_ID_SIZE (c_string (dm_ctid message)) \<rparr>;
          t = t\<lparr> tr_data := payload \<rparr>;
          t = storeMessageInfo message t
      in sendDLTMessage (h\<lparr> dl_trace := t \<rparr>))"

text \<open>Only Poco's exceptions are caught; the result of \<^verbatim>\<open>parseMostMessage\<close> is not looked at.\<close>

definition parseLine :: "(string \<Rightarrow> nat option) \<Rightarrow> dlt_message \<Rightarrow> (dlt_error, dlt_handler, bool) op" where
  "parseLine parseHex message =
     (let payload = c_string (dm_payload message) in
      catchE (\<lambda>e. e = PocoSyntaxException) (\<lambda>_. returnE False)
        (if isMostMessage message then thenE (parseMostMessage parseHex message payload) (returnE True)
         else thenE (modifyE (parseDltMessage message payload)) (returnE True)))"

text \<open>\<open>message\<close> is there when neither pointer is null. The identifier put into the storage header is read by
  nobody afterwards.\<close>

definition dlt_receive_message_callback ::
    "(string \<Rightarrow> nat option) \<Rightarrow> dlt_message option \<Rightarrow> (dlt_error, dlt_handler, int) op" where
  "dlt_receive_message_callback parseHex message =
     (case message of
        None \<Rightarrow> returnE (- 1)
      | Some m \<Rightarrow>
          (if dm_filtered m \<and> dm_wtms m \<and> dm_ueh m then thenE (parseLine parseHex m) (returnE 0)
           else returnE 0))"

text \<open>The client's main loop: one callback per received message, until one raises.\<close>

fun dlt_main_loop ::
    "(string \<Rightarrow> nat option) \<Rightarrow> dlt_message list \<Rightarrow> (dlt_error, dlt_handler, unit) op" where
  "dlt_main_loop parseHex [] = returnE ()"
| "dlt_main_loop parseHex (m # ms) =
     thenE (dlt_receive_message_callback parseHex (Some m)) (dlt_main_loop parseHex ms)"

section \<open>The plugin\<close>

text \<open>\<open>dlt_setConfig\<close> is the text of \<^verbatim>\<open>filter.txt\<close>.\<close>

definition dlt_setConfig :: "(string \<times> string) list \<Rightarrow> string" where
  "dlt_setConfig pluginConfiguration =
     concat (List.map (\<lambda>(k, v). if contains ''dltFilter'' k then v @ [CHR 0x0A] else []) pluginConfiguration)"

section \<open>Properties\<close>

definition without_blanks :: "string \<Rightarrow> string" where
  "without_blanks p = filter (\<lambda>c. c \<noteq> CHR '' '') p"

definition most_field :: "string \<Rightarrow> nat \<Rightarrow> string" where
  "most_field t i = take CHARS_PRO_BYTE (drop i t)"

lemma parseMostMessage_short:
  assumes "isMostMessageValid p" "length (without_blanks p) < MOST_HEADER_SIZE"
  shows "parseMostMessage parseHex m p h = (Inl StdOutOfRange, h)"
proof -
  have "substrE MOST_HEADER_SIZE n (without_blanks p) h = (Inl StdOutOfRange, h)" for n
    using assms(2) by (simp add: substrE_def)
  then show ?thesis
    using assms(1)
    by (auto simp: parseMostMessage_def Let_def bindE_def without_blanks_def substrE_def split: sum.split prod.split)
qed

lemma parseMostMessage_long:
  assumes "isMostMessageValid p" "t = without_blanks p" "MOST_HEADER_SIZE \<le> length t"
  shows "parseMostMessage parseHex m p h =
    (case (parseHex (most_field t 10), parseHex (most_field t 12), parseHex (most_field t 14),
           parseHex (most_field t 18 @ most_field t 16)) of
       (Some f, Some i, Some op, Some k) \<Rightarrow>
         (Inr True, h\<lparr> dl_sent := dl_sent h @ [SentMost
            \<lparr> mm_fblockid = f, mm_instid = i, mm_optype = op, mm_fktid = k,
              mm_timestamp = print_decimal (unat (dm_tmsp m)), mm_payload = drop MOST_HEADER_SIZE t \<rparr>] \<rparr>)
     | _ \<Rightarrow> (Inl PocoSyntaxException, h))"
proof -
  have sub: "bindE (substrE i CHARS_PRO_BYTE t) f h = f (most_field t i) h" if "i \<le> 20" for i and
      f :: "string \<Rightarrow> (dlt_error, dlt_handler, bool) op"
    using that assms(3) by (simp add: substrE_def most_field_def bindE_def)
  have rest: "bindE (substrE MOST_HEADER_SIZE (length t - MOST_HEADER_SIZE) t) f h = f (drop MOST_HEADER_SIZE t) h"
    for f :: "string \<Rightarrow> (dlt_error, dlt_handler, bool) op"
    using assms(3) by (simp add: substrE_def bindE_def)
  have hex: "bindE (hexE parseHex x) f h =
      (case parseHex x of None \<Rightarrow> (Inl PocoSyntaxException, h) | Some n \<Rightarrow> f n h)" for x and
      f :: "nat \<Rightarrow> (dlt_error, dlt_handler, bool) op"
    by (simp add: hexE_def bindE_def split: option.split)
  have "parseMostMessage parseHex m p h =
      (case parseHex (most_field t 10) of None \<Rightarrow> (Inl PocoSyntaxException, h) | Some f \<Rightarrow>
      (case parseHex (most_field t 12) of None \<Rightarrow> (Inl PocoSyntaxException, h) | Some i \<Rightarrow>
      (case parseHex (most_field t 14) of None \<Rightarrow> (Inl PocoSyntaxException, h) | Some op \<Rightarrow>
      (case parseHex (most_field t 18 @ most_field t 16) of None \<Rightarrow> (Inl PocoSyntaxException, h) | Some k \<Rightarrow>
        (Inr True, sendMOSTMessage
          \<lparr> mm_fblockid = f, mm_instid = i, mm_optype = op, mm_fktid = k,
            mm_timestamp = print_decimal (unat (dm_tmsp m)), mm_payload = drop MOST_HEADER_SIZE t \<rparr> h)))))"
    using assms(1) sub [of 18]
    by (simp add: parseMostMessage_def Let_def sub rest hex flip: without_blanks_def assms(2) cong: option.case_cong)
  then show ?thesis
    by (auto simp: sendMOSTMessage_def split: option.split)
qed

text \<open>What becomes of a trace message of the MOST application. A payload of at most 20 characters, or one
  that begins with no digit, is dropped and still counts as handled. One that is longer but has fewer than
  20 characters without its blanks raises an exception that nothing in the plugin catches. Otherwise the
  four numbers of the header are read, the bytes of the function identifier swapped, and one message with
  the rest of the characters is sent, or, when one of them is no hexadecimal number, none and the failure
  reported.\<close>

theorem most_message_branches:
  assumes "isMostMessage m"
  shows "parseLine parseHex m h =
    (let p = c_string (dm_payload m); t = without_blanks p in
     if length p \<le> MOST_HEADER_SIZE \<or> \<not> is_digit (hd p) then (Inr True, h)
     else if length t < MOST_HEADER_SIZE then (Inl StdOutOfRange, h)
     else (case (parseHex (most_field t 10), parseHex (most_field t 12), parseHex (most_field t 14),
                 parseHex (most_field t 18 @ most_field t 16)) of
         (Some f, Some i, Some op, Some k) \<Rightarrow>
           (Inr True, h\<lparr> dl_sent := dl_sent h @ [SentMost
              \<lparr> mm_fblockid = f, mm_instid = i, mm_optype = op, mm_fktid = k,
                mm_timestamp = print_decimal (unat (dm_tmsp m)), mm_payload = drop MOST_HEADER_SIZE t \<rparr>] \<rparr>)
       | _ \<Rightarrow> (Inr False, h)))"
proof -
  define p where "p = c_string (dm_payload m)"
  define t where "t = without_blanks p"
  have line: "parseLine parseHex m h = catchE (\<lambda>e. e = PocoSyntaxException) (\<lambda>_. returnE False)
      (thenE (parseMostMessage parseHex m p) (returnE True)) h"
    using assms by (simp add: parseLine_def Let_def p_def)
  show ?thesis
  proof (cases "length p \<le> MOST_HEADER_SIZE \<or> \<not> is_digit (hd p)")
    case True
    then have "parseMostMessage parseHex m p h = (Inr False, h)"
      by (auto simp: parseMostMessage_def isMostMessageValid_def)
    then show ?thesis
      using True by (simp add: line thenE_def bindE_def flip: p_def)
  next
    case valid: False
    then have v: "isMostMessageValid p"
      by (simp add: isMostMessageValid_def)
    show ?thesis
    proof (cases "length t < MOST_HEADER_SIZE")
      case True
      then show ?thesis
        using parseMostMessage_short [OF v] valid
        by (simp add: line thenE_def bindE_def catchE_def t_def flip: p_def)
    next
      case False
      note parseMostMessage_long [OF v t_def]
      then show ?thesis
        using False valid
        by (simp add: line thenE_def bindE_def catchE_def flip: p_def t_def split: option.split)
    qed
  qed
qed

lemma most_message_branches_witness:
  "let m = \<lparr> dm_filtered = True, dm_wtms = True, dm_ueh = True, dm_mstp = 2, dm_mtin = 4, dm_apid = ''MOST'',
             dm_ctid = ''INFO'', dm_tmsp = 5, dm_payload = ''0 0 0 0 0 0 0 0 0 0 0'' \<rparr>
   in parseLine (\<lambda>_. Some 1) m new_DltMessageHandler = (Inl StdOutOfRange, new_DltMessageHandler)"
  by (simp add: most_message_branches isMostMessage_def c_string_def without_blanks_def is_digit_def)

text \<open>The last valid type among some messages, or what it was before them.\<close>

definition last_type :: "nat option \<Rightarrow> dlt_message list \<Rightarrow> nat option" where
  "last_type ty ms = fold (\<lambda>m ty. if DLTMessageType_IsValid (dm_mstp m) then Some (dm_mstp m) else ty) ms ty"

definition sent_trace :: "nat option \<Rightarrow> dlt_message \<Rightarrow> trace_info" where
  "sent_trace ty m =
     \<lparr> tr_timestamp = print_decimal (unat (dm_tmsp m)), tr_messageType = ty,
       tr_info = info_of (dm_mstp m) (dm_mtin m), tr_channel = take DLT_ID_SIZE (c_string (dm_apid m)),
       tr_data = c_string (dm_payload m), tr_context = take DLT_ID_SIZE (c_string (dm_ctid m)) \<rparr>"

lemma info_of_invalid: "\<not> DLTMessageType_IsValid n \<Longrightarrow> info_of n k = None"
  by (simp add: DLTMessageType_IsValid_def info_of_def)

lemma callback_trace:
  assumes "dm_filtered m" "dm_wtms m" "dm_ueh m" "\<not> isMostMessage m"
  shows "\<exists>h'. dlt_receive_message_callback parseHex (Some m) h = (Inr 0, h') \<and>
    dl_trace h' = sent_trace (last_type (tr_messageType (dl_trace h)) [m]) m \<and>
    dl_sent h' = dl_sent h @ [SentDlt (dl_trace h')]"
  using assms
  by (auto simp: dlt_receive_message_callback_def parseLine_def parseDltMessage_def storeMessageInfo_def
      sendDLTMessage_def sent_trace_def last_type_def info_of_invalid thenE_def bindE_def catchE_def Let_def)

text \<open>C32: Every trace message that passes the filter and carries a time stamp and an extended header, none of
  them of the MOST application, is sent once, in order, and shows its own time, identifiers, text and
  information. Only the message type can be another's: the type of a message whose own is invalid is the
  last valid one before it.\<close>

theorem trace_messages_sent:
  assumes "\<forall>m \<in> set ms. dm_filtered m \<and> dm_wtms m \<and> dm_ueh m \<and> \<not> isMostMessage m"
  shows "\<exists>h'. dlt_main_loop parseHex ms h = (Inr (), h') \<and>
    dl_sent h' = dl_sent h @ List.map (\<lambda>i. SentDlt
      (sent_trace (last_type (tr_messageType (dl_trace h)) (take (Suc i) ms)) (ms ! i))) [0..<length ms]"
  using assms
proof (induction ms arbitrary: h)
  case (Cons m ms)
  obtain h1 where h1: "dlt_receive_message_callback parseHex (Some m) h = (Inr 0, h1)"
      "dl_trace h1 = sent_trace (last_type (tr_messageType (dl_trace h)) [m]) m"
      "dl_sent h1 = dl_sent h @ [SentDlt (dl_trace h1)]"
    using callback_trace [of m parseHex h] Cons.prems by auto
  have tail: "\<forall>m \<in> set ms. dm_filtered m \<and> dm_wtms m \<and> dm_ueh m \<and> \<not> isMostMessage m"
    using Cons.prems by simp
  obtain h2 where h2: "dlt_main_loop parseHex ms h1 = (Inr (), h2)"
      "dl_sent h2 = dl_sent h1 @ List.map (\<lambda>i. SentDlt
        (sent_trace (last_type (tr_messageType (dl_trace h1)) (take (Suc i) ms)) (ms ! i))) [0..<length ms]"
    using Cons.IH [OF tail, of h1] by blast
  have ty: "last_type (tr_messageType (dl_trace h1)) ns = last_type (tr_messageType (dl_trace h)) (m # ns)" for ns
    by (simp add: h1(2) sent_trace_def last_type_def)
  have "[0..<length (m # ms)] = 0 # List.map Suc [0..<length ms]"
    by (simp add: upt_conv_Cons map_Suc_upt del: upt_Suc)
  then show ?case
    using h1 h2 ty by (simp add: thenE_def bindE_def o_def del: upt_Suc)
qed simp

lemma trace_messages_sent_witness:
  "let m = (\<lambda>k. \<lparr> dm_filtered = True, dm_wtms = True, dm_ueh = True, dm_mstp = k, dm_mtin = 4, dm_apid = ''NAVI'',
             dm_ctid = ''MAIN'', dm_tmsp = 5, dm_payload = ''up'' \<rparr>)
   in \<exists>h'. dlt_main_loop (\<lambda>_. None) [m 0, m 7] new_DltMessageHandler = (Inr (), h') \<and>
        dl_sent h' = [SentDlt (sent_trace (Some 0) (m 0)), SentDlt (sent_trace (Some 0) (m 7))]"
proof -
  let ?m = "\<lambda>k. \<lparr> dm_filtered = True, dm_wtms = True, dm_ueh = True, dm_mstp = k, dm_mtin = 4, dm_apid = ''NAVI'',
             dm_ctid = ''MAIN'', dm_tmsp = 5, dm_payload = ''up'' \<rparr>"
  have "\<forall>m \<in> set [?m 0, ?m 7]. dm_filtered m \<and> dm_wtms m \<and> dm_ueh m \<and> \<not> isMostMessage m"
    by (simp add: isMostMessage_def c_string_def)
  from trace_messages_sent [OF this, of "\<lambda>_. None" new_DltMessageHandler] show ?thesis
    by (simp add: last_type_def DLTMessageType_IsValid_def new_DltMessageHandler_def)
qed

section \<open>The consumer thread\<close>

text \<open>The calls to the DLT library that set up and release the client, the file and the filter.\<close>

datatype dlt_call =
    ClientInit | FileInit | FilterInit | FilterLoad | SetFilter | RegisterCallback | ClientConnect
  | ClientCleanup | FileFree | FilterFree

text \<open>\<open>loads\<close> and \<open>connects\<close> are the results of loading \<^verbatim>\<open>filter.txt\<close> and of connecting; \<open>ms\<close> are the messages
  until the main loop ends.\<close>

definition dlt_consumer ::
    "(string \<Rightarrow> nat option) \<Rightarrow> int \<Rightarrow> int \<Rightarrow> dlt_message list \<Rightarrow> (dlt_error, dlt_handler, dlt_call list) op" where
  "dlt_consumer parseHex loads connects ms =
     (if loads < 0 then returnE [ClientInit, FileInit, FilterInit, FilterLoad, FileFree]
      else thenE (if connects \<noteq> - 1 then dlt_main_loop parseHex ms else returnE ())
             (returnE ([ClientInit, FileInit, FilterInit, FilterLoad, SetFilter, RegisterCallback, ClientConnect] @
                (if connects \<noteq> - 1 then [ClientCleanup] else []) @ [FileFree, FilterFree])))"

text \<open>The file is released on every path, the filter only when it was loaded.\<close>

lemma consumer_releases:
  "dlt_consumer parseHex loads connects ms h = (Inr cs, h') \<Longrightarrow>
     FileFree \<in> set cs \<and> (FilterFree \<in> set cs \<longleftrightarrow> \<not> loads < 0) \<and>
     (ClientCleanup \<in> set cs \<longleftrightarrow> ClientConnect \<in> set cs \<and> connects \<noteq> - 1)"
  by (auto simp: dlt_consumer_def thenE_def bindE_def split: if_splits sum.splits prod.splits)

end
