(* ===== verification/AppStats.thy ===== *)
theory AppStats
  imports Scanf
begin

text \<open>
  The Linux application statistics plugin (\<^verbatim>\<open>linux-app-stats-plugin/src/socket_descriptor.cpp\<close>,
  \<^verbatim>\<open>stats_collector.cpp\<close>, \<^verbatim>\<open>linux_app_stats_plugin.cpp\<close>): applications connect to a listening socket, a
  table of thirty slots holds their descriptors, a query is sent to them periodically or on request and
  their answers are forwarded. The operating system's results (accepted descriptors, what is readable,
  what \<^verbatim>\<open>read\<close> delivers) are inputs.
\<close>

section \<open>The socket table\<close>

abbreviation (input) SOCKET_LIST_SIZE :: nat where "SOCKET_LIST_SIZE \<equiv> 30"
abbreviation (input) POSITION_FREE :: int where "POSITION_FREE \<equiv> 0"

record socket_info =
  sk_masterSocketDescriptor :: int
  sk_maxSocketDescriptor :: int
  sk_nrOfConnections :: u32
  sk_maxNrOfClients :: nat
  sk_socketList :: "int list"

definition new_CSocketInfo :: "int list \<Rightarrow> socket_info" where
  "new_CSocketInfo socketList =
     \<lparr> sk_masterSocketDescriptor = 0, sk_maxSocketDescriptor = 0, sk_nrOfConnections = 0,
       sk_maxNrOfClients = 30, sk_socketList = socketList \<rparr>"

text \<open>The results of \<^verbatim>\<open>socket\<close>, \<^verbatim>\<open>setsockopt\<close>, \<^verbatim>\<open>bind\<close> and \<^verbatim>\<open>listen\<close>; each failure is noted, none ends the set-up.\<close>

definition initialize_sockets :: "int \<Rightarrow> int \<Rightarrow> int \<Rightarrow> int \<Rightarrow> socket_info \<Rightarrow> bool \<times> socket_info" where
  "initialize_sockets socket setsockopt bind listen s =
     (socket \<noteq> - 1 \<and> \<not> setsockopt < 0 \<and> \<not> bind < 0 \<and> \<not> listen < 0,
      s\<lparr> sk_socketList := replicate (sk_maxNrOfClients s) 0 @ drop (sk_maxNrOfClients s) (sk_socketList s),
         sk_masterSocketDescriptor := socket \<rparr>)"

definition retrieveCurrentSocketList :: "socket_info \<Rightarrow> int list \<times> int" where
  "retrieveCurrentSocketList s = (sk_socketList s, sint (sk_nrOfConnections s))"

definition handleConnectionClosed :: "nat \<Rightarrow> socket_info \<Rightarrow> socket_info" where
  "handleConnectionClosed socketIdx s =
     s\<lparr> sk_socketList := (sk_socketList s)[socketIdx := POSITION_FREE],
        sk_nrOfConnections := sk_nrOfConnections s - 1 \<rparr>"

text \<open>\<open>accept\<close> is the result of \<^verbatim>\<open>accept\<close> when the master socket is readable. The loop takes the first free
  slot and leaves; without one the new descriptor is forgotten.\<close>

fun take_slot :: "int \<Rightarrow> nat list \<Rightarrow> socket_info \<Rightarrow> socket_info" where
  "take_slot fd [] s = s"
| "take_slot fd (idx # is) s =
     (if sk_socketList s ! idx = POSITION_FREE
      then s\<lparr> sk_socketList := (sk_socketList s)[idx := fd], sk_nrOfConnections := sk_nrOfConnections s + 1 \<rparr>
      else take_slot fd is s)"

definition handleNewConnection :: "int option \<Rightarrow> socket_info \<Rightarrow> socket_info" where
  "handleNewConnection accept s =
     (case accept of
        None \<Rightarrow> s
      | Some fd \<Rightarrow> (if fd < 0 then s else take_slot fd [0..<sk_maxNrOfClients s] s))"

text \<open>The set handed to \<^verbatim>\<open>select\<close> and its first argument.\<close>

definition watch_set :: "socket_info \<Rightarrow> int set \<times> socket_info" where
  "watch_set s =
     (let used = filter (\<lambda>fd. fd > 0) (take (sk_maxNrOfClients s) (sk_socketList s))
      in (insert (sk_masterSocketDescriptor s) (set used),
          s\<lparr> sk_maxSocketDescriptor :=
               fold max (take (sk_maxNrOfClients s) (sk_socketList s)) (sk_masterSocketDescriptor s) \<rparr>))"

definition waitForEventOnSocket :: "int \<Rightarrow> bool \<Rightarrow> socket_info \<Rightarrow> bool \<times> socket_info" where
  "waitForEventOnSocket event interrupted s =
     (\<not> (event < 0 \<and> \<not> interrupted), snd (watch_set s))"

text \<open>The descriptors that are shut down and closed.\<close>

definition deinitialize_sockets :: "socket_info \<Rightarrow> int list" where
  "deinitialize_sockets s =
     filter (\<lambda>fd. fd \<ge> 0) (take (sk_maxNrOfClients s) (sk_socketList s) @ [sk_masterSocketDescriptor s])"

section \<open>The collector\<close>

abbreviation (input) BUF_SIZE :: nat where "BUF_SIZE \<equiv> 256"
abbreviation (input) START_FLAG_LENGTH :: nat where "START_FLAG_LENGTH \<equiv> 1"
abbreviation (input) HEADER_LENGTH :: nat where "HEADER_LENGTH \<equiv> 3"

text \<open>\<open>tc_reads\<close> are the results of the coming calls of \<^verbatim>\<open>read\<close>: \<^const>\<open>None\<close> for an error, else what the socket
  offers, of which a call takes at most what it asks for. \<open>tc_queries\<close> are the descriptors a query was
  sent to, \<open>tc_traces\<close> the forwarded texts.\<close>

record stats_collector =
  tc_query :: string
  tc_samplingRate :: u32
  tc_sock :: socket_info
  tc_buffer :: string
  tc_reads :: "string option list"
  tc_queries :: "(int \<times> string) list"
  tc_traces :: "string list"

datatype stats_error =
    WriteOutsideBuffer
  | StdLengthError

text \<open>The slots are not initialised here, and the buffer is shared by all collectors.\<close>

definition new_CThreadStatsCollector ::
    "string \<Rightarrow> u32 \<Rightarrow> int list \<Rightarrow> string \<Rightarrow> string option list \<Rightarrow> stats_collector" where
  "new_CThreadStatsCollector query samplingRate socketList buffer reads =
     \<lparr> tc_query = query, tc_samplingRate = samplingRate, tc_sock = new_CSocketInfo socketList,
       tc_buffer = buffer, tc_reads = reads, tc_queries = [], tc_traces = [] \<rparr>"

text \<open>\<^verbatim>\<open>read(fd, buffer, n)\<close>: a negative \<open>n\<close> is a huge unsigned number.\<close>

definition read_socket :: "int \<Rightarrow> (stats_error, stats_collector, int) op" where
  "read_socket n c =
     (case tc_reads c of
        [] \<Rightarrow> (Inr (- 1), c)
      | None # rs \<Rightarrow> (Inr (- 1), c\<lparr> tc_reads := rs \<rparr>)
      | Some offered # rs \<Rightarrow>
          (let got = (if n < 0 then offered else take (nat n) offered) in
           case buf_write 0 got (tc_buffer c) of
             None \<Rightarrow> (Inl WriteOutsideBuffer, c\<lparr> tc_reads := rs \<rparr>)
           | Some buf \<Rightarrow> (Inr (int (length got)), c\<lparr> tc_reads := rs, tc_buffer := buf \<rparr>)))"

definition set_buffer :: "int \<Rightarrow> char \<Rightarrow> (stats_error, stats_collector, unit) op" where
  "set_buffer i x c =
     (if 0 \<le> i \<and> i < int (length (tc_buffer c))
      then (Inr (), c\<lparr> tc_buffer := (tc_buffer c)[nat i := x] \<rparr>) else (Inl WriteOutsideBuffer, c))"

definition scan_hex :: "string \<Rightarrow> int" where
  "scan_hex s = (case scan_unsigned 16 (c_string s) of None \<Rightarrow> 0 | Some (v, _) \<Rightarrow> v)"

definition forward_trace :: "int \<Rightarrow> (stats_error, stats_collector, unit) op" where
  "forward_trace n c =
     (if n < 0 then (Inl StdLengthError, c)
      else (Inr (), c\<lparr> tc_traces := tc_traces c @ [take (nat n) (tc_buffer c)] \<rparr>))"

definition processMessage :: "int \<Rightarrow> (stats_error, stats_collector, unit) op" where
  "processMessage nrOfBytes =
     thenE (set_buffer nrOfBytes CHR 0x00) (\<lambda>c.
       (if tc_buffer c ! 0 = CHR ''$'' then
          bindE (read_socket (int HEADER_LENGTH)) (\<lambda>n.
            (if n \<ge> 0 then
               thenE (set_buffer (int HEADER_LENGTH - 1) CHR 0x00)
                 (\<lambda>c. bindE (read_socket (scan_hex (tc_buffer c))) (\<lambda>n.
                    thenE (if n > 0 then set_buffer n CHR 0x00 else returnE ()) (forward_trace n)) c)
             else returnE ())) c
        else (Inr (), c)))"

definition on_sock :: "(socket_info \<Rightarrow> socket_info) \<Rightarrow> stats_collector \<Rightarrow> stats_collector" where
  "on_sock f c = c\<lparr> tc_sock := f (tc_sock c) \<rparr>"

text \<open>One pass over the slots after \<^verbatim>\<open>select\<close> has returned; \<open>ready\<close> is the set it leaves.\<close>

fun serve_slots :: "int set \<Rightarrow> nat list \<Rightarrow> (stats_error, stats_collector, unit) op" where
  "serve_slots ready [] c = (Inr (), c)"
| "serve_slots ready (idx # is) c =
     (let fd = sk_socketList (tc_sock c) ! idx in
      if fd \<noteq> POSITION_FREE \<and> fd \<in> ready then
        bindE (read_socket (int START_FLAG_LENGTH)) (\<lambda>nrOfBytes.
          thenE (if nrOfBytes = 0 then modifyE (on_sock (handleConnectionClosed idx))
                 else processMessage nrOfBytes)
            (serve_slots ready is)) c
      else serve_slots ready is c)"

definition receiver_pass :: "int option \<Rightarrow> int set \<Rightarrow> (stats_error, stats_collector, unit) op" where
  "receiver_pass accept ready c =
     (let c = on_sock (handleNewConnection accept) c
      in serve_slots ready [0..<sk_maxNrOfClients (tc_sock c)] c)"

text \<open>What \<^verbatim>\<open>send\<close> returns is only logged.\<close>

definition sendQuery :: "string \<Rightarrow> stats_collector \<Rightarrow> stats_collector" where
  "sendQuery query c =
     (case retrieveCurrentSocketList (tc_sock c) of
        (socketList, nrOfClients) \<Rightarrow>
          c\<lparr> tc_queries := tc_queries c @
               List.map (\<lambda>idx. (socketList ! nat idx, query)) [0..nrOfClients - 1] \<rparr>)"

section \<open>The periodic task\<close>

record periodic_task =
  pt_timer_fd :: int
  pt_wakeupsMissed :: u64
  pt_nonblocking :: bool

definition new_CPeriodicTaskInfo :: periodic_task where
  "new_CPeriodicTaskInfo = \<lparr> pt_timer_fd = 0, pt_wakeupsMissed = 0, pt_nonblocking = False \<rparr>"

text \<open>The results of \<^verbatim>\<open>timerfd_create\<close> and \<^verbatim>\<open>timerfd_settime\<close>; the third component is the period it is armed
  with.\<close>

definition configure_periodic :: "int \<Rightarrow> int \<Rightarrow> u32 \<Rightarrow> periodic_task \<Rightarrow> bool \<times> periodic_task \<times> (u64 \<times> u64)" where
  "configure_periodic fd settime samplingRate t =
     (fd \<noteq> - 1 \<and> settime \<noteq> - 1, t\<lparr> pt_timer_fd := fd, pt_wakeupsMissed := 0, pt_nonblocking := False \<rparr>,
      timer_interval samplingRate)"

text \<open>\<open>missed\<close> is what the variable holds after the read, also when that fails.\<close>

definition waitTimerTrigger :: "u64 \<Rightarrow> periodic_task \<Rightarrow> periodic_task" where
  "waitTimerTrigger missed t =
     (if missed > 0 then t\<lparr> pt_wakeupsMissed := pt_wakeupsMissed t + (missed - 1) \<rparr> else t)"

definition wakeupEvent :: "periodic_task \<Rightarrow> periodic_task" where
  "wakeupEvent t = t\<lparr> pt_nonblocking := True \<rparr>"

text \<open>One query per expiration.\<close>

definition mainSenderLoop ::
    "int \<Rightarrow> int \<Rightarrow> u64 list \<Rightarrow> periodic_task \<times> stats_collector \<Rightarrow> periodic_task \<times> stats_collector" where
  "mainSenderLoop fd settime ticks = (\<lambda>(t, c).
     (case configure_periodic fd settime (tc_samplingRate c) t of
        (False, t, _) \<Rightarrow> (t, c)
      | (True, t, _) \<Rightarrow>
          fold (\<lambda>missed (t, c). (waitTimerTrigger missed t, sendQuery (tc_query c) c)) ticks (t, c)))"

section \<open>The plugin\<close>

text \<open>\<open>se_slots\<close> is what the memory of a new table happens to hold, then come the results of the four calls
  that set up the listening socket. \<open>sp_running\<close> says whether the two activities run.\<close>

record stats_env =
  se_slots :: "int list"
  se_socket :: int
  se_setsockopt :: int
  se_bind :: int
  se_listen :: int
  se_reads :: "string option list"

record stats_plugin =
  sp_query :: string
  sp_collector :: "stats_collector option"
  sp_running :: bool
  sp_buffer :: string

definition new_CLinuxAppStatsPlugin :: stats_plugin where
  "new_CLinuxAppStatsPlugin =
     \<lparr> sp_query = [], sp_collector = None, sp_running = False, sp_buffer = replicate (BUF_SIZE + 1) CHR 0x00 \<rparr>"

text \<open>The configuration in key order, \<open>parseUnsigned\<close> is Poco's; the result says whether a rate was read.\<close>

fun stats_settings ::
    "(string \<Rightarrow> u32 option) \<Rightarrow> (string \<times> string) list \<Rightarrow> string \<times> u32 \<times> bool \<Rightarrow> string \<times> u32 \<times> bool" where
  "stats_settings parseUnsigned [] r = r"
| "stats_settings parseUnsigned ((k, v) # cfg) (query, rate, ok) =
     stats_settings parseUnsigned cfg
       (if contains ''samplingRate'' k then
          (case parseUnsigned v of None \<Rightarrow> (query, rate, ok) | Some n \<Rightarrow> (query, n, True))
        else if contains ''Query'' k then (v, rate, ok)
        else (query, rate, ok))"

definition new_collector :: "stats_env \<Rightarrow> u32 \<Rightarrow> stats_plugin \<Rightarrow> stats_plugin" where
  "new_collector env rate p =
     p\<lparr> sp_collector := Some (new_CThreadStatsCollector (sp_query p) rate (se_slots env) (sp_buffer p) (se_reads env)) \<rparr>"

definition stats_setConfig ::
    "(string \<Rightarrow> u32 option) \<Rightarrow> stats_env \<Rightarrow> (string \<times> string) list \<Rightarrow> stats_plugin \<Rightarrow> bool \<times> stats_plugin" where
  "stats_setConfig parseUnsigned env pluginConfiguration p =
     (case stats_settings parseUnsigned pluginConfiguration (sp_query p, 0, False) of
        (query, rate, retVal) \<Rightarrow> (retVal, new_collector env rate (p\<lparr> sp_query := query \<rparr>)))"

datatype stats_plugin_error =
    NullCollector
  | SenderBlocks

text \<open>A collector whose socket could not be set up does not start, and nobody is told.\<close>

definition start_collector :: "stats_env \<Rightarrow> stats_collector \<Rightarrow> bool \<times> stats_collector" where
  "start_collector env c =
     (case initialize_sockets (se_socket env) (se_setsockopt env) (se_bind env) (se_listen env) (tc_sock c) of
        (ok, s) \<Rightarrow> (ok, c\<lparr> tc_sock := s \<rparr>))"

definition stats_startPlugin :: "stats_env \<Rightarrow> (stats_plugin_error, stats_plugin, bool) op" where
  "stats_startPlugin env p =
     (case sp_collector p of
        None \<Rightarrow> (Inl NullCollector, p)
      | Some c \<Rightarrow>
          (case start_collector env c of
             (ok, c) \<Rightarrow> (Inr True, p\<lparr> sp_collector := Some c, sp_running := ok \<or> sp_running p \<rparr>)))"

text \<open>The stop waits for both activities. The sender blocks in the read of its timer, which the wake-up event,
  a flag of the descriptor, does not interrupt: with a period of zero the timer never expires and the
  wait does not end.\<close>

definition stats_stopPlugin :: "(stats_plugin_error, stats_plugin, bool) op" where
  "stats_stopPlugin p =
     (case sp_collector p of
        None \<Rightarrow> (Inl NullCollector, p)
      | Some c \<Rightarrow>
          if sp_running p \<and> tc_samplingRate c = 0 then (Inl SenderBlocks, p)
          else (Inr True, p\<lparr> sp_collector := None, sp_running := False, sp_buffer := tc_buffer c \<rparr>))"

datatype config_key = APP_STATISTICS_SET_RESOLUTION | APP_STATISTICS_TRIGGER

text \<open>\<open>entries\<close> are the entries of the parsed message; a value that is absent reads as zero. A new resolution
  ends the loop.\<close>

fun config_entries :: "stats_env \<Rightarrow> (config_key \<times> u32) list \<Rightarrow> (stats_plugin_error, stats_plugin, unit) op" where
  "config_entries env [] p = (Inr (), p)"
| "config_entries env ((key, value) # es) p =
     (case key of
        APP_STATISTICS_SET_RESOLUTION \<Rightarrow>
          thenE stats_stopPlugin
            (thenE (modifyE (new_collector env value)) (thenE (stats_startPlugin env) (returnE ()))) p
      | APP_STATISTICS_TRIGGER \<Rightarrow>
          (case sp_collector p of
             None \<Rightarrow> (Inl NullCollector, p)
           | Some c \<Rightarrow> config_entries env es (p\<lparr> sp_collector := Some (sendQuery (sp_query p) c) \<rparr>)))"

section \<open>The table as a set of clients\<close>

definition clients :: "socket_info \<Rightarrow> int set" where
  "clients s = {fd \<in> set (sk_socketList s). fd \<noteq> POSITION_FREE}"

definition table_ok :: "socket_info \<Rightarrow> bool" where
  "table_ok s \<longleftrightarrow> length (sk_socketList s) = SOCKET_LIST_SIZE \<and> sk_maxNrOfClients s = SOCKET_LIST_SIZE \<and>
     distinct (filter (\<lambda>fd. fd \<noteq> POSITION_FREE) (sk_socketList s)) \<and>
     sk_nrOfConnections s = of_nat (card (clients s))"

lemma clients_filter: "clients s = set (filter (\<lambda>fd. fd \<noteq> POSITION_FREE) (sk_socketList s))"
  by (auto simp: clients_def)

lemma card_clients:
  assumes "table_ok s"
  shows "card (clients s) = length (filter (\<lambda>fd. fd \<noteq> POSITION_FREE) (sk_socketList s))"
    "card (clients s) \<le> SOCKET_LIST_SIZE"
proof -
  show c: "card (clients s) = length (filter (\<lambda>fd. fd \<noteq> POSITION_FREE) (sk_socketList s))"
    unfolding clients_filter by (rule distinct_card) (use assms in \<open>simp add: table_ok_def\<close>)
  show "card (clients s) \<le> SOCKET_LIST_SIZE"
    unfolding c by (rule order.trans [OF length_filter_le]) (use assms in \<open>simp add: table_ok_def\<close>)
qed

text \<open>Writing a slot, as a change of the set.\<close>

lemma filter_update:
  assumes "i < length xs"
  shows "filter P (xs[i := x]) = filter P (take i xs) @ (if P x then [x] else []) @ filter P (drop (Suc i) xs)"
  by (subst upd_conv_take_nth_drop [OF assms]) simp

lemma filter_split:
  assumes "i < length xs"
  shows "filter P xs = filter P (take i xs) @ (if P (xs ! i) then [xs ! i] else []) @ filter P (drop (Suc i) xs)"
  by (subst id_take_nth_drop [OF assms]) simp

lemma take_slot_free:
  assumes "\<exists>i \<in> set is. sk_socketList s ! i = POSITION_FREE"
  shows "\<exists>i \<in> set is. sk_socketList s ! i = POSITION_FREE \<and> take_slot fd is s =
    s\<lparr> sk_socketList := (sk_socketList s)[i := fd], sk_nrOfConnections := sk_nrOfConnections s + 1 \<rparr>"
  using assms by (induction "is") auto

lemma take_slot_full:
  "\<forall>i \<in> set is. sk_socketList s ! i \<noteq> POSITION_FREE \<Longrightarrow> take_slot fd is s = s"
  by (induction "is") auto

lemma free_slot_iff:
  assumes "table_ok s"
  shows "(\<exists>i \<in> set [0..<sk_maxNrOfClients s]. sk_socketList s ! i = POSITION_FREE) \<longleftrightarrow>
    card (clients s) < SOCKET_LIST_SIZE"
proof -
  have len: "length (sk_socketList s) = SOCKET_LIST_SIZE" "sk_maxNrOfClients s = SOCKET_LIST_SIZE"
    using assms by (simp_all add: table_ok_def)
  have "(\<exists>i \<in> set [0..<sk_maxNrOfClients s]. sk_socketList s ! i = POSITION_FREE) \<longleftrightarrow>
      POSITION_FREE \<in> set (sk_socketList s)"
    using len by (auto simp: in_set_conv_nth Bex_def)
  also have "\<dots> \<longleftrightarrow> length (filter (\<lambda>fd. fd \<noteq> POSITION_FREE) (sk_socketList s)) < length (sk_socketList s)"
    using length_filter_less [of POSITION_FREE "sk_socketList s" "\<lambda>fd. fd \<noteq> POSITION_FREE"]
    by (metis (mono_tags, lifting) filter_id_conv less_irrefl)
  finally show ?thesis
    using card_clients(1) [OF assms] len by simp
qed

text \<open>Accepting a fresh descriptor and closing a used slot, on sets.\<close>

lemma accept_refines:
  assumes "table_ok s" "0 < fd" "fd \<notin> clients s"
  shows "table_ok (handleNewConnection (Some fd) s) \<and>
    clients (handleNewConnection (Some fd) s) =
      (if card (clients s) < SOCKET_LIST_SIZE then insert fd (clients s) else clients s)"
proof (cases "card (clients s) < SOCKET_LIST_SIZE")
  case True
  let ?xs = "sk_socketList s" and ?P = "\<lambda>fd. fd \<noteq> POSITION_FREE"
  obtain i where i: "i \<in> set [0..<sk_maxNrOfClients s]" "?xs ! i = POSITION_FREE"
      "handleNewConnection (Some fd) s =
        s\<lparr> sk_socketList := ?xs[i := fd], sk_nrOfConnections := sk_nrOfConnections s + 1 \<rparr>"
    using take_slot_free [OF free_slot_iff [OF assms(1), THEN iffD2, OF True], of fd] assms(2)
    by (auto simp: handleNewConnection_def)
  have il: "i < length ?xs"
    using i(1) assms(1) by (simp add: table_ok_def)
  have f: "filter ?P (?xs[i := fd]) = filter ?P (take i ?xs) @ [fd] @ filter ?P (drop (Suc i) ?xs)"
    "filter ?P ?xs = filter ?P (take i ?xs) @ filter ?P (drop (Suc i) ?xs)"
    using filter_update [OF il, of ?P fd] filter_split [OF il, of ?P] i(2) assms(2) by simp_all
  let ?s = "handleNewConnection (Some fd) s"
  have cl: "clients ?s = insert fd (clients s)"
    unfolding clients_filter i(3) using f by simp
  have "distinct (filter ?P (sk_socketList ?s))"
    using assms(1,3) f unfolding i(3) clients_filter table_ok_def by auto
  moreover have "finite (clients s)"
    by (simp add: clients_filter)
  ultimately show ?thesis
    using True assms(1,3) cl i(3) by (simp add: table_ok_def)
next
  case False
  then have "take_slot fd [0..<sk_maxNrOfClients s] s = s"
    using free_slot_iff [OF assms(1)] by (intro take_slot_full) blast
  then show ?thesis
    using assms False by (simp add: handleNewConnection_def)
qed

lemma close_refines:
  assumes "table_ok s" "i < SOCKET_LIST_SIZE" "sk_socketList s ! i \<noteq> POSITION_FREE"
  shows "table_ok (handleConnectionClosed i s) \<and>
    clients (handleConnectionClosed i s) = clients s - {sk_socketList s ! i}"
proof -
  let ?xs = "sk_socketList s" and ?P = "\<lambda>fd. fd \<noteq> POSITION_FREE"
  have il: "i < length ?xs"
    using assms(1,2) by (simp add: table_ok_def)
  have f: "filter ?P (?xs[i := 0]) = filter ?P (take i ?xs) @ filter ?P (drop (Suc i) ?xs)"
    "filter ?P ?xs = filter ?P (take i ?xs) @ [?xs ! i] @ filter ?P (drop (Suc i) ?xs)"
    using filter_update [OF il, of ?P 0] filter_split [OF il, of ?P] assms(3) by simp_all
  have d: "distinct (filter ?P ?xs)"
    using assms(1) by (simp add: table_ok_def)
  let ?s = "handleConnectionClosed i s"
  have cl: "clients ?s = clients s - {?xs ! i}"
    using f d unfolding clients_filter handleConnectionClosed_def by auto
  have "?xs ! i \<in> clients s"
    using il assms(3) by (simp add: clients_def)
  moreover have "finite (clients s)"
    by (simp add: clients_filter)
  ultimately have "of_nat (card (clients s)) - 1 = (of_nat (card (clients s - {?xs ! i})) :: u32)"
    by (metis One_nat_def Suc_pred card_Diff_singleton card_gt_0_iff diff_add_cancel empty_iff of_nat_1 of_nat_Suc
        add.commute add_diff_cancel_left')
  then show ?thesis
    using assms(1) cl d f unfolding table_ok_def by (simp add: handleConnectionClosed_def)
qed

text \<open>A history of the table and its abstract counterpart, a set of at most thirty clients.\<close>

datatype table_event = Accepted int | Closed int

fun table_step :: "table_event \<Rightarrow> socket_info \<Rightarrow> socket_info" where
  "table_step (Accepted fd) s = handleNewConnection (Some fd) s"
| "table_step (Closed fd) s = handleConnectionClosed (length (takeWhile (\<lambda>x. x \<noteq> fd) (sk_socketList s))) s"

fun client_step :: "table_event \<Rightarrow> int set \<Rightarrow> int set" where
  "client_step (Accepted fd) A = (if card A < SOCKET_LIST_SIZE then insert fd A else A)"
| "client_step (Closed fd) A = A - {fd}"

fun proper_events :: "int set \<Rightarrow> table_event list \<Rightarrow> bool" where
  "proper_events A [] = True"
| "proper_events A (e # es) =
     ((case e of Accepted fd \<Rightarrow> 0 < fd \<and> fd \<notin> A | Closed fd \<Rightarrow> fd \<in> A) \<and> proper_events (client_step e A) es)"

lemma table_step_refines:
  assumes "table_ok s" "case e of Accepted fd \<Rightarrow> 0 < fd \<and> fd \<notin> clients s | Closed fd \<Rightarrow> fd \<in> clients s"
  shows "table_ok (table_step e s) \<and> clients (table_step e s) = client_step e (clients s)"
proof (cases e)
  case (Accepted fd)
  then show ?thesis
    using accept_refines [OF assms(1), of fd] assms(2) by simp
next
  case (Closed fd)
  then have fd: "fd \<in> set (sk_socketList s)" "fd \<noteq> POSITION_FREE"
    using assms(2) by (simp_all add: clients_def)
  let ?i = "length (takeWhile (\<lambda>x. x \<noteq> fd) (sk_socketList s))"
  obtain ys zs where "sk_socketList s = ys @ fd # zs" "fd \<notin> set ys"
    using split_list_first [OF fd(1)] by blast
  moreover from this have "takeWhile (\<lambda>x. x \<noteq> fd) (sk_socketList s) = ys"
    by (auto simp: takeWhile_append)
  ultimately have "?i < length (sk_socketList s)" "sk_socketList s ! ?i = fd"
    by simp_all
  then show ?thesis
    using close_refines [OF assms(1), of ?i] fd(2) assms(1) Closed by (simp add: table_ok_def)
qed

lemma initialize_clients:
  assumes "length slots = SOCKET_LIST_SIZE"
  shows "table_ok (snd (initialize_sockets a b c d (new_CSocketInfo slots)))"
    "clients (snd (initialize_sockets a b c d (new_CSocketInfo slots))) = {}"
  using assms
  by (simp_all add: initialize_sockets_def new_CSocketInfo_def table_ok_def clients_def)

lemma nr_of_connections:
  assumes "table_ok s"
  shows "unat (sk_nrOfConnections s) = card (clients s)" "sint (sk_nrOfConnections s) = int (card (clients s))"
proof -
  have c: "sk_nrOfConnections s = of_nat (card (clients s))" "card (clients s) \<le> 30"
    using assms card_clients(2) [OF assms] by (simp_all add: table_ok_def)
  then show "unat (sk_nrOfConnections s) = card (clients s)"
    by (simp add: unat_of_nat)
  show "sint (sk_nrOfConnections s) = int (card (clients s))"
    using c by (simp add: signed_of_nat signed_take_bit_int_eq_self)
qed

section \<open>Properties\<close>

text \<open>C19: After any history of connections and disconnections the table of slots is a set of at most thirty
  clients: its used slots hold exactly the accepted and not yet closed descriptors, each once, and the
  counter is their number. A thirty-first descriptor is taken from the operating system and forgotten.\<close>

theorem slot_table_refines:
  assumes "length slots = SOCKET_LIST_SIZE" "proper_events {} es"
    "s = fold table_step es (snd (initialize_sockets a b c d (new_CSocketInfo slots)))"
  shows "clients s = fold client_step es {} \<and> unat (sk_nrOfConnections s) = card (clients s) \<and>
    distinct (filter (\<lambda>fd. fd \<noteq> POSITION_FREE) (sk_socketList s)) \<and> card (clients s) \<le> SOCKET_LIST_SIZE"
proof -
  have "table_ok (fold table_step es s0) \<and> clients (fold table_step es s0) = fold client_step es (clients s0)"
    if "table_ok s0" "proper_events (clients s0) es" for s0
    using that
  proof (induction es arbitrary: s0)
    case (Cons e es)
    then show ?case
      using table_step_refines [of s0 e] by simp
  qed simp
  from this [OF initialize_clients(1) [OF assms(1)], of a b c d]
  have "table_ok s \<and> clients s = fold client_step es {}"
    using assms(2) unfolding assms(3) initialize_clients(2) [OF assms(1)] by simp
  then show ?thesis
    using nr_of_connections(1) [of s] card_clients(2) [of s] by (simp add: table_ok_def)
qed

lemma slot_table_refines_witness:
  "clients (fold table_step [Accepted 5, Accepted 6, Closed 5, Accepted 7]
     (snd (initialize_sockets 3 0 0 0 (new_CSocketInfo (replicate 30 9))))) = {6, 7}"
proof -
  let ?es = "[Accepted 5, Accepted 6, Closed 5, Accepted 7]"
  have "proper_events {} ?es" "length (replicate 30 (9 :: int)) = 30"
    by simp_all
  then have "clients (fold table_step ?es (snd (initialize_sockets 3 0 0 0 (new_CSocketInfo (replicate 30 9))))) =
      fold client_step ?es {}"
    using slot_table_refines [OF _ _ refl] by blast
  also have "\<dots> = {6, 7}"
    by auto
  finally show ?thesis .
qed

text \<open>A query goes to as many slots as there are clients, counted from the first one: exactly all clients
  get it while none of these slots is free. Otherwise a free slot is taken for descriptor 0, the standard
  input, and a client behind it is left out.\<close>

theorem query_receivers:
  assumes "table_ok (tc_sock c)" "n = card (clients (tc_sock c))"
  shows "let asked = take n (sk_socketList (tc_sock c)) in
    tc_queries (sendQuery query c) = tc_queries c @ List.map (\<lambda>fd. (fd, query)) asked \<and>
    (POSITION_FREE \<notin> set asked \<longrightarrow> set asked = clients (tc_sock c)) \<and>
    (POSITION_FREE \<in> set asked \<longrightarrow> (\<exists>fd \<in> clients (tc_sock c). fd \<notin> set asked))"
proof -
  let ?xs = "sk_socketList (tc_sock c)"
  have n: "n \<le> length ?xs"
    using card_clients(2) [OF assms(1)] assms by (simp add: table_ok_def)
  have "List.map (\<lambda>idx. (?xs ! nat idx, query)) [0..int n - 1] = List.map (\<lambda>fd. (fd, query)) (take n ?xs)"
    using n by (intro nth_equalityI) simp_all
  then have q: "tc_queries (sendQuery query c) = tc_queries c @ List.map (\<lambda>fd. (fd, query)) (take n ?xs)"
    using nr_of_connections(2) [OF assms(1)] assms(2) by (simp add: sendQuery_def retrieveCurrentSocketList_def)
  let ?P = "\<lambda>fd. fd \<noteq> POSITION_FREE"
  have d: "distinct (filter ?P (take n ?xs) @ filter ?P (drop n ?xs))"
    using assms(1) by (simp add: table_ok_def flip: filter_append)
  have cl: "clients (tc_sock c) = set (filter ?P (take n ?xs)) \<union> set (filter ?P (drop n ?xs))"
    by (simp only: clients_filter flip: set_append filter_append) simp
  then have len: "n = length (filter ?P (take n ?xs)) + length (filter ?P (drop n ?xs))"
    using card_clients(1) [OF assms(1)] assms(2) by (simp flip: length_append filter_append)
  have "set (take n ?xs) = clients (tc_sock c)" if "POSITION_FREE \<notin> set (take n ?xs)"
  proof -
    have "filter ?P (take n ?xs) = take n ?xs"
      using that by (auto simp: filter_id_conv)
    then show ?thesis
      using len n cl by simp
  qed
  moreover have "\<exists>fd \<in> clients (tc_sock c). fd \<notin> set (take n ?xs)" if "POSITION_FREE \<in> set (take n ?xs)"
  proof -
    have "length (filter ?P (take n ?xs)) < length (take n ?xs)"
      using length_filter_less [OF that, of ?P] by simp
    then have "filter ?P (drop n ?xs) \<noteq> []"
      using len n by auto
    then obtain fd where "fd \<in> set (filter ?P (drop n ?xs))"
      by (cases "filter ?P (drop n ?xs)") auto
    then show ?thesis
      using d cl by auto
  qed
  ultimately show ?thesis
    using q by (simp add: Let_def)
qed

lemma query_receivers_witness:
  "tc_queries (sendQuery ''all'' ((new_CThreadStatsCollector ''all'' 1 [] [] [])\<lparr> tc_sock :=
      (new_CSocketInfo (0 # 6 # replicate 28 0))\<lparr> sk_nrOfConnections := 1 \<rparr> \<rparr>)) = [(0, ''all'')]"
proof -
  let ?s = "(new_CSocketInfo (0 # 6 # replicate 28 0))\<lparr> sk_nrOfConnections := 1 \<rparr>"
  have "clients ?s = {6}"
    by (auto simp: clients_def new_CSocketInfo_def)
  moreover from this have "table_ok ?s"
    by (simp add: table_ok_def) (simp add: new_CSocketInfo_def)
  ultimately show ?thesis
    using query_receivers [of "(new_CThreadStatsCollector ''all'' 1 [] [] [])\<lparr> tc_sock := ?s \<rparr>" 1 "''all''"]
    by (simp add: Let_def) (simp add: new_CThreadStatsCollector_def new_CSocketInfo_def)
qed

lemma buf_write_front:
  "length xs \<le> length buf \<Longrightarrow> buf_write 0 xs buf = Some (xs @ drop (length xs) buf)"
  by (simp add: buf_write_def)

lemma read_socket_text:
  assumes "tc_reads c = Some xs # rs" "int (length xs) \<le> n" "length xs \<le> length (tc_buffer c)"
  shows "read_socket n c = (Inr (int (length xs)),
    c\<lparr> tc_reads := rs, tc_buffer := xs @ drop (length xs) (tc_buffer c) \<rparr>)"
proof -
  have "take (nat n) xs = xs" "\<not> n < 0"
    using assms(2) by simp_all
  then show ?thesis
    using assms(1,3) by (simp add: read_socket_def buf_write_front)
qed

text \<open>What becomes of an answer of an application, read in three steps. When each read delivers its part
  whole - the mark, the length in two hexadecimal digits and one more character, and a text of that
  length - the text is forwarded as it is. When the first read fails, a NUL is written before the start
  of the buffer; when the last one fails, building the text from a negative length raises.\<close>

theorem answer_forwarded:
  assumes "length (tc_buffer c) = BUF_SIZE + 1" "length text < 256"
  shows "(tc_reads c = Some ''$'' # Some (print_hex2 (length text) @ [x]) # Some text # rs \<longrightarrow>
       (\<exists>c'. bindE (read_socket (int START_FLAG_LENGTH)) processMessage c = (Inr (), c') \<and>
          tc_traces c' = tc_traces c @ [text] \<and> tc_reads c' = rs \<and> length (tc_buffer c') = BUF_SIZE + 1)) \<and>
    (tc_reads c = None # rs \<longrightarrow>
       fst (bindE (read_socket (int START_FLAG_LENGTH)) processMessage c) = Inl WriteOutsideBuffer) \<and>
    (tc_reads c = Some ''$'' # Some (print_hex2 (length text) @ [x]) # None # rs \<longrightarrow>
       fst (bindE (read_socket (int START_FLAG_LENGTH)) processMessage c) = Inl StdLengthError)"
proof -
  let ?n = "length text" and ?h = "print_hex2 (length text) @ [x]"
  define b1 where "b1 = (''$'' @ drop 1 (tc_buffer c))[1 := CHR 0x00]"
  define b2 where "b2 = (?h @ drop 3 b1)[2 := CHR 0x00]"
  have l1: "length b1 = 257"
    using assms(1) by (simp add: b1_def)
  have lh: "length ?h = 3"
    by (simp add: print_hex2_def)
  have l2: "length b2 = 257"
    using l1 lh by (simp add: b2_def)
  have dollar: "b1 ! 0 = CHR ''$''"
    by (simp add: b1_def)
  have hexchars: "\<forall>c \<in> set (print_hex2 ?n). of_char c \<noteq> (0 :: nat)"
    using assms(2) by (auto simp: print_hex2_def of_digit_char)
  have "b2 = print_hex2 ?n @ CHR 0x00 # drop 3 b1"
    by (simp add: b2_def print_hex2_def)
  then have "c_string b2 = print_hex2 ?n"
    using hexchars by (simp add: c_string_append) (simp add: c_string_def)
  then have hex: "scan_hex b2 = int ?n"
    using scan_unsigned_hex2 [of ?n "[]"] assms(2) by (simp add: scan_hex_def)
  let ?c1 = "\<lambda>rs. c\<lparr> tc_reads := rs, tc_buffer := b1 \<rparr>" and ?c2 = "\<lambda>rs. c\<lparr> tc_reads := rs, tc_buffer := b2 \<rparr>"
  let ?go = "bindE (read_socket (int START_FLAG_LENGTH)) processMessage c"
  have start: "?go = (case bindE (read_socket (int ?n))
        (\<lambda>n. thenE (if n > 0 then set_buffer n CHR 0x00 else returnE ()) (forward_trace n)) (?c2 rs1) of r \<Rightarrow> r)"
    if "tc_reads c = Some ''$'' # Some ?h # rs1" for rs1
  proof -
    have r1: "read_socket 1 c = (Inr 1, c\<lparr> tc_reads := Some ?h # rs1, tc_buffer := ''$'' @ drop 1 (tc_buffer c) \<rparr>)"
      using read_socket_text [OF that, of 1] assms(1) by simp
    have r2: "read_socket 3 (?c1 (Some ?h # rs1)) = (Inr 3, c\<lparr> tc_reads := rs1, tc_buffer := ?h @ drop 3 b1 \<rparr>)"
      using read_socket_text [of "?c1 (Some ?h # rs1)" ?h rs1 3] l1 lh by simp
    have s1: "set_buffer 1 CHR 0x00 (c\<lparr> tc_reads := Some ?h # rs1, tc_buffer := ''$'' @ drop 1 (tc_buffer c) \<rparr>) =
        (Inr (), ?c1 (Some ?h # rs1))"
      using assms(1) by (simp add: set_buffer_def b1_def)
    have s2: "set_buffer 2 CHR 0x00 (c\<lparr> tc_reads := rs1, tc_buffer := ?h @ drop 3 b1 \<rparr>) = (Inr (), ?c2 rs1)"
      using l1 lh by (simp add: set_buffer_def b2_def)
    show ?thesis
      using r1 r2 s1 s2 dollar by (simp add: processMessage_def bindE_def thenE_def hex)
  qed
  have full: "\<exists>c'. ?go = (Inr (), c') \<and> tc_traces c' = tc_traces c @ [text] \<and> tc_reads c' = rs \<and>
      length (tc_buffer c') = 257"
    if "tc_reads c = Some ''$'' # Some ?h # Some text # rs"
  proof -
    let ?b3 = "text @ drop ?n b2"
    let ?b4 = "if ?n > 0 then ?b3[?n := CHR 0x00] else ?b3"
    have r3: "read_socket (int ?n) (?c2 (Some text # rs)) = (Inr (int ?n), c\<lparr> tc_reads := rs, tc_buffer := ?b3 \<rparr>)"
      using read_socket_text [of "?c2 (Some text # rs)" "text" rs "int ?n"] l2 assms(2) by simp
    have s3: "(if int ?n > 0 then set_buffer (int ?n) CHR 0x00 else returnE ())
        (c\<lparr> tc_reads := rs, tc_buffer := ?b3 \<rparr>) = (Inr (), c\<lparr> tc_reads := rs, tc_buffer := ?b4 \<rparr>)"
      using l2 assms(2) by (simp add: set_buffer_def)
    have "take ?n ?b4 = text" "length ?b4 = 257"
      using l2 assms(2) by (simp_all add: take_update_cancel del: take_update_swap)
    then show ?thesis
      using start [OF that] r3 s3 by (simp add: bindE_def thenE_def forward_trace_def)
  qed
  have last: "fst ?go = Inl StdLengthError" if "tc_reads c = Some ''$'' # Some ?h # None # rs"
    using start [OF that] by (simp add: bindE_def thenE_def read_socket_def forward_trace_def)
  have first: "fst ?go = Inl WriteOutsideBuffer" if "tc_reads c = None # rs"
    using that by (simp add: bindE_def thenE_def read_socket_def processMessage_def set_buffer_def)
  show ?thesis
    using full first last by simp
qed

lemma answer_forwarded_witness:
  "\<exists>c'. bindE (read_socket 1) processMessage
      (new_CThreadStatsCollector [] 1 [] (replicate 257 CHR 0x00) [Some ''$'', Some (print_hex2 2 @ ''-''), Some ''ok'']) =
        (Inr (), c') \<and> tc_traces c' = [''ok'']"
  using answer_forwarded [of "new_CThreadStatsCollector [] 1 [] (replicate 257 CHR 0x00)
      [Some ''$'', Some (print_hex2 2 @ ''-''), Some ''ok'']" "''ok''" "CHR ''-''" "[]"]
  by (auto simp: new_CThreadStatsCollector_def numeral_2_eq_2)

end
