(* ===== verification/JsonApi.thy ===== *)
theory JsonApi
  imports Scanf
begin

text \<open>
  The JSON API plugin (\<^verbatim>\<open>jsonapi-plugin/src/jsonapiPlugin.cpp\<close>): applications write texts, one per line,
  into a named pipe; the plugin collects them in a buffer of 4096 characters and forwards each. What one
  \<^verbatim>\<open>read\<close> delivers is an input, and so is the content of the uninitialised buffer. The message type the
  plugin sends under is missing in the protocol definitions, so a message here is its text.
\<close>

section \<open>The reader of the pipe\<close>

abbreviation MSG_SIZE :: nat where "MSG_SIZE \<equiv> 4096"
abbreviation NUL :: char where "NUL \<equiv> CHR 0x00"

record json_reader =
  jp_msg :: string
  jp_msgPos :: nat
  jp_sent :: "string list"

datatype json_error =
    WriteOutsideMsg
  | ReadPastMsg

definition new_reader :: "string \<Rightarrow> json_reader" where
  "new_reader msg = \<lparr> jp_msg = msg, jp_msgPos = 0, jp_sent = [] \<rparr>"

definition copy_to_msg :: "nat \<Rightarrow> string \<Rightarrow> (json_error, json_reader, unit) op" where
  "copy_to_msg off src s =
     (case buf_write off src (jp_msg s) of
        None \<Rightarrow> (Inl WriteOutsideMsg, s)
      | Some m \<Rightarrow> (Inr (), s\<lparr> jp_msg := m \<rparr>))"

text \<open>\<^verbatim>\<open>taMsg.set_content(msg)\<close> and \<^verbatim>\<open>dispatch\<close>: the text is read as a C string.\<close>

definition json_dispatch :: "(json_error, json_reader, unit) op" where
  "json_dispatch s =
     (if NUL \<in> set (jp_msg s)
      then (Inr (), s\<lparr> jp_sent := jp_sent s @ [c_string (jp_msg s)] \<rparr>)
      else (Inl ReadPastMsg, s))"

definition reset_msgPos :: "(json_error, json_reader, unit) op" where
  "reset_msgPos = modifyE (\<lambda>s. s\<lparr> jp_msgPos := 0 \<rparr>)"

text \<open>The body for a line end at index \<open>i\<close>.\<close>

definition end_of_line :: "string \<Rightarrow> nat \<Rightarrow> nat \<Rightarrow> (json_error, json_reader, unit) op" where
  "end_of_line buf bufPos i s =
     seqE [copy_to_msg (jp_msgPos s) (take (i - bufPos) (drop bufPos buf)),
           copy_to_msg (jp_msgPos s + i) [NUL],
           json_dispatch,
           reset_msgPos] s"

text \<open>The loop over the characters read; the result is \<^verbatim>\<open>bufPos\<close>.\<close>

fun split_lines :: "string \<Rightarrow> nat \<Rightarrow> nat \<Rightarrow> string \<Rightarrow> (json_error, json_reader, nat) op" where
  "split_lines buf bufPos i [] = returnE bufPos"
| "split_lines buf bufPos i (c # cs) =
     (if c = newline
      then thenE (end_of_line buf bufPos i) (split_lines buf (Suc i) (Suc i) cs)
      else split_lines buf bufPos (Suc i) cs)"

definition keep_rest :: "string \<Rightarrow> nat \<Rightarrow> (json_error, json_reader, unit) op" where
  "keep_rest buf bufPos s =
     (let msgPos = jp_msgPos s; remainingChars = length buf - bufPos
      in if msgPos + remainingChars > MSG_SIZE
         then seqE [copy_to_msg msgPos (take (MSG_SIZE - msgPos) (drop bufPos buf)),
                    json_dispatch,
                    reset_msgPos] s
         else thenE (copy_to_msg msgPos (take remainingChars (drop bufPos buf)))
                (modifyE (\<lambda>s. s\<lparr> jp_msgPos := msgPos + remainingChars \<rparr>)) s)"

text \<open>One iteration; \<open>None\<close> and the empty text are the reads that deliver nothing.\<close>

definition json_poll :: "string option \<Rightarrow> (json_error, json_reader, unit) op" where
  "json_poll r =
     (case r of
        None \<Rightarrow> returnE ()
      | Some buf \<Rightarrow>
          (if buf = [] then returnE () else bindE (split_lines buf 0 0 buf) (keep_rest buf)))"

definition json_run :: "bool \<Rightarrow> string option list \<Rightarrow> (json_error, json_reader, unit) op" where
  "json_run opened reads = (if opened then seqE (map json_poll reads) else returnE ())"

section \<open>Lemmas\<close>

text \<open>The reader has kept \<open>rest\<close> of an unfinished line and forwarded \<open>sent\<close>.\<close>

definition reader_holds :: "string \<Rightarrow> string list \<Rightarrow> json_reader \<Rightarrow> bool" where
  "reader_holds rest sent s \<longleftrightarrow>
     length (jp_msg s) = MSG_SIZE \<and> jp_msgPos s = length rest \<and>
     take (length rest) (jp_msg s) = rest \<and> jp_sent s = sent"

abbreviation plain :: "string \<Rightarrow> bool" where
  "plain t \<equiv> newline \<notin> set t \<and> NUL \<notin> set t"

lemma c_string_NUL: "NUL \<notin> set t \<Longrightarrow> c_string (t @ NUL # u) = t"
  unfolding c_string_def by (induction t) (auto simp: of_char_eq_iff [of _ NUL, simplified])

lemma split_lines_skip:
  "newline \<notin> set a \<Longrightarrow> split_lines buf bufPos i (a @ cs) = split_lines buf bufPos (i + length a) cs"
  by (induction a arbitrary: i) auto

lemma split_lines_none:
  "newline \<notin> set buf \<Longrightarrow> split_lines buf bufPos i buf = returnE bufPos"
  using split_lines_skip [of buf buf bufPos i "[]"] by simp

lemma buf_write_at:
  assumes "take n m = r" "length r = n" "n + length x \<le> length m"
  shows "buf_write n x m = Some (r @ x @ drop (n + length x) m)"
  using assms by (simp add: buf_write_def)

lemma end_of_line_forwards:
  assumes "reader_holds rest sent s" "length rest + length a < MSG_SIZE" "NUL \<notin> set (rest @ a)"
    and "buf = a @ newline # b"
  shows "\<exists>s'. end_of_line buf 0 (length a) s = (Inr (), s') \<and> reader_holds [] (sent @ [rest @ a]) s'"
proof -
  define n where "n = length rest + length a"
  define m1 where "m1 = rest @ a @ drop n (jp_msg s)"
  define m2 where "m2 = (rest @ a) @ [NUL] @ drop (Suc n) (jp_msg s)"
  have L: "length (jp_msg s) = MSG_SIZE" "take (length rest) (jp_msg s) = rest"
    and P: "jp_msgPos s = length rest" and S: "jp_sent s = sent"
    using assms(1) by (simp_all add: reader_holds_def)
  have w1: "buf_write (length rest) a (jp_msg s) = Some m1"
    using L assms(2) by (simp add: buf_write_at m1_def n_def)
  have "length m1 = MSG_SIZE" "drop n m1 = drop n (jp_msg s)" "take n m1 = rest @ a"
    using L assms(2) by (simp_all add: m1_def n_def)
  then have w2: "buf_write n [NUL] m1 = Some m2"
    using buf_write_at [of n m1 "rest @ a" "[NUL]"] assms(2) by (simp add: m1_def m2_def n_def)
  have c: "c_string m2 = rest @ a" "NUL \<in> set m2" "length m2 = MSG_SIZE"
    using c_string_NUL [OF assms(3)] L assms(2) by (simp_all add: m2_def n_def)
  show ?thesis
    using w1 w2 c assms(4) P S
    by (simp add: end_of_line_def thenE_def bindE_def copy_to_msg_def json_dispatch_def reset_msgPos_def
        reader_holds_def n_def)
qed

lemma keep_rest_keeps:
  assumes "reader_holds rest sent s" "length rest + (length buf - k) \<le> MSG_SIZE"
  shows "\<exists>s'. keep_rest buf k s = (Inr (), s') \<and> reader_holds (rest @ drop k buf) sent s'"
proof -
  have L: "length (jp_msg s) = MSG_SIZE" "take (length rest) (jp_msg s) = rest"
    and P: "jp_msgPos s = length rest" and S: "jp_sent s = sent"
    using assms(1) by (simp_all add: reader_holds_def)
  have w: "buf_write (length rest) (drop k buf) (jp_msg s) =
      Some (rest @ drop k buf @ drop (length rest + length (drop k buf)) (jp_msg s))"
    using L assms(2) by (intro buf_write_at) simp_all
  show ?thesis
    using w assms(2) P S L
    by (simp add: keep_rest_def Let_def thenE_def bindE_def copy_to_msg_def reader_holds_def)
qed

lemma poll_without_newline:
  assumes "reader_holds rest sent s" "newline \<notin> set buf" "buf \<noteq> []"
    and "length rest + length buf \<le> MSG_SIZE"
  shows "\<exists>s'. json_poll (Some buf) s = (Inr (), s') \<and> reader_holds (rest @ buf) sent s'"
  using keep_rest_keeps [OF assms(1), of buf 0] assms(2-4)
  by (simp add: json_poll_def split_lines_none bindE_def)

lemma poll_with_newline:
  assumes "reader_holds rest sent s" "plain (rest @ a)" "newline \<notin> set b"
    and "length rest + length a < MSG_SIZE" "length b \<le> MSG_SIZE"
  shows "\<exists>s'. json_poll (Some (a @ newline # b)) s = (Inr (), s') \<and>
    reader_holds b (sent @ [rest @ a]) s'"
proof -
  let ?buf = "a @ newline # b"
  obtain s1 where e: "end_of_line ?buf 0 (length a) s = (Inr (), s1)"
    and h: "reader_holds [] (sent @ [rest @ a]) s1"
    using end_of_line_forwards [OF assms(1,4) _ refl] assms(2) by auto
  have "split_lines ?buf 0 0 ?buf s = (Inr (Suc (length a)), s1)"
    using e assms(2,3) split_lines_skip [of a ?buf 0 0 "newline # b"]
      split_lines_skip [of b ?buf "Suc (length a)" "Suc (length a)" "[]"]
    by simp
  moreover obtain s2 where "keep_rest ?buf (Suc (length a)) s1 = (Inr (), s2)"
    and "reader_holds b (sent @ [rest @ a]) s2"
    using keep_rest_keeps [OF h, of ?buf "Suc (length a)"] assms(5) by auto
  ultimately show ?thesis
    by (simp add: json_poll_def)
qed

abbreviation delivered :: "string option \<Rightarrow> string" where
  "delivered r \<equiv> (case r of None \<Rightarrow> [] | Some buf \<Rightarrow> buf)"

abbreviation line_ends :: "string \<Rightarrow> nat" where
  "line_ends buf \<equiv> length (filter (\<lambda>c. c = newline) buf)"

lemma before_newline:
  "newline \<notin> set u \<Longrightarrow> newline \<notin> set t \<Longrightarrow> u @ newline # x = t @ newline # y \<Longrightarrow> u = t \<and> x = y"
  by (induction u arbitrary: t) (auto simp: Cons_eq_append_conv)

lemma within_line:
  "newline \<notin> set u \<Longrightarrow> u @ x = t @ newline # y \<Longrightarrow> \<exists>v. t = u @ v"
  by (induction u arbitrary: t) (auto simp: Cons_eq_append_conv)

lemma within_first_line:
  assumes "newline \<notin> set u" "u @ x = as_lines texts" "\<forall>t \<in> set texts. plain t \<and> length t < MSG_SIZE"
  shows "plain u \<and> length u < MSG_SIZE"
proof (cases texts)
  case (Cons t ts)
  then obtain v where "t = u @ v"
    using within_line [OF assms(1), of x t "as_lines ts"] assms(2) by auto
  then show ?thesis
    using assms(3) Cons by auto
qed (use assms(2) in simp)

lemma one_line_end:
  assumes "newline \<in> set buf" "line_ends buf \<le> 1"
  obtains a b where "buf = a @ newline # b" "newline \<notin> set a" "newline \<notin> set b"
proof -
  obtain a b where ab: "buf = a @ newline # b" "newline \<notin> set a"
    using split_list_first [OF assms(1)] by blast
  then have "line_ends b = 0"
    using assms(2) by simp
  then show ?thesis
    using that [OF ab] by (metis (mono_tags) filter_empty_conv length_0_conv)
qed

lemma polls_forward_lines:
  assumes "reader_holds rest sent s" "newline \<notin> set rest"
    and "\<forall>t \<in> set texts. plain t \<and> length t < MSG_SIZE"
    and "\<forall>r \<in> set reads. line_ends (delivered r) \<le> 1"
    and "rest @ concat (map delivered reads) = as_lines texts"
  shows "\<exists>s'. seqE (map json_poll reads) s = (Inr (), s') \<and> jp_sent s' = sent @ texts"
  using assms
proof (induction reads arbitrary: rest sent s texts)
  case Nil
  then have "texts = []"
    by (cases texts) auto
  then show ?case
    using Nil.prems by (simp add: reader_holds_def)
next
  case (Cons r reads)
  define buf where "buf = delivered r"
  let ?X = "concat (map delivered reads)"
  have eq: "rest @ buf @ ?X = as_lines texts"
    using Cons.prems(5) by (simp add: buf_def)
  have more: "\<forall>r \<in> set reads. line_ends (delivered r) \<le> 1" "line_ends buf \<le> 1"
    using Cons.prems(4) by (simp_all add: buf_def)
  have r: "json_poll r = (if buf = [] then returnE () else json_poll (Some buf))"
    by (simp add: buf_def json_poll_def split: option.split)
  consider "buf = []" | "buf \<noteq> []" "newline \<notin> set buf" | "newline \<in> set buf"
    by blast
  then show ?case
  proof cases
    case 1
    then show ?thesis
      using Cons.IH [OF Cons.prems(1-3) more(1)] eq r by simp
  next
    case 2
    have nl: "newline \<notin> set (rest @ buf)"
      using 2 Cons.prems(2) by simp
    have len: "length (rest @ buf) < MSG_SIZE"
      using within_first_line [OF nl _ Cons.prems(3)] eq by simp
    obtain s1 where "json_poll (Some buf) s = (Inr (), s1)" "reader_holds (rest @ buf) sent s1"
      using poll_without_newline [OF Cons.prems(1) 2(2,1)] len by auto
    then show ?thesis
      using Cons.IH [OF _ nl Cons.prems(3) more(1)] eq r 2 by simp
  next
    case 3
    obtain a b where ab: "buf = a @ newline # b" "newline \<notin> set a" "newline \<notin> set b"
      using one_line_end [OF 3 more(2)] .
    have nl: "newline \<notin> set (rest @ a)"
      using ab Cons.prems(2) by simp
    have whole: "(rest @ a) @ newline # b @ ?X = as_lines texts"
      using eq ab by simp
    then obtain t ts where t: "texts = t # ts"
      by (cases texts) auto
    have "rest @ a = t \<and> b @ ?X = as_lines ts"
      using before_newline [OF nl, of t] whole Cons.prems(3) by (simp add: t)
    then have "t = rest @ a" and tail: "b @ ?X = as_lines ts"
      by simp_all
    have "plain (rest @ a)" "length rest + length a < MSG_SIZE" "length b \<le> MSG_SIZE"
      using Cons.prems(3) within_first_line [OF ab(3) tail] by (auto simp: t \<open>t = rest @ a\<close>)
    then obtain s1 where p: "json_poll (Some buf) s = (Inr (), s1)"
      and h: "reader_holds b (sent @ [rest @ a]) s1"
      using poll_with_newline [OF Cons.prems(1) _ ab(3)] ab(1) by blast
    obtain s' where "seqE (map json_poll reads) s1 = (Inr (), s')" "jp_sent s' = (sent @ [rest @ a]) @ ts"
      using Cons.IH [OF h ab(3) _ more(1) tail] Cons.prems(3) t by auto
    with p show ?thesis
      using r 3 t \<open>t = rest @ a\<close> by auto
  qed
qed

lemma new_reader_holds: "length m = MSG_SIZE \<Longrightarrow> reader_holds [] [] (new_reader m)"
  by (simp add: reader_holds_def new_reader_def)

section \<open>Properties\<close>

text \<open>C29: texts of up to 4095 characters that are written as lines into the pipe are forwarded once
  each, whole and in order, whatever pieces the reads deliver, as long as no read delivers the ends of
  two lines.\<close>

theorem json_texts_forwarded:
  assumes "length m = 4096" "\<forall>t \<in> set texts. plain t \<and> length t < 4096"
    and "concat (map delivered reads) = as_lines texts"
    and "\<forall>r \<in> set reads. line_ends (delivered r) \<le> 1"
  shows "\<exists>s. json_run True reads (new_reader m) = (Inr (), s) \<and> jp_sent s = texts"
  using polls_forward_lines [OF new_reader_holds [OF assms(1)] _ assms(2,4)] assms(3)
  by (simp add: json_run_def)

theorem json_texts_forwarded_witness:
  "\<exists>s. json_run True [Some (''ab'' @ [newline] @ ''c''), None, Some (''d'' @ [newline])]
      (new_reader (replicate 4096 NUL)) = (Inr (), s) \<and> jp_sent s = [''ab'', ''cd'']"
  by (rule json_texts_forwarded) auto

lemma split_lines_raises:
  assumes "reader_holds rest sent s" "newline \<notin> set a" "MSG_SIZE \<le> length rest + length a"
  shows "\<exists>e s'. split_lines (a @ newline # b) 0 0 (a @ newline # b) s = (Inl e, s')"
proof -
  let ?buf = "a @ newline # b"
  have L: "length (jp_msg s) = MSG_SIZE" and P: "jp_msgPos s = length rest"
    using assms(1) by (simp_all add: reader_holds_def)
  have "\<exists>e s'. end_of_line ?buf 0 (length a) s = (Inl e, s')"
  proof (cases "length rest + length a = MSG_SIZE")
    case True
    define m1 where "m1 = take (length rest) (jp_msg s) @ a @ drop (length rest + length a) (jp_msg s)"
    have "buf_write (length rest) a (jp_msg s) = Some m1" "buf_write MSG_SIZE [NUL] m1 = None"
      using L True by (auto simp: buf_write_def m1_def)
    then show ?thesis
      using P True by (simp add: end_of_line_def thenE_def bindE_def copy_to_msg_def)
  qed (use L P assms(3) in \<open>simp add: end_of_line_def thenE_def bindE_def copy_to_msg_def buf_write_def\<close>)
  then show ?thesis
    using split_lines_skip [OF assms(2), of ?buf 0 0 "newline # b"] by (auto simp: thenE_def bindE_def)
qed

lemma keep_rest_raises:
  assumes "reader_holds rest sent s" "NUL \<notin> set (rest @ buf)" "MSG_SIZE < length rest + length buf"
    and "length rest \<le> MSG_SIZE"
  shows "\<exists>s'. keep_rest buf 0 s = (Inl ReadPastMsg, s')"
proof -
  define x where "x = take (MSG_SIZE - length rest) buf"
  have L: "length (jp_msg s) = MSG_SIZE" "take (length rest) (jp_msg s) = rest"
    and P: "jp_msgPos s = length rest"
    using assms(1) by (simp_all add: reader_holds_def)
  have x: "length rest + length x = MSG_SIZE" "NUL \<notin> set x"
    using assms(2-4) by (auto simp: x_def dest: in_set_takeD)
  then have "buf_write (length rest) x (jp_msg s) = Some (rest @ x)"
    using L buf_write_at [of "length rest" "jp_msg s" rest x] by simp
  then show ?thesis
    using P assms(2,3) x by (simp add: keep_rest_def thenE_def bindE_def copy_to_msg_def json_dispatch_def
        x_def [symmetric])
qed

lemma polls_raise:
  assumes "reader_holds rest sent s" "plain rest" "length rest \<le> MSG_SIZE"
    and "plain t" "MSG_SIZE \<le> length t" "\<forall>r \<in> set reads. NUL \<notin> set (delivered r)"
    and "rest @ concat (map delivered reads) = t @ newline # z"
  shows "\<exists>e s'. seqE (map json_poll reads) s = (Inl e, s')"
  using assms
proof (induction reads arbitrary: rest s)
  case Nil
  then show ?case
    by auto
next
  case (Cons r reads)
  define buf where "buf = delivered r"
  have eq: "rest @ buf @ concat (map delivered reads) = t @ newline # z"
    using Cons.prems(7) by (simp add: buf_def)
  have nul: "\<forall>r \<in> set reads. NUL \<notin> set (delivered r)" "NUL \<notin> set buf"
    using Cons.prems(6) by (simp_all add: buf_def)
  have r: "json_poll r = (if buf = [] then returnE () else json_poll (Some buf))"
    by (simp add: buf_def json_poll_def split: option.split)
  consider "buf = []" | "newline \<in> set buf" | "buf \<noteq> []" "newline \<notin> set buf" "length rest + length buf \<le> MSG_SIZE"
    | "buf \<noteq> []" "newline \<notin> set buf" "MSG_SIZE < length rest + length buf"
    by linarith
  then show ?case
  proof cases
    case 1
    then show ?thesis
      using Cons.IH [OF Cons.prems(1-3) Cons.prems(4,5) nul(1)] eq r by simp
  next
    case 2
    obtain a b where ab: "buf = a @ newline # b" "newline \<notin> set a"
      using split_list_first [OF 2] by blast
    have "rest @ a = t"
      using before_newline [of "rest @ a" t] eq ab Cons.prems(2,4) by simp
    then have "MSG_SIZE \<le> length rest + length a"
      using Cons.prems(5) by auto
    then obtain e s' where "split_lines buf 0 0 buf s = (Inl e, s')"
      using split_lines_raises [OF Cons.prems(1) ab(2)] ab(1) by blast
    then show ?thesis
      using r 2 by (auto simp: json_poll_def)
  next
    case 3
    obtain s1 where "json_poll (Some buf) s = (Inr (), s1)" "reader_holds (rest @ buf) sent s1"
      using poll_without_newline [OF Cons.prems(1) 3(2,1,3)] by blast
    then show ?thesis
      using Cons.IH [of "rest @ buf" s1] Cons.prems(2-5) 3 eq nul r by simp
  next
    case 4
    obtain s' where "keep_rest buf 0 s = (Inl ReadPastMsg, s')"
      using keep_rest_raises [OF Cons.prems(1) _ 4(3) Cons.prems(3)] nul(2) Cons.prems(2) by auto
    then show ?thesis
      using r 4 by (auto simp: json_poll_def split_lines_none)
  qed
qed

text \<open>C36: a text of 4096 or more characters is not forwarded, not even in part as the warning says:
  whatever pieces the reads deliver, the plugin writes outside its buffer or reads past its end.\<close>

theorem json_long_text:
  assumes "length m = 4096" "plain t" "4096 \<le> length t"
    and "\<forall>r \<in> set reads. NUL \<notin> set (delivered r)"
    and "concat (map delivered reads) = t @ newline # z"
  shows "\<exists>e s. json_run True reads (new_reader m) = (Inl e, s)"
  using polls_raise [OF new_reader_holds [OF assms(1)] _ _ assms(2,3,4)] assms(5)
  by (simp add: json_run_def)

theorem json_long_text_witness:
  "\<exists>e s. json_run True [Some (replicate 4000 CHR ''a''), Some (replicate 100 CHR ''a'' @ [newline])]
      (new_reader (replicate 4096 NUL)) = (Inl e, s)"
  by (rule json_long_text [of _ "replicate 4100 CHR ''a''" _ "[]"])
    (simp_all add: set_replicate_conv_if replicate_add [symmetric])

lemma c_string_cut: "c_string (t @ NUL # u) = c_string t"
  unfolding c_string_def by (induction t) auto

text \<open>A line end at index \<open>i\<close> puts the terminator at \<open>i\<close>, not behind the text.\<close>

lemma end_of_line_terminator:
  assumes "length (jp_msg s) = MSG_SIZE" "jp_msgPos s = 0" "i < MSG_SIZE" "bufPos + length b = i"
    and "take (length b) (drop bufPos buf) = b"
  shows "end_of_line buf bufPos i s =
    (Inr (), s\<lparr> jp_msg := b @ take bufPos (drop (length b) (jp_msg s)) @ NUL # drop (Suc i) (jp_msg s),
                jp_sent := jp_sent s @ [c_string (b @ take bufPos (drop (length b) (jp_msg s)))] \<rparr>)"
proof -
  define m1 where "m1 = b @ drop (length b) (jp_msg s)"
  define m2 where "m2 = (b @ take bufPos (drop (length b) (jp_msg s))) @ [NUL] @ drop (Suc i) (jp_msg s)"
  have i: "i - bufPos = length b" "length m1 = MSG_SIZE"
    using assms(1,3,4) by (auto simp: m1_def)
  have w1: "buf_write 0 b (jp_msg s) = Some m1"
    using assms(1,3,4) by (simp add: buf_write_def m1_def)
  have "take i m1 = b @ take bufPos (drop (length b) (jp_msg s))" "drop (Suc i) m1 = drop (Suc i) (jp_msg s)"
    using assms(4) by (auto simp: m1_def)
  then have w2: "buf_write i [NUL] m1 = Some m2"
    using i(2) assms(3) by (simp add: buf_write_def m2_def)
  have c: "NUL \<in> set m2" "c_string m2 = c_string (b @ take bufPos (drop (length b) (jp_msg s)))"
    using c_string_cut [of "b @ take bufPos (drop (length b) (jp_msg s))"] by (simp_all add: m2_def)
  show ?thesis
    using w1 w2 c assms(2,5) i(1)
    by (simp add: end_of_line_def thenE_def bindE_def copy_to_msg_def json_dispatch_def reset_msgPos_def m2_def)
qed

lemma c_string_plain: "NUL \<notin> set t \<Longrightarrow> c_string t = t"
  unfolding c_string_def by (induction t) (auto simp: of_char_eq_iff [of _ NUL, simplified])

lemma c_string_after: "NUL \<notin> set t \<Longrightarrow> c_string (t @ u) = t @ c_string u"
  unfolding c_string_def by (induction t) (auto simp: of_char_eq_iff [of _ NUL, simplified])

text \<open>when one read delivers two whole lines, the second text is followed by what the buffer held
  behind it, up to the first NUL among as many characters as the first line and its end have; after a
  first line that is longer, the second text gets the end of the first one appended.\<close>

theorem json_second_line:
  assumes "length m = 4096" "plain a" "plain b" "length a + length b < 1023"
  shows "\<exists>s. json_run True [Some (a @ [newline] @ b @ [newline])] (new_reader m) = (Inr (), s) \<and>
      jp_sent s = [a, b @ c_string (take (Suc (length a))
        (drop (length b) (a @ NUL # drop (Suc (length a)) m)))] \<and>
      (length b \<le> length a \<longrightarrow> jp_sent s = [a, b @ drop (length b) a])"
proof -
  let ?buf = "a @ [newline] @ b @ [newline]"
  define old where "old = a @ NUL # drop (Suc (length a)) m"
  define x where "x = take (Suc (length a)) (drop (length b) old)"
  define i where "i = Suc (length a + length b)"
  define s1 where "s1 = \<lparr> jp_msg = old, jp_msgPos = 0, jp_sent = [a] \<rparr>"
  define s2 where "s2 = s1\<lparr> jp_msg := b @ x @ NUL # drop (Suc i) old, jp_sent := [a, b @ c_string x] \<rparr>"
  have old: "length old = MSG_SIZE"
    using assms(1,4) by (simp add: old_def)
  have e1: "end_of_line ?buf 0 (length a) (new_reader m) = (Inr (), s1)"
    using end_of_line_terminator [of "new_reader m" "length a" 0 a ?buf] assms
    by (simp add: new_reader_def s1_def old_def c_string_plain)
  have e2: "end_of_line ?buf (Suc (length a)) i s1 = (Inr (), s2)"
    using end_of_line_terminator [of s1 i "Suc (length a)" b ?buf] old assms(3,4)
    by (simp add: s1_def s2_def i_def x_def c_string_after)
  have "split_lines ?buf 0 0 ?buf (new_reader m) = (Inr (Suc i), s2)"
    using e1 e2 assms(2,3) split_lines_skip [of a ?buf 0 0 "[newline] @ b @ [newline]"]
      split_lines_skip [of b ?buf "Suc (length a)" "Suc (length a)" "[newline]"]
    by (simp add: i_def)
  moreover have "reader_holds [] [a, b @ c_string x] s2"
    using old assms(4) by (simp add: reader_holds_def s2_def s1_def x_def i_def)
  then obtain s3 where "keep_rest ?buf (Suc i) s2 = (Inr (), s3)" "reader_holds [] [a, b @ c_string x] s3"
    using keep_rest_keeps [of "[]" "[a, b @ c_string x]" s2 ?buf "Suc i"] by (auto simp: i_def)
  moreover have "c_string x = drop (length b) a" if "length b \<le> length a"
  proof -
    have "x = drop (length b) a @ NUL # take (length b) (drop (Suc (length a)) m)"
      using that by (simp add: x_def old_def take_Cons' Suc_diff_le)
    then show ?thesis
      using c_string_NUL [of "drop (length b) a"] assms(2) by (auto dest: in_set_dropD)
  qed
  ultimately show ?thesis
    unfolding json_run_def by (simp add: json_poll_def reader_holds_def x_def old_def)
qed

theorem json_second_line_witness:
  "\<exists>s. json_run True [Some (''abcd'' @ [newline] @ ''x'' @ [newline])] (new_reader (replicate 4096 NUL)) =
      (Inr (), s) \<and> jp_sent s = [''abcd'', ''xbcd'']"
  using json_second_line [of "replicate 4096 NUL" "''abcd''" "''x''"] by auto

end
