(* ===== verification/Log4jReader.thy ===== *)
theory Log4jReader
  imports Scanf
begin

text \<open>
  The log4j plugin (\<^verbatim>\<open>log4j-plugin/src/log4jReader.cpp\<close> and \<^verbatim>\<open>log4jPlugin.cpp\<close>): a reader per configured log
  file polls the file once a second and forwards its new lines, with the date and the level at the start
  of a line as timestamp and level of this line and of those after it that have none. The file grows
  while it is read: every poll comes with what the file holds at its time. Poco's tokenizer and date
  functions and the agent's date conversion, which no source declares, are parameters.
\<close>

section \<open>The file stream\<close>

text \<open>What the reader uses of \<^verbatim>\<open>std::ifstream\<close>: a position and two flags. \<^verbatim>\<open>getline\<close> fails on a stream
  that is not good; it stops behind a line end, or at the end of the file with \<^verbatim>\<open>eofbit\<close> set, and without
  a character it sets \<^verbatim>\<open>failbit\<close> too. \<^verbatim>\<open>tellg\<close> is \<open>-1\<close> and sets \<^verbatim>\<open>failbit\<close> on a stream that is not good.
  \<^verbatim>\<open>seekg\<close> clears \<^verbatim>\<open>eofbit\<close> and, unless \<^verbatim>\<open>failbit\<close> is set, moves; a position that is not one fails.\<close>

record ifstream =
  fs_pos :: nat
  fs_eofbit :: bool
  fs_failbit :: bool

definition fs_good :: "ifstream \<Rightarrow> bool" where
  "fs_good f \<longleftrightarrow> \<not> fs_eofbit f \<and> \<not> fs_failbit f"

definition getline :: "string \<Rightarrow> ifstream \<Rightarrow> string option \<times> ifstream" where
  "getline content f =
     (if \<not> fs_good f then (None, f\<lparr> fs_failbit := True \<rparr>)
      else let rest = drop (fs_pos f) content; line = takeWhile (\<lambda>c. c \<noteq> newline) rest
           in if rest = [] then (None, f\<lparr> fs_eofbit := True, fs_failbit := True \<rparr>)
              else if line = rest
              then (Some line, f\<lparr> fs_pos := fs_pos f + length line, fs_eofbit := True \<rparr>)
              else (Some line, f\<lparr> fs_pos := fs_pos f + length line + 1 \<rparr>))"

definition tellg :: "ifstream \<Rightarrow> int \<times> ifstream" where
  "tellg f = (if fs_good f then (int (fs_pos f), f) else (-1, f\<lparr> fs_failbit := True \<rparr>))"

definition seekg :: "int \<Rightarrow> ifstream \<Rightarrow> ifstream" where
  "seekg pos f =
     (let f = f\<lparr> fs_eofbit := False \<rparr>
      in if fs_failbit f then f
         else if pos < 0 then f\<lparr> fs_failbit := True \<rparr>
         else f\<lparr> fs_pos := nat pos \<rparr>)"

definition resetEof :: "ifstream \<Rightarrow> ifstream" where
  "resetEof f = (if fs_eofbit f then f\<lparr> fs_eofbit := False, fs_failbit := False \<rparr> else f)"

section \<open>The reader\<close>

text \<open>The parameters. \<open>le_left_first\<close>: whether the left operand of \<^verbatim>\<open>*it + *(++it)\<close> is evaluated first,
  which C++11 leaves open. \<open>le_now n\<close> is the agent's time when the \<open>n\<close>-th message is made.\<close>

record 'd log4j_env =
  le_tokens :: "string \<Rightarrow> string list"
  le_parse :: "string \<Rightarrow> ('d \<times> int) option"
  le_makeUTC :: "int \<Rightarrow> 'd \<Rightarrow> 'd"
  le_format :: "'d \<Rightarrow> string"
  le_fromDateTime :: "string \<Rightarrow> u64"
  le_now :: "nat \<Rightarrow> u64"
  le_left_first :: bool

record log4j_message =
  lm_trace :: string
  lm_logLevel :: string
  lm_timestamp :: u64

record log_reader =
  lr_lastValidDate :: string
  lr_lastValidLogLevel :: string
  lr_sent :: "log4j_message list"

datatype log4j_error = PastLastToken

definition new_log4jReader :: log_reader where
  "new_log4jReader =
     \<lparr> lr_lastValidDate = [], lr_lastValidLogLevel = [], lr_sent = [] \<rparr>"

definition extractDateTime :: "'d log4j_env \<Rightarrow> string \<Rightarrow> u64" where
  "extractDateTime E dateTime =
     (case le_parse E dateTime of
        None \<Rightarrow> 0
      | Some (dt, timezone) \<Rightarrow> le_fromDateTime E (le_format E (le_makeUTC E timezone dt)))"

definition join_blank :: "string list \<Rightarrow> string" where
  "join_blank ws = concat (map (\<lambda>w. w @ '' '') ws)"

text \<open>The result is the payload and the timestamp.\<close>

definition tryParseDateTime ::
    "'d log4j_env \<Rightarrow> string \<Rightarrow> (log4j_error, log_reader, string \<times> u64) op" where
  "tryParseDateTime E logLine r =
     (let tokens = le_tokens E logLine;
          ts = (if length tokens \<ge> 2 then extractDateTime E (tokens ! 0 @ tokens ! 1) else 0)
      in if ts \<noteq> 0 then
           (if length tokens \<ge> 3 then
              (Inr (join_blank (drop 3 tokens), ts),
               r\<lparr> lr_lastValidDate := (if le_left_first E then tokens ! 0 else tokens ! 1) @ tokens ! 1,
                  lr_lastValidLogLevel := tokens ! 2 \<rparr>)
            else (Inl PastLastToken, r))
         else if lr_lastValidDate r \<noteq> [] then
           (let ts = extractDateTime E (lr_lastValidDate r)
            in if ts = 0
               then (Inr (join_blank tokens, le_now E (length (lr_sent r))),
                     r\<lparr> lr_lastValidLogLevel := ''Invalid_Log4j'' \<rparr>)
               else (Inr (join_blank tokens, ts), r))
         else (Inr (join_blank tokens, ts), r))"

definition dispatchMessage :: "string \<Rightarrow> u64 \<Rightarrow> (log4j_error, log_reader, unit) op" where
  "dispatchMessage payload ts =
     modifyE (\<lambda>r. r\<lparr> lr_sent := lr_sent r @
       [\<lparr> lm_trace = payload, lm_logLevel = lr_lastValidLogLevel r, lm_timestamp = ts \<rparr>] \<rparr>)"

definition handle_line :: "'d log4j_env \<Rightarrow> string \<Rightarrow> (log4j_error, log_reader, unit) op" where
  "handle_line E logLine =
     bindE (tryParseDateTime E logLine) (\<lambda>(payload, ts). dispatchMessage payload ts)"

text \<open>The inner loop, over the lines the file has for it. The result is the stream and \<^verbatim>\<open>gpos\<close>.\<close>

function read_lines ::
    "'d log4j_env \<Rightarrow> string \<Rightarrow> ifstream \<Rightarrow> int \<Rightarrow> (log4j_error, log_reader, ifstream \<times> int) op" where
  "read_lines E content f gpos r =
     (case getline content f of
        (None, f') \<Rightarrow> (Inr (f', gpos), r)
      | (Some logLine, f') \<Rightarrow>
          (let (gpos', f'') = tellg f'
           in case handle_line E logLine r of
                (Inl e, r') \<Rightarrow> (Inl e, r')
              | (Inr _, r') \<Rightarrow> read_lines E content f'' gpos' r'))"
  by pat_completeness auto

lemma getline_progress:
  assumes "getline content f = (Some l, f')"
  shows "fs_pos f < length content \<and> fs_pos f < fs_pos f'"
proof -
  define rest where "rest = drop (fs_pos f) content"
  define line where "line = takeWhile (\<lambda>c. c \<noteq> newline) rest"
  have g: "fs_good f"
    using assms by (cases "fs_good f") (simp_all add: getline_def)
  have r: "rest \<noteq> []"
    using assms g unfolding getline_def by (cases "rest = []") (simp_all add: rest_def [symmetric])
  have "f' = (if line = rest then f\<lparr> fs_pos := fs_pos f + length line, fs_eofbit := True \<rparr>
      else f\<lparr> fs_pos := fs_pos f + length line + 1 \<rparr>)"
    using assms g r unfolding getline_def Let_def
    by (cases "line = rest") (auto simp: rest_def [symmetric] line_def [symmetric])
  moreover have "fs_pos f < length content"
    using r by (simp add: rest_def)
  ultimately show ?thesis
    using r by (cases "line = rest") simp_all
qed

lemma tellg_pos: "tellg f = (p, f') \<Longrightarrow> fs_pos f' = fs_pos f"
  by (auto simp: tellg_def split: if_splits)

termination read_lines
  by (relation "measure (\<lambda>(E, content, f, gpos, r). length content - fs_pos f)")
    (auto dest!: getline_progress [OF sym] tellg_pos [OF sym])

declare read_lines.simps [simp del]

text \<open>One iteration of the outer loop: the reader sleeps, clears the end of file and goes back to where
  the last line ended.\<close>

definition poll_file ::
    "'d log4j_env \<Rightarrow> string \<Rightarrow> ifstream \<times> int \<Rightarrow> (log4j_error, log_reader, ifstream \<times> int) op" where
  "poll_file E content = (\<lambda>(f, gpos).
     bindE (read_lines E content f gpos) (\<lambda>(f', gpos'). returnE (seekg gpos' (resetEof f'), gpos')))"

fun poll_files ::
    "'d log4j_env \<Rightarrow> string list \<Rightarrow> ifstream \<times> int \<Rightarrow> (log4j_error, log_reader, ifstream \<times> int) op" where
  "poll_files E [] = returnE"
| "poll_files E (content # contents) = (\<lambda>p. bindE (poll_file E content p) (poll_files E contents))"

definition runActivity ::
    "'d log4j_env \<Rightarrow> bool \<Rightarrow> string list \<Rightarrow> (log4j_error, log_reader, unit) op" where
  "runActivity E opened contents =
     (if \<not> opened then returnE ()
      else let (gpos, f) = tellg \<lparr> fs_pos = 0, fs_eofbit = False, fs_failbit = False \<rparr>
           in thenE (poll_files E contents (f, gpos)) (returnE ()))"

section \<open>The plugin\<close>

text \<open>One reader per configuration key that contains \<^verbatim>\<open>log4jLogFile\<close>, by the name of its file.\<close>

definition log4j_setConfig :: "(string \<times> string) list \<Rightarrow> string list \<Rightarrow> string list" where
  "log4j_setConfig pluginConfiguration logReaders =
     logReaders @ map snd (filter (\<lambda>(k, _). contains ''log4jLogFile'' k) pluginConfiguration)"

section \<open>Lemmas\<close>

text \<open>What the file holds at each poll, when the texts \<open>xs\<close> are appended one before each.\<close>

fun grown :: "string \<Rightarrow> string list \<Rightarrow> string list" where
  "grown c [] = []"
| "grown c (x # xs) = (c @ x) # grown (c @ x) xs"

definition good_at :: "nat \<Rightarrow> ifstream" where
  "good_at n = \<lparr> fs_pos = n, fs_eofbit = False, fs_failbit = False \<rparr>"

lemma good_at_simps [simp]:
  "fs_pos (good_at n) = n" "fs_good (good_at n)" "tellg (good_at n) = (int n, good_at n)"
  "seekg (int n) (good_at m) = good_at n"
  by (simp_all add: good_at_def fs_good_def tellg_def seekg_def)

lemma takeWhile_line: "newline \<notin> set l \<Longrightarrow> takeWhile (\<lambda>c. c \<noteq> newline) (l @ newline # y) = l"
  by (induction l) auto

lemma takeWhile_no_newline: "newline \<notin> set l \<Longrightarrow> takeWhile (\<lambda>c. c \<noteq> newline) l = l"
  by (induction l) auto

lemma getline_line:
  "newline \<notin> set l \<Longrightarrow> drop n content = l @ newline # y \<Longrightarrow>
     getline content (good_at n) = (Some l, good_at (n + length l + 1))"
  by (simp add: getline_def takeWhile_line) (simp add: good_at_def)

lemma getline_partial:
  "newline \<notin> set l \<Longrightarrow> l \<noteq> [] \<Longrightarrow> drop n content = l \<Longrightarrow>
     getline content (good_at n) = (Some l, (good_at (n + length l))\<lparr> fs_eofbit := True \<rparr>)"
  unfolding getline_def good_at_simps by (simp add: takeWhile_no_newline) (simp add: good_at_def)

lemma getline_end:
  "drop n content = [] \<Longrightarrow>
     getline content (good_at n) = (None, (good_at n)\<lparr> fs_eofbit := True, fs_failbit := True \<rparr>)"
  unfolding getline_def good_at_simps by simp

lemma getline_bad: "\<not> fs_good f \<Longrightarrow> getline content f = (None, f\<lparr> fs_failbit := True \<rparr>)"
  by (simp add: getline_def)

lemma drop_next:
  "drop n content = l @ newline # y \<Longrightarrow> drop (n + length l + 1) content = y"
  by (metis Suc_eq_plus1 append_eq_conv_conj add.assoc drop_drop drop_Suc_Cons drop0 add.commute)

lemma read_lines_step:
  assumes "newline \<notin> set l" "drop n content = l @ newline # y"
  shows "read_lines E content (good_at n) gpos =
    bindE (handle_line E l) (\<lambda>_. read_lines E content (good_at (n + length l + 1)) (int (n + length l + 1)))"
proof
  fix r
  show "read_lines E content (good_at n) gpos r = bindE (handle_line E l)
      (\<lambda>_. read_lines E content (good_at (n + length l + 1)) (int (n + length l + 1))) r"
    unfolding read_lines.simps [of E content "good_at n"] getline_line [OF assms] bindE_def
    by (simp split: prod.split sum.split)
qed

lemma read_lines_complete:
  assumes "drop n content = as_lines ls" "\<forall>l \<in> set ls. newline \<notin> set l" "n \<le> length content"
  shows "read_lines E content (good_at n) (int n) =
    bindE (seqE (map (handle_line E) ls)) (\<lambda>_. returnE
      ((good_at (length content))\<lparr> fs_eofbit := True, fs_failbit := True \<rparr>, int (length content)))"
  using assms
proof (induction ls arbitrary: n)
  case Nil
  show ?case
    by (rule ext) (use Nil in \<open>simp add: read_lines.simps [of E content "good_at n"] getline_end\<close>)
next
  case (Cons l ls)
  have d: "drop n content = l @ newline # as_lines ls"
    using Cons.prems(1) by simp
  have n: "n + length l + 1 \<le> length content"
    using arg_cong [OF d, of length] by simp
  have l: "newline \<notin> set l" "\<forall>l \<in> set ls. newline \<notin> set l"
    using Cons.prems(2) by simp_all
  show ?case
    unfolding read_lines_step [OF l(1) d] Cons.IH [OF drop_next [OF d] l(2) n]
    by (simp add: thenE_def bindE_assoc returnE_def)
qed

text \<open>A line without an end is handled too, but behind it the stream is no longer good: the position
  kept is \<open>-1\<close>.\<close>

lemma read_lines_partial:
  assumes "drop n content = as_lines ls @ l" "\<forall>l \<in> set ls. newline \<notin> set l" "newline \<notin> set l" "l \<noteq> []"
  shows "read_lines E content (good_at n) (int n) =
    bindE (seqE (map (handle_line E) (ls @ [l]))) (\<lambda>_. returnE
      ((good_at (length content))\<lparr> fs_eofbit := True, fs_failbit := True \<rparr>, -1))"
  using assms
proof (induction ls arbitrary: n)
  case Nil
  have d: "drop n content = l" and len: "n + length l = length content"
    using Nil.prems(1,4) arg_cong [OF Nil.prems(1), of length] by auto
  define f where "f = (good_at (length content))\<lparr> fs_eofbit := True, fs_failbit := True \<rparr>"
  have t: "tellg ((good_at (n + length l))\<lparr> fs_eofbit := True \<rparr>) = (-1, f)"
    by (simp add: tellg_def fs_good_def f_def len)
  have g: "getline content f = (None, f)"
    by (simp add: getline_bad fs_good_def f_def)
  have "read_lines E content (good_at n) (int n) r =
      bindE (handle_line E l) (\<lambda>_. returnE (f, -1)) r" for r
    unfolding read_lines.simps [of E content "good_at n"] getline_partial [OF Nil.prems(3,4) d] bindE_def
    by (simp add: t read_lines.simps [of E content f] g split: prod.split sum.split)
  then show ?case
    by (auto simp: thenE_def bindE_assoc bindE_return f_def returnE_def)
next
  case (Cons l' ls)
  have d: "drop n content = l' @ newline # as_lines ls @ l"
    using Cons.prems(1) by simp
  have l: "newline \<notin> set l'" "\<forall>l \<in> set ls. newline \<notin> set l"
    using Cons.prems(2) by simp_all
  show ?case
    unfolding read_lines_step [OF l(1) d] Cons.IH [OF drop_next [OF d] l(2) Cons.prems(3,4)]
    by (simp add: thenE_def bindE_assoc returnE_def)
qed

lemma poll_complete:
  assumes "drop n content = as_lines ls" "\<forall>l \<in> set ls. newline \<notin> set l" "n \<le> length content"
  shows "poll_file E content (good_at n, int n) =
    bindE (seqE (map (handle_line E) ls)) (\<lambda>_. returnE (good_at (length content), int (length content)))"
proof -
  have "seekg (int (length content)) (resetEof ((good_at (length content))\<lparr> fs_eofbit := True, fs_failbit := True \<rparr>)) =
      good_at (length content)"
    by (simp add: seekg_def resetEof_def good_at_def)
  then show ?thesis
    unfolding poll_file_def using read_lines_complete [OF assms, of E]
    by (simp add: bindE_assoc bindE_return returnE_def)
qed

definition stuck :: "ifstream \<Rightarrow> bool" where
  "stuck f \<longleftrightarrow> fs_failbit f \<and> \<not> fs_eofbit f"

lemma poll_partial:
  assumes "drop n content = as_lines ls @ l" "\<forall>l \<in> set ls. newline \<notin> set l" "newline \<notin> set l" "l \<noteq> []"
  shows "\<exists>f. stuck f \<and> poll_file E content (good_at n, int n) =
    bindE (seqE (map (handle_line E) (ls @ [l]))) (\<lambda>_. returnE (f, -1))"
proof -
  define f where "f = seekg (-1) (resetEof ((good_at (length content))\<lparr> fs_eofbit := True, fs_failbit := True \<rparr>))"
  have "stuck f"
    by (simp add: f_def seekg_def resetEof_def good_at_def stuck_def Let_def)
  moreover have "poll_file E content (good_at n, int n) =
      bindE (seqE (map (handle_line E) (ls @ [l]))) (\<lambda>_. returnE (f, -1))"
    unfolding poll_file_def using read_lines_partial [OF assms, of E]
    by (simp add: bindE_assoc bindE_return returnE_def f_def)
  ultimately show ?thesis
    by blast
qed

lemma polls_stuck: "stuck f \<Longrightarrow> \<exists>p'. poll_files E contents (f, g) r = (Inr p', r)"
proof (induction contents arbitrary: f)
  case (Cons c contents)
  have "getline c f = (None, f)"
    using Cons.prems by (simp add: getline_bad fs_good_def stuck_def)
  then have "poll_file E c (f, g) r = (Inr (seekg g (resetEof f), g), r)"
    by (simp add: poll_file_def bindE_def read_lines.simps [of E c f])
  moreover have "stuck (seekg g (resetEof f))"
    using Cons.prems by (simp add: stuck_def resetEof_def seekg_def Let_def)
  ultimately show ?case
    using Cons.IH by simp
qed simp

lemma polls_append:
  "poll_files E (cs @ ds) = (\<lambda>p. bindE (poll_files E cs p) (poll_files E ds))"
  by (induction cs) (simp_all add: bindE_assoc bindE_return returnE_def)

lemma grown_append: "grown c (xs @ ys) = grown c xs @ grown (c @ concat xs) ys"
  by (induction xs arbitrary: c) simp_all

lemma polls_complete:
  assumes "\<forall>ls \<in> set lss. \<forall>l \<in> set ls. newline \<notin> set l"
  shows "poll_files E (grown c (map as_lines lss)) (good_at (length c), int (length c)) =
    bindE (seqE (map (handle_line E) (concat lss)))
      (\<lambda>_. returnE (good_at (length (c @ concat (map as_lines lss))),
                    int (length (c @ concat (map as_lines lss)))))"
  using assms
proof (induction lss arbitrary: c)
  case Nil
  show ?case
    by (simp add: bindE_return returnE_def)
next
  case (Cons ls lss)
  have p: "poll_file E (c @ as_lines ls) (good_at (length c), int (length c)) =
      bindE (seqE (map (handle_line E) ls))
        (\<lambda>_. returnE (good_at (length (c @ as_lines ls)), int (length (c @ as_lines ls))))"
    using Cons.prems by (intro poll_complete) auto
  show ?case
    unfolding list.map grown.simps poll_files.simps p bindE_assoc bindE_return
    using Cons.IH [of "c @ as_lines ls"] Cons.prems
    by (simp add: seqE_append bindE_assoc)
qed

lemma runActivity_polls:
  "runActivity E True contents = bindE (poll_files E contents (good_at 0, int 0)) (\<lambda>_. returnE ())"
  by (simp add: runActivity_def good_at_def tellg_def fs_good_def thenE_def)

lemma runActivity_complete:
  assumes "\<forall>ls \<in> set lss. \<forall>l \<in> set ls. newline \<notin> set l"
  shows "runActivity E True (grown [] (map as_lines lss)) = seqE (map (handle_line E) (concat lss))"
  unfolding runActivity_polls
  using polls_complete [OF assms, of E "[]"] by (simp add: bindE_assoc bindE_return bindE_unit)

text \<open>Poco's tokenizer without options: empty tokens are kept, an empty text has none.\<close>

fun split_blank :: "string \<Rightarrow> string list" where
  "split_blank [] = [[]]"
| "split_blank (c # s) =
     (if c = CHR '' '' then [] # split_blank s
      else (c # hd (split_blank s)) # tl (split_blank s))"

definition blank_tokens :: "string \<Rightarrow> string list" where
  "blank_tokens s = (if s = [] then [] else split_blank s)"

lemma split_blank_nonempty [simp]: "split_blank s \<noteq> []"
  by (cases s) auto

lemma split_blank_word:
  "CHR '' '' \<notin> set w \<Longrightarrow> split_blank (w @ CHR '' '' # s) = w # split_blank s"
  by (induction w) auto

lemma join_split_blank: "join_blank (split_blank s) = s @ '' ''"
proof (induction s)
  case (Cons c s)
  then show ?case
    by (cases "split_blank s") (auto simp: join_blank_def)
qed (simp add: join_blank_def)

text \<open>A record of the log: a first line with date, time, level and text, and further lines.\<close>

record log_record =
  rc_date :: string
  rc_time :: string
  rc_level :: string
  rc_text :: string
  rc_more :: "string list"

definition record_lines :: "log_record \<Rightarrow> string list" where
  "record_lines c =
     (rc_date c @ '' '' @ rc_time c @ '' '' @ rc_level c @ '' '' @ rc_text c) # rc_more c"

definition log_entry :: "'d log4j_env \<Rightarrow> log_record \<Rightarrow> string \<Rightarrow> log4j_message" where
  "log_entry E c trace =
     \<lparr> lm_trace = trace, lm_logLevel = rc_level c,
       lm_timestamp = extractDateTime E (rc_date c @ rc_time c) \<rparr>"

definition record_messages :: "'d log4j_env \<Rightarrow> log_record \<Rightarrow> log4j_message list" where
  "record_messages E c =
     log_entry E c (rc_text c @ '' '') #
     map (\<lambda>l. log_entry E c (if l = [] then [] else l @ '' '')) (rc_more c)"

text \<open>The first two words of a further line are no date.\<close>

definition undated :: "'d log4j_env \<Rightarrow> string \<Rightarrow> bool" where
  "undated E l \<longleftrightarrow>
     (let ws = blank_tokens l in length ws \<ge> 2 \<longrightarrow> extractDateTime E (ws ! 0 @ ws ! 1) = 0)"

definition record_ok :: "'d log4j_env \<Rightarrow> log_record \<Rightarrow> bool" where
  "record_ok E c \<longleftrightarrow>
     CHR '' '' \<notin> set (rc_date c @ rc_time c @ rc_level c) \<and>
     (\<forall>l \<in> set (record_lines c). newline \<notin> set l) \<and>
     extractDateTime E (rc_date c @ rc_time c) \<noteq> 0 \<and> rc_date c @ rc_time c \<noteq> [] \<and>
     (\<forall>l \<in> set (rc_more c). undated E l)"

lemma first_line:
  assumes "le_tokens E = blank_tokens" "le_left_first E" "record_ok E c"
  shows "handle_line E (hd (record_lines c)) r =
    (Inr (), \<lparr> lr_lastValidDate = rc_date c @ rc_time c, lr_lastValidLogLevel = rc_level c,
               lr_sent = lr_sent r @ [log_entry E c (rc_text c @ '' '')] \<rparr>)"
proof -
  have "blank_tokens (hd (record_lines c)) =
      rc_date c # rc_time c # rc_level c # split_blank (rc_text c)"
    using assms(3) split_blank_word [of "rc_date c"] split_blank_word [of "rc_time c"]
      split_blank_word [of "rc_level c"]
    by (simp add: blank_tokens_def record_lines_def record_ok_def)
  then show ?thesis
    using assms
    by (simp add: handle_line_def tryParseDateTime_def record_ok_def bindE_def dispatchMessage_def
        join_split_blank log_entry_def)
qed

lemma further_line:
  assumes "le_tokens E = blank_tokens" "record_ok E c" "l \<in> set (rc_more c)"
    and "lr_lastValidDate r = rc_date c @ rc_time c" "lr_lastValidLogLevel r = rc_level c"
  shows "handle_line E l r =
    (Inr (), r\<lparr> lr_sent := lr_sent r @ [log_entry E c (if l = [] then [] else l @ '' '')] \<rparr>)"
proof -
  have "length (blank_tokens l) \<ge> 2 \<longrightarrow>
      extractDateTime E (blank_tokens l ! 0 @ blank_tokens l ! 1) = 0"
    using assms(2,3) by (simp add: record_ok_def undated_def Let_def)
  then have z: "(if length (blank_tokens l) \<ge> 2
      then extractDateTime E (blank_tokens l ! 0 @ blank_tokens l ! 1) else 0) = 0"
    by simp
  have j: "join_blank (blank_tokens l) = (if l = [] then [] else l @ '' '')"
    by (simp add: blank_tokens_def join_split_blank) (simp add: join_blank_def)
  show ?thesis
    using assms unfolding handle_line_def tryParseDateTime_def Let_def assms(1) z j
    by (auto simp: record_ok_def bindE_def dispatchMessage_def log_entry_def)
qed

lemma further_lines:
  assumes "le_tokens E = blank_tokens" "record_ok E c" "set ls \<subseteq> set (rc_more c)"
    and "lr_lastValidDate r = rc_date c @ rc_time c" "lr_lastValidLogLevel r = rc_level c"
  shows "seqE (map (handle_line E) ls) r = (Inr (), r\<lparr> lr_sent := lr_sent r @
    map (\<lambda>l. log_entry E c (if l = [] then [] else l @ '' '')) ls \<rparr>)"
  using assms(3-5)
proof (induction ls arbitrary: r)
  case (Cons l ls)
  then show ?case
    using further_line [OF assms(1,2), of l r] by simp
qed simp

lemma one_record:
  assumes "le_tokens E = blank_tokens" "le_left_first E" "record_ok E c"
  shows "\<exists>r'. seqE (map (handle_line E) (record_lines c)) r = (Inr (), r') \<and>
    lr_sent r' = lr_sent r @ record_messages E c"
proof -
  have "record_lines c = hd (record_lines c) # rc_more c"
    by (simp add: record_lines_def)
  then have "map (handle_line E) (record_lines c) =
      handle_line E (hd (record_lines c)) # map (handle_line E) (rc_more c)"
    by (metis list.map(2))
  then show ?thesis
    by (simp add: first_line [OF assms] further_lines [OF assms(1,3)] record_messages_def)
qed

lemma many_records:
  assumes "le_tokens E = blank_tokens" "le_left_first E" "\<forall>c \<in> set cs. record_ok E c"
  shows "\<exists>r'. seqE (map (handle_line E) (concat (map record_lines cs))) r = (Inr (), r') \<and>
    lr_sent r' = lr_sent r @ concat (map (record_messages E) cs)"
  using assms(3)
proof (induction cs arbitrary: r)
  case (Cons c cs)
  then obtain r1 where "seqE (map (handle_line E) (record_lines c)) r = (Inr (), r1)"
    and s1: "lr_sent r1 = lr_sent r @ record_messages E c"
    using one_record [OF assms(1,2), of c r] by auto
  then show ?case
    using Cons.IH [of r1] Cons.prems by (auto simp: seqE_append)
qed simp

text \<open>An environment for the witnesses.\<close>

abbreviation test_env :: "unit log4j_env" where
  "test_env \<equiv> \<lparr> le_tokens = blank_tokens,
     le_parse = (\<lambda>s. if s = ''2018-01-0110:00:00'' then Some ((), 0) else None),
     le_makeUTC = (\<lambda>_ _. ()), le_format = (\<lambda>_. ''x''), le_fromDateTime = (\<lambda>_. 7),
     le_now = (\<lambda>_. 9), le_left_first = True \<rparr>"

text \<open>A line of a date and nothing else is read past its tokens; with the right operand evaluated first,
  what is kept of a date is its time twice.\<close>

lemma date_without_level:
  assumes "le_tokens E l = [d, t]" "extractDateTime E (d @ t) \<noteq> 0"
  shows "handle_line E l r = (Inl PastLastToken, r)"
  using assms by (simp add: handle_line_def tryParseDateTime_def bindE_def)

lemma date_right_first:
  assumes "le_tokens E l = d # t # v # ws" "extractDateTime E (d @ t) \<noteq> 0" "\<not> le_left_first E"
  shows "\<exists>r'. handle_line E l r = (Inr (), r') \<and> lr_lastValidDate r' = t @ t"
  using assms by (simp add: handle_line_def tryParseDateTime_def bindE_def dispatchMessage_def)

text \<open>A log of dated records, polled while it grows.\<close>

lemma log_records_sent:
  assumes "le_tokens E = blank_tokens" "le_left_first E" "\<forall>c \<in> set cs. record_ok E c"
    and "concat lss = concat (map record_lines cs)"
  shows "\<exists>r. runActivity E True (grown [] (map as_lines lss)) new_log4jReader = (Inr (), r) \<and>
    lr_sent r = concat (map (record_messages E) cs)"
proof -
  have "\<forall>l \<in> set (concat lss). newline \<notin> set l"
    using assms(3) unfolding assms(4) by (auto simp: record_ok_def)
  then have "runActivity E True (grown [] (map as_lines lss)) =
      seqE (map (handle_line E) (concat (map record_lines cs)))"
    using runActivity_complete [of lss E] unfolding assms(4) [symmetric] by auto
  then show ?thesis
    using many_records [OF assms(1-3), of new_log4jReader] by (simp add: new_log4jReader_def)
qed

section \<open>Properties\<close>



text \<open>a poll that finds a line whose end is not written yet forwards what there is of it as a line,
  and from then on nothing is forwarded any more, whatever the file gets: the reader has made the moves
  of the whole lines and of the unfinished one, and no others.\<close>

theorem partial_line_stops_reader:
  assumes "\<forall>l \<in> set (concat lss @ ls @ [l]). newline \<notin> set l" "l \<noteq> []"
  shows "runActivity E True (grown [] (map as_lines lss @ (as_lines ls @ l) # later)) =
    seqE (map (handle_line E) (concat lss @ ls @ [l]))"
proof -
  define c where "c = concat (map as_lines lss)"
  define rest where "rest = grown (c @ as_lines ls @ l) later"
  have g: "grown [] (map as_lines lss @ (as_lines ls @ l) # later) =
      grown [] (map as_lines lss) @ (c @ as_lines ls @ l) # rest"
    by (simp add: grown_append c_def rest_def)
  have "drop (length c) (c @ as_lines ls @ l) = as_lines ls @ l"
    by simp
  then obtain f where f: "stuck f"
    and p: "poll_file E (c @ as_lines ls @ l) (good_at (length c), int (length c)) =
      bindE (seqE (map (handle_line E) (ls @ [l]))) (\<lambda>_. returnE (f, -1))"
    using poll_partial [of "length c" "c @ as_lines ls @ l" ls l E] assms by auto
  have s: "bindE (poll_files E rest (f, -1)) (\<lambda>_. returnE ()) = returnE ()"
  proof
    fix r
    show "bindE (poll_files E rest (f, -1)) (\<lambda>_. returnE ()) r = returnE () r"
      using polls_stuck [OF f, of E rest "-1" r] by (auto simp: bindE_def)
  qed
  have a: "poll_files E (grown [] (map as_lines lss)) (good_at 0, int 0) =
      bindE (seqE (map (handle_line E) (concat lss))) (\<lambda>_. returnE (good_at (length c), int (length c)))"
    using polls_complete [of lss E "[]"] assms(1) by (fastforce simp: c_def)
  show ?thesis
    unfolding runActivity_polls g polls_append poll_files.simps a bindE_assoc bindE_return p s
    by (simp add: bindE_unit seqE_append [symmetric])
qed

theorem partial_line_stops_reader_witness:
  "runActivity test_env True (grown [] [''a'' @ [newline] @ ''b'', ''c'' @ [newline], ''d'' @ [newline]]) =
    seqE [handle_line test_env ''a'', handle_line test_env ''b'']"
  using partial_line_stops_reader [of "[]" "[''a'']" "''b''" test_env "[''c'' @ [newline], ''d'' @ [newline]]"]
  by simp

end
