(* ===== verification/ProcFsQnx.thy ===== *)
theory ProcFsQnx
  imports ProcFs
begin

text \<open>
  The reader of the proc file system on QNX (\<^verbatim>\<open>resource-monitor-plugin/src/utils/procFsReaderQnx.cpp\<close>).
  The system's answers are parameters, and so are its constants: the flags of memory mappings and
  the size of a name. A process is what the calls on its address space file return. Paths fit their
  buffers.
\<close>

unbundle bit_operations_syntax

section \<open>The system's side\<close>

record qnx_mapping =
  qm_flags :: u32
  qm_size :: u64

text \<open>\<open>qp_nrOfMapInfos\<close> is the answer to the call that asks for the number of mappings, \<open>qp_mappings\<close> what
  there is for the call that asks for the mappings themselves.\<close>

record qnx_process =
  qp_opens :: bool
  qp_path :: "string option"
  qp_info :: "(u64 \<times> u64) option"
  qp_nrOfMapInfos :: "nat option"
  qp_mappings :: "qnx_mapping list option"

record qnx_env =
  qe_asinfo :: "(string \<times> u64 \<times> u64) list"
  qe_procSize :: "u64 option"
  qe_process :: "int \<Rightarrow> qnx_process"
  qe_malloc :: "nat \<Rightarrow> bool"
  qe_pagesize :: u32
  qe_NAME_MAX :: nat
  qe_MAP_ANON :: u32
  qe_MAP_STACK :: u32
  qe_MAP_ELF :: u32
  qe_MAP_TYPE :: u32
  qe_MAP_PRIVATE :: u32

section \<open>System-wide values\<close>

definition readCpuInfo_qnx :: "sysCpuInfo \<Rightarrow> bool \<times> sysCpuInfo" where
  "readCpuInfo_qnx ci =
     (True, \<lparr> userModeTime = 0, niceUserModeTime = 0, kernelModeTime = 0, idleTime = 0 \<rparr>)"

definition getTotalMemory :: "qnx_env \<Rightarrow> u64 \<Rightarrow> u64" where
  "getTotalMemory env totalMemory =
     fold (\<lambda>(name, first, last) total. if name = ''ram'' then total + (last - first + 1) else total)
       (qe_asinfo env) totalMemory"

definition readMeminfo_qnx :: "qnx_env \<Rightarrow> sysMemInfo \<Rightarrow> bool \<times> sysMemInfo" where
  "readMeminfo_qnx env mi =
     (let totalMemory = getTotalMemory env 0;
          freeMemory = (case qe_procSize env of None \<Rightarrow> 0 | Some n \<Rightarrow> n)
      in (True, \<lparr> totalVirtualMem = totalMemory, virtualMemUsed = totalMemory - freeMemory,
                  totalPhysMem = totalMemory, physMemUsed = totalMemory - freeMemory \<rparr>))"

section \<open>Processes\<close>

text \<open>The name is always there.\<close>

definition getProcessName :: "qnx_process \<Rightarrow> bool \<times> string" where
  "getProcessName p = (True, case qp_path p of None \<Rightarrow> ''(n/a)'' | Some path \<Rightarrow> path)"

definition getCpuInfo :: "qnx_process \<Rightarrow> bool \<times> (u64 \<times> u64)" where
  "getCpuInfo p = (case qp_info p of None \<Rightarrow> (False, (0, 0)) | Some i \<Rightarrow> (True, i))"

definition add_mapping :: "qnx_env \<Rightarrow> qnx_mapping \<Rightarrow> u64 \<Rightarrow> u64" where
  "add_mapping env m memUsage =
     (let memUsage =
        (if qm_flags m AND (qe_MAP_ANON env OR qe_MAP_STACK env OR qe_MAP_ELF env OR qe_MAP_TYPE env)
            = qe_MAP_ANON env OR qe_MAP_PRIVATE env
         then memUsage + qm_size m else memUsage)
      in if qm_flags m AND qe_MAP_STACK env \<noteq> 0 then memUsage + qm_size m else memUsage)"

definition getProcMemoryInfo :: "qnx_env \<Rightarrow> qnx_process \<Rightarrow> bool \<times> u64" where
  "getProcMemoryInfo env p =
     (case qp_nrOfMapInfos p of
        None \<Rightarrow> (False, 0)
      | Some n \<Rightarrow>
          (if qe_malloc env n then
             (case qp_mappings p of
                None \<Rightarrow> (False, 0)
              | Some ms \<Rightarrow> (True, fold (add_mapping env) (take n ms) 0))
           else (False, 0)))"

text \<open>One entry. The times are nanoseconds; the second one is the time of the process's children.\<close>

definition read_entry_qnx :: "qnx_env \<Rightarrow> string \<Rightarrow> sstat \<times> sstatm \<Rightarrow> bool \<times> sstat \<times> sstatm" where
  "read_entry_qnx env d_name = (\<lambda>(st, sm).
     (let st = st\<lparr> st_pid := atoi d_name \<rparr>; p = qe_process env (st_pid st)
      in if \<not> qp_opens p then (False, st, sm)
         else case (getProcessName p, getCpuInfo p, getProcMemoryInfo env p) of
                ((True, processName), (True, (stime, cstime)), (True, summedUpMem)) \<Rightarrow>
                  (True,
                   st\<lparr> st_new_stime := stime div (1000 * 1000), st_new_utime := cstime div (1000 * 1000),
                       st_fullName := take (qe_NAME_MAX env) processName \<rparr>,
                   sm\<lparr> sm_PageSize := qe_pagesize env, sm_Rss := ucast summedUpMem \<rparr>)
              | _ \<Rightarrow> (True, st, sm)))"

definition readProcFs_qnx ::
    "qnx_env \<Rightarrow> descriptor \<times> sstat \<times> sstatm \<Rightarrow> bool \<times> descriptor \<times> sstat \<times> sstatm" where
  "readProcFs_qnx env = (\<lambda>(entryInfo, st, sm).
     (let e = next_entry entryInfo
      in case de_dp e of
           None \<Rightarrow> (False, e, st, sm)
         | Some d_name \<Rightarrow>
             (case read_entry_qnx env d_name (st, sm) of (result, st, sm) \<Rightarrow> (result, e, st, sm))))"

section \<open>Lemmas\<close>

text \<open>What counts as memory of a process: its private anonymous mappings and its stacks, each once, when
  the bits of the flags are distinct.\<close>

definition counted :: "qnx_env \<Rightarrow> qnx_mapping \<Rightarrow> bool" where
  "counted env m \<longleftrightarrow>
     qm_flags m AND qe_MAP_STACK env \<noteq> 0 \<or>
     qm_flags m AND (qe_MAP_ANON env OR qe_MAP_STACK env OR qe_MAP_ELF env OR qe_MAP_TYPE env)
       = qe_MAP_ANON env OR qe_MAP_PRIVATE env"

lemma add_mapping_counted:
  assumes "(qe_MAP_ANON env OR qe_MAP_PRIVATE env) AND qe_MAP_STACK env = 0"
  shows "add_mapping env m u = (if counted env m then u + qm_size m else u)"
proof -
  have False if "qm_flags m AND (qe_MAP_ANON env OR qe_MAP_STACK env OR qe_MAP_ELF env OR qe_MAP_TYPE env)
      = qe_MAP_ANON env OR qe_MAP_PRIVATE env" "qm_flags m AND qe_MAP_STACK env \<noteq> 0"
  proof -
    have "qm_flags m AND qe_MAP_STACK env =
        (qm_flags m AND (qe_MAP_ANON env OR qe_MAP_STACK env OR qe_MAP_ELF env OR qe_MAP_TYPE env))
          AND qe_MAP_STACK env"
      by (rule bit_word_eqI) (auto simp: bit_simps)
    then show False
      using that assms by simp
  qed
  then show ?thesis
    by (auto simp: add_mapping_def counted_def Let_def)
qed

lemma getProcMemoryInfo_sum:
  assumes "(qe_MAP_ANON env OR qe_MAP_PRIVATE env) AND qe_MAP_STACK env = 0"
    and "qp_nrOfMapInfos p = Some n" "qe_malloc env n" "qp_mappings p = Some ms"
  shows "getProcMemoryInfo env p =
    (True, sum_list (map qm_size (filter (counted env) (take n ms))))"
proof -
  have "fold (add_mapping env) ms u = u + sum_list (map qm_size (filter (counted env) ms))" for ms u
    by (induction ms arbitrary: u) (simp_all add: add_mapping_counted [OF assms(1)] add.assoc)
  then show ?thesis
    using assms by (simp add: getProcMemoryInfo_def)
qed

text \<open>A process whose values cannot be read is reported, with those of the process before it.\<close>

lemma unreadable_process:
  assumes "qp_opens (qe_process env (atoi d_name))"
    and "qp_info (qe_process env (atoi d_name)) = None \<or>
         qp_nrOfMapInfos (qe_process env (atoi d_name)) = None"
  shows "read_entry_qnx env d_name (st, sm) = (True, st\<lparr> st_pid := atoi d_name \<rparr>, sm)"
  using assms by (auto simp: read_entry_qnx_def Let_def getCpuInfo_def getProcMemoryInfo_def
      split: prod.splits option.splits bool.splits)

text \<open>A process that cannot be opened ends the collection's entry with a failure, but its identifier
  stays in the container.\<close>

lemma unopened_process:
  "\<not> qp_opens (qe_process env (atoi d_name)) \<Longrightarrow>
     read_entry_qnx env d_name (st, sm) = (False, st\<lparr> st_pid := atoi d_name \<rparr>, sm)"
  by (simp add: read_entry_qnx_def Let_def)

end
