(* ===== verification/ResourceMonitorWin.thy ===== *)
theory ResourceMonitorWin
  imports ResourceMonitor
begin

text \<open>
  The resource monitor plugin for Windows (\<^verbatim>\<open>resource-monitor_win7/src\<close>): a timer calls the scheduler,
  which reads the memory state and a snapshot of the processes and sends them. What the system's calls
  return is an input; the messages are those of theory ResourceMonitor. A wide character that is
  printed is one character of the name.
\<close>

section \<open>The system's side\<close>

text \<open>A process in the snapshot: whether it can be opened, its times in units of 100 nanoseconds, its
  memory. No snapshot (\<^const>\<open>None\<close>) is an invalid handle.\<close>

record win_process =
  wp_pid :: u32
  wp_exeFile :: string
  wp_opens :: bool
  wp_kernelTime :: u64
  wp_userTime :: u64
  wp_workingSetSize :: u64
  wp_privateUsage :: u64

record win_env =
  we_totalPhys :: u64
  we_availPhys :: u64
  we_totalVirtual :: u64
  we_availVirtual :: u64
  we_numberOfProcessors :: u32
  we_snapshot :: "win_process list option"

section \<open>Values\<close>

record win_system_info =
  dwTotalPhys :: u64
  dwAvailPhys :: u64
  dwTotalVirtual :: u64
  dwAvailVirtual :: u64

definition new_CSystemInfo :: win_system_info where
  "new_CSystemInfo = \<lparr> dwTotalPhys = 0, dwAvailPhys = 0, dwTotalVirtual = 0, dwAvailVirtual = 0 \<rparr>"

definition update_system_info :: "win_env \<Rightarrow> win_system_info \<Rightarrow> win_system_info" where
  "update_system_info env i =
     \<lparr> dwTotalPhys = we_totalPhys env, dwAvailPhys = we_availPhys env,
       dwTotalVirtual = we_totalVirtual env, dwAvailVirtual = we_availVirtual env \<rparr>"

text \<open>The times are signed numbers of 64 bits, the working set is one of 32.\<close>

record proc_metrics =
  mSysCPU :: u64
  mUserCPU :: u64
  mPid :: u32
  mName :: string
  mWss :: u32
  mPrivateMem :: u64

definition new_CProcMetrics :: proc_metrics where
  "new_CProcMetrics =
     \<lparr> mSysCPU = 0, mUserCPU = 0, mPid = 0, mName = [], mWss = 0, mPrivateMem = 0 \<rparr>"

definition to_milliseconds :: "u64 \<Rightarrow> u64" where
  "to_milliseconds t = word_of_int (sint t sdiv 10000)"

definition setSysCPU :: "u64 \<Rightarrow> proc_metrics \<Rightarrow> proc_metrics" where
  "setSysCPU t m = m\<lparr> mSysCPU := to_milliseconds t \<rparr>"

definition setUserCPU :: "u64 \<Rightarrow> proc_metrics \<Rightarrow> proc_metrics" where
  "setUserCPU t m = m\<lparr> mUserCPU := to_milliseconds t \<rparr>"

definition setWorkingSetSize :: "u32 \<Rightarrow> proc_metrics \<Rightarrow> proc_metrics" where
  "setWorkingSetSize wss m = m\<lparr> mWss := wss \<rparr>"

section \<open>The scheduler\<close>

abbreviation PROCESS_LENGTH :: nat where "PROCESS_LENGTH \<equiv> 50"

text \<open>\<open>ws_sent\<close> is what was handed to \<^verbatim>\<open>sendMessage\<close>, with its timestamp.\<close>

datatype win_timer =
    NoTimer
  | Timer u32
  | DeletedTimer

record win_scheduler =
  ws_timer :: win_timer
  ws_sent :: "(resource_info \<times> u64) list"

datatype win_error =
    NameOverflow
  | UseOfDeletedTimer
  | NullScheduler

definition new_win_scheduler :: win_scheduler where
  "new_win_scheduler = \<lparr> ws_timer = NoTimer, ws_sent = [] \<rparr>"

definition startMonitoring :: "u32 \<Rightarrow> win_scheduler \<Rightarrow> bool \<times> win_scheduler" where
  "startMonitoring samplingRate s =
     (if ws_timer s = NoTimer then (True, s\<lparr> ws_timer := Timer samplingRate \<rparr>) else (False, s))"

text \<open>The pointer is not reset.\<close>

definition stopMonitoring :: "(win_error, win_scheduler, bool) op" where
  "stopMonitoring s =
     (case ws_timer s of
        NoTimer \<Rightarrow> (Inr False, s)
      | Timer _ \<Rightarrow> (Inr True, s\<lparr> ws_timer := DeletedTimer \<rparr>)
      | DeletedTimer \<Rightarrow> (Inl UseOfDeletedTimer, s))"

definition gatherSystemInfo :: "win_env \<Rightarrow> resource_info \<Rightarrow> resource_info" where
  "gatherSystemInfo env ri =
     (let i = update_system_info env new_CSystemInfo
      in ri\<lparr> ri_system := Some
           \<lparr> sy_numberOfCores = we_numberOfProcessors env,
             sy_totalVmMemBytes = dwTotalVirtual i, sy_usedVmMemBytes = dwTotalVirtual i - dwAvailVirtual i,
             sy_totalPmMemBytes = dwTotalPhys i, sy_usedPmMemBytes = dwTotalPhys i - dwAvailPhys i \<rparr> \<rparr>)"

text \<open>The name is printed into its array before the process is opened.\<close>

definition gatherProcessStatistics :: "win_process \<Rightarrow> proc_metrics \<Rightarrow> win_error + bool \<times> proc_metrics" where
  "gatherProcessStatistics p m =
     (if length (wp_exeFile p) \<ge> PROCESS_LENGTH then Inl NameOverflow
      else if wp_opens p then
        Inr (True,
          (setWorkingSetSize (ucast (wp_workingSetSize p))
            (setUserCPU (wp_userTime p) (setSysCPU (wp_kernelTime p) m)))
            \<lparr> mName := wp_exeFile p, mPid := wp_pid p, mPrivateMem := wp_privateUsage p \<rparr>)
      else Inr (False, m))"

definition writeProcessStatistics :: "proc_metrics \<Rightarrow> process_info" where
  "writeProcessStatistics m =
     \<lparr> pi_pid = uint (mPid m), pi_name = mName m, pi_timeInUserModeMs = mUserCPU m,
       pi_timeInKernelModeMs = mSysCPU m, pi_vmUsageBytes = ucast (mWss m), pi_threads = [] \<rparr>"

fun process_snapshot :: "win_process list \<Rightarrow> resource_info \<Rightarrow> win_error + resource_info" where
  "process_snapshot [] ri = Inr ri"
| "process_snapshot (p # ps) ri =
     (case gatherProcessStatistics p new_CProcMetrics of
        Inl e \<Rightarrow> Inl e
      | Inr (True, m) \<Rightarrow>
          process_snapshot ps (ri\<lparr> ri_process := ri_process ri @ [writeProcessStatistics m] \<rparr>)
      | Inr (False, m) \<Rightarrow> process_snapshot ps ri)"

text \<open>The exceptions for an invalid handle and for an empty snapshot are caught.\<close>

definition gatherProcessListInfo :: "win_env \<Rightarrow> resource_info \<Rightarrow> win_error + resource_info" where
  "gatherProcessListInfo env ri =
     (case we_snapshot env of
        None \<Rightarrow> Inr ri
      | Some ps \<Rightarrow> process_snapshot ps ri)"

definition onNextUpdateCycleScheduled :: "win_env \<Rightarrow> u64 \<Rightarrow> (win_error, win_scheduler, unit) op" where
  "onNextUpdateCycleScheduled env timestamp s =
     (case gatherProcessListInfo env (gatherSystemInfo env \<lparr> ri_system = None, ri_process = [] \<rparr>) of
        Inl e \<Rightarrow> (Inl e, s)
      | Inr ri \<Rightarrow> (Inr (), s\<lparr> ws_sent := ws_sent s @ [(ri, timestamp)] \<rparr>))"

section \<open>The plugin\<close>

record win_plugin =
  wm_samplingRate :: u32
  wm_scheduler :: "win_scheduler option"

definition new_win_plugin :: win_plugin where
  "new_win_plugin = \<lparr> wm_samplingRate = 1000, wm_scheduler = None \<rparr>"

text \<open>\<open>parseUnsigned\<close> is Poco's number parser; its exception (\<^const>\<open>None\<close>) leaves the function.\<close>

fun win_settings :: "(string \<Rightarrow> u32 option) \<Rightarrow> (string \<times> string) list \<Rightarrow> bool \<Rightarrow> (unit, win_plugin, bool) op" where
  "win_settings parseUnsigned [] result p = (Inr result, p)"
| "win_settings parseUnsigned ((key, val) # cfg) result p =
     (if contains ''samplingRate'' key then
        (case parseUnsigned val of
           None \<Rightarrow> (Inl (), p)
         | Some rate \<Rightarrow>
             (if 50 \<le> rate \<and> rate \<le> 5000
              then win_settings parseUnsigned cfg result (p\<lparr> wm_samplingRate := rate \<rparr>)
              else win_settings parseUnsigned cfg False p))
      else win_settings parseUnsigned cfg result p)"

definition win_setConfig :: "(string \<Rightarrow> u32 option) \<Rightarrow> (string \<times> string) list \<Rightarrow> (unit, win_plugin, bool) op" where
  "win_setConfig parseUnsigned cfg = win_settings parseUnsigned cfg True"

definition win_startPlugin :: "win_plugin \<Rightarrow> bool \<times> win_plugin" where
  "win_startPlugin p =
     (case startMonitoring (wm_samplingRate p) new_win_scheduler of
        (result, s) \<Rightarrow> (result, p\<lparr> wm_scheduler := Some s \<rparr>))"

definition win_stopPlugin :: "(win_error, win_plugin, bool) op" where
  "win_stopPlugin p =
     (case wm_scheduler p of
        None \<Rightarrow> (Inl NullScheduler, p)
      | Some s \<Rightarrow> (case stopMonitoring s of (r, s') \<Rightarrow> (r, p\<lparr> wm_scheduler := Some s' \<rparr>)))"

section \<open>Lemmas\<close>

text \<open>A cycle reports exactly the processes that can be opened, in the order of the snapshot; one name of
  fifty characters or more writes outside its array.\<close>

definition win_process_row :: "win_process \<Rightarrow> process_info" where
  "win_process_row p =
     \<lparr> pi_pid = uint (wp_pid p), pi_name = wp_exeFile p,
       pi_timeInUserModeMs = to_milliseconds (wp_userTime p),
       pi_timeInKernelModeMs = to_milliseconds (wp_kernelTime p),
       pi_vmUsageBytes = ucast (ucast (wp_workingSetSize p) :: u32), pi_threads = [] \<rparr>"

lemma gathered_row:
  "length (wp_exeFile p) < PROCESS_LENGTH \<Longrightarrow> wp_opens p \<Longrightarrow>
     \<exists>m. gatherProcessStatistics p new_CProcMetrics = Inr (True, m) \<and>
         writeProcessStatistics m = win_process_row p"
  by (simp add: gatherProcessStatistics_def writeProcessStatistics_def win_process_row_def
      setSysCPU_def setUserCPU_def setWorkingSetSize_def)

lemma process_snapshot_rows:
  "process_snapshot ps ri =
     (if \<forall>p \<in> set ps. length (wp_exeFile p) < PROCESS_LENGTH
      then Inr (ri\<lparr> ri_process := ri_process ri @ map win_process_row (filter wp_opens ps) \<rparr>)
      else Inl NameOverflow)"
proof (induction ps arbitrary: ri)
  case (Cons p ps)
  consider "length (wp_exeFile p) \<ge> PROCESS_LENGTH"
    | "length (wp_exeFile p) < PROCESS_LENGTH" "wp_opens p"
    | "length (wp_exeFile p) < PROCESS_LENGTH" "\<not> wp_opens p"
    by linarith
  then show ?case
  proof cases
    case 2
    then show ?thesis
      using gathered_row [of p] Cons.IH by auto
  qed (use Cons.IH in \<open>auto simp: gatherProcessStatistics_def\<close>)
qed simp

lemma milliseconds: "uint t < 2 ^ 63 \<Longrightarrow> uint (to_milliseconds t) = uint t div 10000"
proof -
  assume t: "uint t < 2 ^ 63"
  then have "sint t = uint t"
    by (simp add: sint_uint) (rule signed_take_bit_int_eq_self, simp_all add: order_trans [of _ 0])
  moreover have "(uint t div 10000) mod 2 ^ 64 = uint t div 10000"
    using t by (intro mod_pos_pos_trivial) (auto simp: pos_imp_zdiv_nonneg_iff)
  ultimately show ?thesis
    by (simp add: to_milliseconds_def signed_divide_int_def uint_word_of_int take_bit_eq_mod)
qed

text \<open>Starting and stopping once works; a stop before the first start and a second stop do not.\<close>

lemma win_life_cycle:
  "\<exists>p1 p2. win_startPlugin p = (True, p1) \<and> win_stopPlugin p1 = (Inr True, p2) \<and>
     fst (win_stopPlugin p2) = Inl UseOfDeletedTimer"
  "fst (win_stopPlugin new_win_plugin) = Inl NullScheduler"
  by (simp_all add: win_startPlugin_def win_stopPlugin_def startMonitoring_def stopMonitoring_def
      new_win_scheduler_def new_win_plugin_def)

text \<open>The sampling rate stays between the bounds, whatever is configured.\<close>

lemma win_setConfig_rate:
  assumes "50 \<le> wm_samplingRate p" "wm_samplingRate p \<le> 5000"
  shows "let p' = snd (win_setConfig parseUnsigned cfg p) in
    50 \<le> wm_samplingRate p' \<and> wm_samplingRate p' \<le> 5000"
proof -
  have "let p' = snd (win_settings parseUnsigned cfg result p) in
      50 \<le> wm_samplingRate p' \<and> wm_samplingRate p' \<le> 5000" for result
    using assms
    by (induction parseUnsigned cfg result p rule: win_settings.induct) (auto simp: Let_def split: option.split)
  then show ?thesis
    by (simp add: win_setConfig_def)
qed

end
