(* ===== verification/PreloadStorage.thy ===== *)
theory PreloadStorage
  imports Prelude
begin

text \<open>
  The library that is preloaded into observed applications (\<^verbatim>\<open>utils/lib_preload_race/src\<close>): the counters
  per thread (\<^verbatim>\<open>thread_storage.c\<close>), a linked list in memory, and the allocation functions that keep them
  (\<^verbatim>\<open>custom_allocs.c\<close>). Memory is two maps from addresses: the list's nodes, and the headers in front of the
  application's blocks. What the C library's allocator returns is an input, and so is the order in
  which the threads take their steps; the counters are updated atomically in the code.
\<close>

section \<open>Memory\<close>

type_synonym addr = u64
type_synonym thread = nat

abbreviation NULL :: addr where "NULL \<equiv> 0"

record timespec =
  tv_sec :: u64
  tv_nsec :: u64

record thread_storage =
  ts_alloc_count :: u64
  ts_mem_current :: u64
  ts_count_overall :: u64
  ts_mem_peak :: u64
  ts_mem_peak_needs_reset :: bool
  ts_cpu_clock_id :: nat
  ts_last_clock :: timespec
  ts_pthread_id :: u64
  ts_sys_thread_id :: u32
  ts_next :: addr
  ts_thread_alife :: bool

record alloc_header =
  ah_size :: u64
  ah_counters :: addr

text \<open>\<open>pr_counters\<close> is the thread-local variable. The last three fields are the program around the library:
  the threads that run, their identifiers, and the node at which the reporting thread stands.\<close>

record process =
  pr_storages :: "addr \<Rightarrow> thread_storage option"
  pr_g_thread_storage :: addr
  pr_blocks :: "addr \<Rightarrow> alloc_header option"
  pr_counters :: "thread \<Rightarrow> addr"
  pr_live :: "thread set"
  pr_self :: "thread \<Rightarrow> u64"
  pr_it :: addr

datatype mem_error =
    NullDereference
  | UseAfterFree
  | InvalidBlock
  | HeaderOutsideBlock

type_synonym 'a proc_op = "(mem_error, process, 'a) op"

definition start_process :: "thread \<Rightarrow> u64 \<Rightarrow> process" where
  "start_process main_thread self =
     \<lparr> pr_storages = (\<lambda>_. None), pr_g_thread_storage = NULL, pr_blocks = (\<lambda>_. None),
       pr_counters = (\<lambda>_. NULL), pr_live = {main_thread}, pr_self = (\<lambda>_. self), pr_it = NULL \<rparr>"

definition deref :: "addr \<Rightarrow> (thread_storage \<Rightarrow> thread_storage) \<Rightarrow> thread_storage proc_op" where
  "deref p f s =
     (if p = NULL then (Inl NullDereference, s)
      else case pr_storages s p of
             None \<Rightarrow> (Inl UseAfterFree, s)
           | Some t \<Rightarrow> (Inr (f t), s\<lparr> pr_storages := (pr_storages s)(p \<mapsto> f t) \<rparr>))"

section \<open>Thread storages\<close>

text \<open>\<open>p\<close> is what \<^verbatim>\<open>__libc_malloc\<close> returns, \<open>self\<close>, \<open>gettid\<close> and \<open>clock\<close> are the identifiers of the calling thread.\<close>

definition ts_add_thread :: "u64 \<Rightarrow> u32 \<Rightarrow> nat \<Rightarrow> addr \<Rightarrow> addr proc_op" where
  "ts_add_thread self gettid clock p s =
     (if p = NULL then (Inl NullDereference, s)
      else (Inr p, s\<lparr> pr_storages := (pr_storages s)(p \<mapsto>
              \<lparr> ts_alloc_count = 0, ts_mem_current = 0, ts_count_overall = 0, ts_mem_peak = 0,
                ts_mem_peak_needs_reset = False, ts_cpu_clock_id = clock,
                ts_last_clock = \<lparr> tv_sec = 0, tv_nsec = 0 \<rparr>, ts_pthread_id = self,
                ts_sys_thread_id = gettid, ts_next = pr_g_thread_storage s, ts_thread_alife = True \<rparr>),
              pr_g_thread_storage := p \<rparr>))"

definition count_allocate :: "u64 \<Rightarrow> thread_storage \<Rightarrow> thread_storage" where
  "count_allocate n t =
     (let count = ts_mem_current t + n;
          t = t\<lparr> ts_alloc_count := ts_alloc_count t + 1, ts_mem_current := count \<rparr>;
          t = (if ts_mem_peak_needs_reset t \<or> count > ts_mem_peak t
               then t\<lparr> ts_mem_peak_needs_reset := False, ts_mem_peak := count \<rparr> else t)
      in t\<lparr> ts_count_overall := ts_count_overall t + 1 \<rparr>)"

definition count_deallocate :: "u64 \<Rightarrow> thread_storage \<Rightarrow> thread_storage" where
  "count_deallocate n t =
     t\<lparr> ts_alloc_count := ts_alloc_count t - 1, ts_mem_current := ts_mem_current t - n \<rparr>"

definition ts_count_allocate :: "addr \<Rightarrow> u64 \<Rightarrow> unit proc_op" where
  "ts_count_allocate p n = thenE (deref p (count_allocate n)) (returnE ())"

definition ts_count_deallocate :: "addr \<Rightarrow> u64 \<Rightarrow> unit proc_op" where
  "ts_count_deallocate p n = thenE (deref p (count_deallocate n)) (returnE ())"

text \<open>Reading the two values of a report also resets them.\<close>

definition ts_get_alloc_count :: "thread_storage \<Rightarrow> u64 \<times> thread_storage" where
  "ts_get_alloc_count t =
     (ts_count_overall t, t\<lparr> ts_count_overall := ts_count_overall t - ts_count_overall t \<rparr>)"

definition ts_get_memory_peak :: "thread_storage \<Rightarrow> u64 \<times> thread_storage" where
  "ts_get_memory_peak t = (ts_mem_peak t, t\<lparr> ts_mem_peak_needs_reset := True \<rparr>)"

text \<open>The loop that takes a node out of the list runs over the places that hold a pointer: the global
  variable or the \<^verbatim>\<open>next\<close> field of a node, which may be the field of \<^verbatim>\<open>NULL\<close>. It does not stop at the node
  it has taken out.\<close>

datatype link =
    GlobalHead
  | NextOf addr

definition read_link :: "link \<Rightarrow> process \<Rightarrow> mem_error + addr" where
  "read_link l s =
     (case l of
        GlobalHead \<Rightarrow> Inr (pr_g_thread_storage s)
      | NextOf p \<Rightarrow>
          (if p = NULL then Inl NullDereference
           else case pr_storages s p of None \<Rightarrow> Inl UseAfterFree | Some t \<Rightarrow> Inr (ts_next t)))"

definition write_link :: "link \<Rightarrow> addr \<Rightarrow> unit proc_op" where
  "write_link l v =
     (case l of
        GlobalHead \<Rightarrow> modifyE (\<lambda>s. s\<lparr> pr_g_thread_storage := v \<rparr>)
      | NextOf p \<Rightarrow> thenE (deref p (\<lambda>t. t\<lparr> ts_next := v \<rparr>)) (returnE ()))"

partial_function (option) unlink ::
    "addr \<Rightarrow> link \<Rightarrow> process \<Rightarrow> ((mem_error + unit) \<times> process) option" where
  "unlink current l s =
     (case read_link l s of
        Inl e \<Rightarrow> Some (Inl e, s)
      | Inr p \<Rightarrow>
          (if p = NULL then Some (Inr (), s)
           else if p = current then
             (case pr_storages s p of
                None \<Rightarrow> Some (Inl UseAfterFree, s)
              | Some t \<Rightarrow>
                  (case write_link l (ts_next t) (s\<lparr> pr_storages := (pr_storages s)(p := None) \<rparr>) of
                     (Inl e, s') \<Rightarrow> Some (Inl e, s')
                   | (Inr _, s') \<Rightarrow> unlink current (NextOf (ts_next t)) s'))
           else unlink current (NextOf p) s))"

text \<open>\<open>alive\<close> is what \<^verbatim>\<open>pthread_kill(id, 0)\<close> says of an identifier.\<close>

definition mark_alive :: "(u64 \<Rightarrow> bool) \<Rightarrow> addr \<Rightarrow> addr proc_op" where
  "mark_alive alive nxt =
     (if nxt = NULL then returnE nxt
      else thenE (deref nxt (\<lambda>t. t\<lparr> ts_thread_alife := alive (ts_pthread_id t) \<rparr>)) (returnE nxt))"

definition ts_get_next :: "(u64 \<Rightarrow> bool) \<Rightarrow> addr \<Rightarrow> process \<Rightarrow> ((mem_error + addr) \<times> process) option" where
  "ts_get_next alive current s =
     (if current = NULL then Some (mark_alive alive (pr_g_thread_storage s) s)
      else case pr_storages s current of
             None \<Rightarrow> Some (Inl UseAfterFree, s)
           | Some t \<Rightarrow>
               (if \<not> ts_thread_alife t \<and> ts_alloc_count t = 0 then
                  (case unlink current GlobalHead s of
                     None \<Rightarrow> None
                   | Some (Inl e, s') \<Rightarrow> Some (Inl e, s')
                   | Some (Inr _, s') \<Rightarrow> Some (mark_alive alive (ts_next t) s'))
                else Some (mark_alive alive (ts_next t) s)))"

section \<open>Allocation\<close>

abbreviation header_size :: u64 where "header_size \<equiv> 16"

text \<open>What the calls of a thread find in its environment: the identifiers, and the address
  \<^verbatim>\<open>__libc_malloc\<close> returns when its storage has to be made.\<close>

record call_env =
  ce_thread :: thread
  ce_gettid :: u32
  ce_clock :: nat
  ce_storage :: addr

definition get_thread_storage :: "call_env \<Rightarrow> addr proc_op" where
  "get_thread_storage ce s =
     (let t = ce_thread ce in
      if pr_counters s t = NULL then
        bindE (ts_add_thread (pr_self s t) (ce_gettid ce) (ce_clock ce) (ce_storage ce))
          (\<lambda>p. thenE (modifyE (\<lambda>s. s\<lparr> pr_counters := (pr_counters s)(t := p) \<rparr>)) (returnE p)) s
      else (Inr (pr_counters s t), s))"

text \<open>The header is written without a look at the pointer, into a block whose size may have wrapped.\<close>

definition write_header :: "addr \<Rightarrow> u64 \<Rightarrow> addr \<Rightarrow> addr proc_op" where
  "write_header ptr n counters s =
     (if ptr = NULL then (Inl NullDereference, s)
      else if n + header_size < header_size then (Inl HeaderOutsideBlock, s)
      else (Inr (ptr + header_size),
            s\<lparr> pr_blocks := (pr_blocks s)(ptr \<mapsto> \<lparr> ah_size = n, ah_counters = counters \<rparr>) \<rparr>))"

text \<open>\<open>ptr\<close> is what the C library's function returns.\<close>

definition preload_malloc :: "call_env \<Rightarrow> u64 \<Rightarrow> addr \<Rightarrow> addr proc_op" where
  "preload_malloc ce n ptr =
     bindE (get_thread_storage ce) (\<lambda>c. thenE (ts_count_allocate c n) (write_header ptr n c))"

definition preload_calloc :: "call_env \<Rightarrow> u64 \<Rightarrow> u64 \<Rightarrow> addr \<Rightarrow> addr proc_op" where
  "preload_calloc ce nmem item_size ptr =
     (let n = nmem * item_size
      in bindE (get_thread_storage ce) (\<lambda>c. thenE (ts_count_allocate c n) (write_header ptr n c)))"

definition discount_block :: "addr \<Rightarrow> unit proc_op" where
  "discount_block block s =
     (case pr_blocks s block of
        None \<Rightarrow> (Inl InvalidBlock, s)
      | Some h \<Rightarrow> ts_count_deallocate (ah_counters h) (ah_size h) s)"

definition drop_block :: "addr \<Rightarrow> unit proc_op" where
  "drop_block block = modifyE (\<lambda>s. s\<lparr> pr_blocks := (pr_blocks s)(block := None) \<rparr>)"

text \<open>\<^verbatim>\<open>__libc_realloc\<close> gives the old block up when it succeeds.\<close>

definition preload_realloc :: "call_env \<Rightarrow> addr \<Rightarrow> u64 \<Rightarrow> addr \<Rightarrow> addr proc_op" where
  "preload_realloc ce cur n ptr =
     thenE (if cur \<noteq> NULL then discount_block (cur - header_size) else returnE ())
       (bindE (get_thread_storage ce) (\<lambda>c.
          thenE (ts_count_allocate c n)
            (thenE (if cur \<noteq> NULL \<and> ptr \<noteq> NULL then drop_block (cur - header_size) else returnE ())
              (write_header ptr n c))))"

definition preload_free :: "addr \<Rightarrow> unit proc_op" where
  "preload_free ptr =
     (if ptr \<noteq> NULL
      then thenE (discount_block (ptr - header_size)) (drop_block (ptr - header_size))
      else returnE ())"

section \<open>Well-formed processes\<close>

text \<open>The pointers from \<open>p\<close> on are the nodes \<open>xs\<close>.\<close>

fun chain :: "(addr \<Rightarrow> thread_storage option) \<Rightarrow> addr \<Rightarrow> addr list \<Rightarrow> bool" where
  "chain m p [] = (p = NULL)"
| "chain m p (x # xs) = (p = x \<and> x \<noteq> NULL \<and> (\<exists>t. m x = Some t \<and> chain m (ts_next t) xs))"

definition owned :: "process \<Rightarrow> addr \<Rightarrow> addr set" where
  "owned s p = {b. \<exists>h. pr_blocks s b = Some h \<and> ah_counters h = p}"

definition block_size :: "process \<Rightarrow> addr \<Rightarrow> u64" where
  "block_size s b = (case pr_blocks s b of None \<Rightarrow> 0 | Some h \<Rightarrow> ah_size h)"

text \<open>The counters of a storage are the number and the size of its blocks, but for a difference \<open>d\<close> in the
  middle of an operation.\<close>

type_synonym difference = "addr \<Rightarrow> u64 \<times> u64"

definition no_difference :: difference where
  "no_difference = (\<lambda>_. (0, 0))"

definition differ :: "addr \<Rightarrow> u64 \<Rightarrow> u64 \<Rightarrow> difference \<Rightarrow> difference" where
  "differ p a b d = d(p := (fst (d p) + a, snd (d p) + b))"

definition accounted :: "difference \<Rightarrow> process \<Rightarrow> bool" where
  "accounted d s \<longleftrightarrow>
     (\<forall>p t. pr_storages s p = Some t \<longrightarrow>
        ts_alloc_count t = of_nat (card (owned s p)) + fst (d p) \<and>
        ts_mem_current t = (\<Sum>b \<in> owned s p. block_size s b) + snd (d p)) \<and>
     (\<forall>p. pr_storages s p = None \<longrightarrow> d p = (0, 0))"

definition shaped :: "process \<Rightarrow> bool" where
  "shaped s \<longleftrightarrow>
     (\<exists>xs. chain (pr_storages s) (pr_g_thread_storage s) xs \<and> distinct xs \<and> dom (pr_storages s) = set xs) \<and>
     (\<forall>b h. pr_blocks s b = Some h \<longrightarrow> b \<noteq> NULL \<and> pr_storages s (ah_counters h) \<noteq> None) \<and>
     (\<forall>t \<in> pr_live s. pr_counters s t \<noteq> NULL \<longrightarrow>
        (\<exists>ts. pr_storages s (pr_counters s t) = Some ts \<and> ts_pthread_id ts = pr_self s t \<and>
              ts_thread_alife ts)) \<and>
     (pr_it s \<noteq> NULL \<longrightarrow> pr_storages s (pr_it s) \<noteq> None)"

definition process_ok :: "difference \<Rightarrow> process \<Rightarrow> bool" where
  "process_ok d s \<longleftrightarrow> shaped s \<and> accounted d s"

section \<open>Lemmas on lists of nodes\<close>

lemma chain_nodes: "chain m p xs \<Longrightarrow> set xs \<subseteq> dom m \<and> NULL \<notin> set xs"
  by (induction xs arbitrary: p) auto

lemma chain_other: "x \<notin> set xs \<Longrightarrow> chain (m(x := v)) p xs = chain m p xs"
  by (induction xs arbitrary: p) auto

lemma chain_same_next:
  "m x = Some t \<Longrightarrow> ts_next t' = ts_next t \<Longrightarrow> chain (m(x \<mapsto> t')) p xs = chain m p xs"
  by (induction xs arbitrary: p) auto

lemma chain_hd: "chain m p xs \<Longrightarrow> p = (if xs = [] then NULL else hd xs)"
  by (cases xs) auto

lemma chain_unique: "chain m p xs \<Longrightarrow> chain m p ys \<Longrightarrow> xs = ys"
proof (induction xs arbitrary: p ys)
  case Nil
  then show ?case
    by (cases ys) auto
next
  case (Cons x xs)
  then show ?case
    by (cases ys) auto
qed

lemma chain_append:
  "chain m p (xs @ x # ys) \<Longrightarrow> \<exists>t. m x = Some t \<and> chain m (ts_next t) ys"
  by (induction xs arbitrary: p) auto

lemma shaped_NULL: "shaped s \<Longrightarrow> pr_storages s NULL = None"
  unfolding shaped_def using chain_nodes by (metis domIff)

section \<open>Lemmas on the counters\<close>

lemma card_owned_zero:
  assumes "pr_blocks s NULL = None" "(of_nat (card (owned s p)) :: u64) = 0"
  shows "owned s p = {}"
proof -
  have "NULL \<notin> owned s p"
    using assms(1) by (simp add: owned_def)
  then have "owned s p \<subset> UNIV"
    by auto
  then have "card (owned s p) < 2 ^ 64"
    using psubset_card_mono [of "UNIV :: addr set" "owned s p"] by (simp add: card_word)
  moreover have "2 ^ 64 dvd card (owned s p)"
    using assms(2) by (simp add: word_of_nat_eq_0_iff)
  ultimately have "card (owned s p) = 0"
    using dvd_imp_le [of "2 ^ 64" "card (owned s p)"] by linarith
  then show ?thesis
    by simp
qed

lemma deref_ok:
  assumes "pr_storages s p = Some t" "p \<noteq> NULL"
  shows "deref p f s = (Inr (f t), s\<lparr> pr_storages := (pr_storages s)(p \<mapsto> f t) \<rparr>)"
  using assms by (simp add: deref_def)

text \<open>Updates that leave alone what the list and the threads need.\<close>

definition counter_update :: "(thread_storage \<Rightarrow> thread_storage) \<Rightarrow> bool" where
  "counter_update f \<longleftrightarrow>
     (\<forall>t. ts_next (f t) = ts_next t \<and> ts_pthread_id (f t) = ts_pthread_id t \<and>
          ts_thread_alife (f t) = ts_thread_alife t)"

lemma counter_updates [simp, intro]:
  "counter_update (count_allocate n)" "counter_update (count_deallocate n)"
  by (simp_all add: counter_update_def count_allocate_def count_deallocate_def Let_def)

lemma shaped_update:
  assumes "shaped s" "pr_storages s p = Some t" "counter_update f"
  shows "shaped (s\<lparr> pr_storages := (pr_storages s)(p \<mapsto> f t) \<rparr>)"
proof -
  have n: "ts_next (f t) = ts_next t"
    using assms(3) by (simp add: counter_update_def)
  obtain xs where "chain (pr_storages s) (pr_g_thread_storage s) xs" "distinct xs"
    and d: "dom (pr_storages s) = set xs"
    using assms(1) by (auto simp: shaped_def)
  then have "chain ((pr_storages s)(p \<mapsto> f t)) (pr_g_thread_storage s) xs \<and> distinct xs \<and>
      dom ((pr_storages s)(p \<mapsto> f t)) = set xs"
    using chain_same_next [of "pr_storages s" p t "f t", OF assms(2) n] assms(2) by auto
  then show ?thesis
    using assms unfolding shaped_def counter_update_def by auto
qed

lemma owned_storages [simp]: "owned (s\<lparr> pr_storages := m \<rparr>) p = owned s p"
  "block_size (s\<lparr> pr_storages := m \<rparr>) b = block_size s b"
  by (simp_all add: owned_def block_size_def)

lemma accounted_update:
  assumes "accounted d s" "pr_storages s p = Some t"
    and "ts_alloc_count t' = ts_alloc_count t + a" "ts_mem_current t' = ts_mem_current t + b"
  shows "accounted (differ p a b d) (s\<lparr> pr_storages := (pr_storages s)(p \<mapsto> t') \<rparr>)"
  using assms by (auto simp: accounted_def differ_def)

lemma count_allocate_ok:
  assumes "process_ok d s" "pr_storages s p = Some t"
  shows "\<exists>s'. ts_count_allocate p n s = (Inr (), s') \<and> process_ok (differ p 1 n d) s' \<and>
    dom (pr_storages s') = dom (pr_storages s) \<and> pr_blocks s' = pr_blocks s \<and> pr_live s' = pr_live s"
proof -
  have "p \<noteq> NULL"
    using assms shaped_NULL by (auto simp: process_ok_def)
  then have "ts_count_allocate p n s =
      (Inr (), s\<lparr> pr_storages := (pr_storages s)(p \<mapsto> count_allocate n t) \<rparr>)"
    using assms(2) by (simp add: ts_count_allocate_def deref_ok)
  moreover have "accounted (differ p 1 n d) (s\<lparr> pr_storages := (pr_storages s)(p \<mapsto> count_allocate n t) \<rparr>)"
    using assms by (intro accounted_update [where t = t]) (auto simp: process_ok_def count_allocate_def Let_def)
  ultimately show ?thesis
    using assms shaped_update [of s p t "count_allocate n"] by (auto simp: process_ok_def)
qed

lemma count_deallocate_ok:
  assumes "process_ok d s" "pr_storages s p = Some t"
  shows "\<exists>s'. ts_count_deallocate p n s = (Inr (), s') \<and> process_ok (differ p (- 1) (- n) d) s' \<and>
    dom (pr_storages s') = dom (pr_storages s) \<and> pr_blocks s' = pr_blocks s \<and> pr_live s' = pr_live s"
proof -
  have "p \<noteq> NULL"
    using assms shaped_NULL by (auto simp: process_ok_def)
  then have "ts_count_deallocate p n s =
      (Inr (), s\<lparr> pr_storages := (pr_storages s)(p \<mapsto> count_deallocate n t) \<rparr>)"
    using assms(2) by (simp add: ts_count_deallocate_def deref_ok)
  moreover have "accounted (differ p (- 1) (- n) d) (s\<lparr> pr_storages := (pr_storages s)(p \<mapsto> count_deallocate n t) \<rparr>)"
    using assms by (intro accounted_update [where t = t]) (auto simp: process_ok_def count_deallocate_def)
  ultimately show ?thesis
    using assms shaped_update [of s p t "count_deallocate n"] by (auto simp: process_ok_def)
qed

lemma write_header_ok:
  assumes "process_ok d s" "pr_storages s c \<noteq> None" "ptr \<noteq> NULL" "pr_blocks s ptr = None"
    and "\<not> n + header_size < header_size"
  shows "\<exists>s'. write_header ptr n c s = (Inr (ptr + header_size), s') \<and>
    process_ok (differ c (- 1) (- n) d) s' \<and> pr_live s' = pr_live s"
proof -
  define s' where "s' = s\<lparr> pr_blocks := (pr_blocks s)(ptr \<mapsto> \<lparr> ah_size = n, ah_counters = c \<rparr>) \<rparr>"
  have fresh: "ptr \<notin> owned s p" for p
    using assms(4) by (simp add: owned_def)
  have o: "owned s' p = (if p = c then insert ptr (owned s p) else owned s p)" for p
    using assms(4) by (auto simp: owned_def s'_def)
  have b: "block_size s' b = (if b = ptr then n else block_size s b)" for b
    by (simp add: block_size_def s'_def)
  have sum: "(\<Sum>b \<in> owned s p. block_size s' b) = (\<Sum>b \<in> owned s p. block_size s b)" for p
    using fresh by (intro sum.cong) (auto simp: b)
  have z: "block_size s' ptr = n"
    by (simp add: b)
  have "accounted (differ c (- 1) (- n) d) s'"
    unfolding accounted_def
  proof (intro conjI allI impI)
    fix p t
    assume "pr_storages s' p = Some t"
    then have "ts_alloc_count t = of_nat (card (owned s p)) + fst (d p)"
      and "ts_mem_current t = (\<Sum>b \<in> owned s p. block_size s b) + snd (d p)"
      using assms(1) by (simp_all add: process_ok_def accounted_def s'_def)
    then show "ts_alloc_count t = of_nat (card (owned s' p)) + fst (differ c (- 1) (- n) d p)"
      and "ts_mem_current t = (\<Sum>b \<in> owned s' p. block_size s' b) + snd (differ c (- 1) (- n) d p)"
      using fresh by (simp_all add: o z sum differ_def)
  next
    fix p
    assume "pr_storages s' p = None"
    then show "differ c (- 1) (- n) d p = (0, 0)"
      using assms(1,2) by (auto simp: process_ok_def accounted_def s'_def differ_def)
  qed
  moreover have "shaped s'"
    using assms(1,2,3) unfolding process_ok_def shaped_def s'_def by auto
  ultimately show ?thesis
    using assms(3,5) by (simp add: write_header_def process_ok_def s'_def)
qed

lemma drop_block_ok:
  assumes "process_ok d s" "pr_blocks s block = Some h"
  shows "\<exists>s'. drop_block block s = (Inr (), s') \<and>
    process_ok (differ (ah_counters h) 1 (ah_size h) d) s' \<and> pr_storages s' = pr_storages s \<and>
    pr_blocks s' = (pr_blocks s)(block := None) \<and> pr_live s' = pr_live s"
proof -
  define s' where "s' = s\<lparr> pr_blocks := (pr_blocks s)(block := None) \<rparr>"
  have gone: "block \<notin> owned s' p" for p
    by (simp add: owned_def s'_def)
  have o: "owned s p = (if p = ah_counters h then insert block (owned s' p) else owned s' p)" for p
    using assms(2) by (auto simp: owned_def s'_def)
  have sum: "(\<Sum>b \<in> owned s' p. block_size s b) = (\<Sum>b \<in> owned s' p. block_size s' b)" for p
    using gone by (intro sum.cong) (auto simp: block_size_def s'_def owned_def)
  have z: "block_size s block = ah_size h"
    using assms(2) by (simp add: block_size_def)
  have "accounted (differ (ah_counters h) 1 (ah_size h) d) s'"
    unfolding accounted_def
  proof (intro conjI allI impI)
    fix p t
    assume "pr_storages s' p = Some t"
    then have "ts_alloc_count t = of_nat (card (owned s p)) + fst (d p)"
      and "ts_mem_current t = (\<Sum>b \<in> owned s p. block_size s b) + snd (d p)"
      using assms(1) by (simp_all add: process_ok_def accounted_def s'_def)
    then show "ts_alloc_count t = of_nat (card (owned s' p)) + fst (differ (ah_counters h) 1 (ah_size h) d p)"
      and "ts_mem_current t = (\<Sum>b \<in> owned s' p. block_size s' b) + snd (differ (ah_counters h) 1 (ah_size h) d p)"
      using gone by (simp_all add: o z sum differ_def)
  next
    fix p
    assume p: "pr_storages s' p = None"
    have "pr_storages s (ah_counters h) \<noteq> None"
      using assms by (auto simp: process_ok_def shaped_def)
    then show "differ (ah_counters h) 1 (ah_size h) d p = (0, 0)"
      using p assms(1) by (auto simp: process_ok_def accounted_def s'_def differ_def)
  qed
  moreover have "shaped s'"
    using assms(1) unfolding process_ok_def shaped_def s'_def by auto
  ultimately show ?thesis
    by (simp add: drop_block_def process_ok_def s'_def)
qed

text \<open>A storage that the C library's allocator has just made is none in use.\<close>

definition fresh_storage :: "call_env \<Rightarrow> process \<Rightarrow> bool" where
  "fresh_storage ce s \<longleftrightarrow> pr_storages s (ce_storage ce) = None"

lemma get_thread_storage_ok:
  assumes "process_ok d s" "ce_thread ce \<in> pr_live s" "fresh_storage ce s"
  shows "(\<exists>c s'. get_thread_storage ce s = (Inr c, s') \<and> process_ok d s' \<and> pr_storages s' c \<noteq> None \<and>
      dom (pr_storages s) \<subseteq> dom (pr_storages s') \<and> pr_blocks s' = pr_blocks s \<and> pr_live s' = pr_live s) \<or>
    (ce_storage ce = NULL \<and> get_thread_storage ce s = (Inl NullDereference, s))"
proof (cases "pr_counters s (ce_thread ce) = NULL")
  case False
  then show ?thesis
    using assms(1,2) by (auto simp: get_thread_storage_def Let_def process_ok_def shaped_def)
next
  case none: True
  let ?p = "ce_storage ce"
  show ?thesis
  proof (cases "?p = NULL")
    case True
    then show ?thesis
      using none by (simp add: get_thread_storage_def Let_def ts_add_thread_def bindE_def)
  next
    case False
    define t where "t = \<lparr> ts_alloc_count = 0, ts_mem_current = 0, ts_count_overall = 0, ts_mem_peak = 0,
        ts_mem_peak_needs_reset = False, ts_cpu_clock_id = ce_clock ce,
        ts_last_clock = \<lparr> tv_sec = 0, tv_nsec = 0 \<rparr>, ts_pthread_id = pr_self s (ce_thread ce),
        ts_sys_thread_id = ce_gettid ce, ts_next = pr_g_thread_storage s, ts_thread_alife = True \<rparr>"
    define s' where "s' = s\<lparr> pr_storages := (pr_storages s)(?p \<mapsto> t), pr_g_thread_storage := ?p,
        pr_counters := (pr_counters s)(ce_thread ce := ?p) \<rparr>"
    have fresh: "pr_storages s ?p = None"
      using assms(3) by (simp add: fresh_storage_def)
    obtain xs where xs: "chain (pr_storages s) (pr_g_thread_storage s) xs" "distinct xs"
      "dom (pr_storages s) = set xs"
      using assms(1) by (auto simp: process_ok_def shaped_def)
    have new: "?p \<notin> set xs"
      using fresh xs(3) by auto
    then have "chain (pr_storages s') (pr_g_thread_storage s') (?p # xs)"
      using xs(1) False by (simp add: s'_def t_def chain_other)
    then have "\<exists>ys. chain (pr_storages s') (pr_g_thread_storage s') ys \<and> distinct ys \<and>
        dom (pr_storages s') = set ys"
      using xs new by (intro exI [of _ "?p # xs"]) (auto simp: s'_def)
    moreover have "\<forall>b h. pr_blocks s' b = Some h \<longrightarrow> b \<noteq> NULL \<and> pr_storages s' (ah_counters h) \<noteq> None"
      using assms(1) unfolding process_ok_def shaped_def s'_def by auto
    moreover have "\<forall>u \<in> pr_live s'. pr_counters s' u \<noteq> NULL \<longrightarrow>
        (\<exists>ts. pr_storages s' (pr_counters s' u) = Some ts \<and> ts_pthread_id ts = pr_self s' u \<and> ts_thread_alife ts)"
      using assms(1) fresh unfolding process_ok_def shaped_def s'_def t_def by auto
    moreover have "pr_it s' \<noteq> NULL \<longrightarrow> pr_storages s' (pr_it s') \<noteq> None"
      using assms(1) unfolding process_ok_def shaped_def s'_def by auto
    ultimately have shaped: "shaped s'"
      unfolding shaped_def by blast
    have "owned s' q = owned s q" "block_size s' b = block_size s b" for q b
      by (simp_all add: owned_def block_size_def s'_def)
    moreover have "pr_storages s (ah_counters h) \<noteq> None" if "pr_blocks s b = Some h" for b h
      using assms(1) that by (auto simp: process_ok_def shaped_def)
    then have "owned s ?p = {}"
      using fresh by (fastforce simp: owned_def)
    ultimately have "accounted d s'"
      using assms(1) fresh unfolding process_ok_def accounted_def by (auto simp: s'_def t_def)
    moreover have "get_thread_storage ce s = (Inr ?p, s')"
      using none False by (simp add: get_thread_storage_def Let_def ts_add_thread_def bindE_def thenE_def
          s'_def t_def)
    ultimately show ?thesis
      using shaped by (auto simp: process_ok_def s'_def)
  qed
qed

lemma differ_zero: "differ c (- 1) (- n) (differ c 1 n d) = d"
  by (auto simp: differ_def)

lemma differ_commute: "differ p a b (differ q a' b' d) = differ q a' b' (differ p a b d)"
  by (cases "p = q") (simp_all add: differ_def fun_eq_iff add.assoc add.left_commute add.commute)

lemma differ_back: "differ c 1 n (differ c (- 1) (- n) d) = d"
  by (auto simp: differ_def)

text \<open>What can go wrong: the allocator has no memory, or the size of the block wraps.\<close>

definition memory_fails :: "call_env \<Rightarrow> u64 \<Rightarrow> addr \<Rightarrow> bool" where
  "memory_fails ce n ptr \<longleftrightarrow> ce_storage ce = NULL \<or> ptr = NULL \<or> n + header_size < header_size"

definition keeps_process :: "bool \<Rightarrow> process \<Rightarrow> (mem_error + 'a) \<times> process \<Rightarrow> bool" where
  "keeps_process may_fail s r \<longleftrightarrow>
     (case r of
        (Inl e, _) \<Rightarrow> may_fail \<and> e \<in> {NullDereference, HeaderOutsideBlock}
      | (Inr _, s') \<Rightarrow> process_ok no_difference s' \<and> pr_live s' = pr_live s)"

lemma write_header_keeps:
  assumes "process_ok (differ c 1 n no_difference) s1" "pr_live s1 = pr_live s" "pr_storages s1 c \<noteq> None"
    and "ptr \<noteq> NULL \<Longrightarrow> pr_blocks s1 ptr = None"
  shows "keeps_process (memory_fails ce n ptr) s (write_header ptr n c s1)"
proof (cases "ptr = NULL \<or> n + header_size < header_size")
  case True
  then show ?thesis
    by (auto simp: write_header_def keeps_process_def memory_fails_def)
next
  case False
  then obtain s' where "write_header ptr n c s1 = (Inr (ptr + header_size), s')" "pr_live s' = pr_live s1"
    "process_ok (differ c (- 1) (- n) (differ c 1 n no_difference)) s'"
    using write_header_ok [OF assms(1,3), of ptr n] assms(4) by auto
  then show ?thesis
    using assms(2) by (simp add: keeps_process_def differ_zero)
qed

lemma preload_malloc_keeps:
  assumes "process_ok no_difference s" "ce_thread ce \<in> pr_live s" "fresh_storage ce s"
    and "ptr \<noteq> NULL \<Longrightarrow> pr_blocks s ptr = None"
  shows "keeps_process (memory_fails ce n ptr) s (preload_malloc ce n ptr s)"
  using get_thread_storage_ok [OF assms(1-3)]
proof (elim disjE exE conjE)
  assume "ce_storage ce = NULL" "get_thread_storage ce s = (Inl NullDereference, s)"
  then show ?thesis
    by (simp add: preload_malloc_def keeps_process_def memory_fails_def)
next
  fix c s1
  assume g: "get_thread_storage ce s = (Inr c, s1)" "process_ok no_difference s1" "pr_storages s1 c \<noteq> None"
    "pr_blocks s1 = pr_blocks s" "pr_live s1 = pr_live s"
  then obtain s2 where c: "ts_count_allocate c n s1 = (Inr (), s2)" "process_ok (differ c 1 n no_difference) s2"
    and d: "dom (pr_storages s2) = dom (pr_storages s1)" "pr_blocks s2 = pr_blocks s1" "pr_live s2 = pr_live s1"
    using count_allocate_ok [of no_difference s1 c] by blast
  have "keeps_process (memory_fails ce n ptr) s (write_header ptr n c s2)"
    using write_header_keeps [OF c(2)] d g(3-5) assms(4) by (metis domIff)
  then show ?thesis
    using g(1) c(1) by (simp add: preload_malloc_def)
qed

lemma preload_calloc_malloc: "preload_calloc ce nmem item_size ptr = preload_malloc ce (nmem * item_size) ptr"
  by (simp add: preload_calloc_def preload_malloc_def Let_def)

lemma shaped_owner: "shaped s \<Longrightarrow> pr_blocks s b = Some h \<Longrightarrow> \<exists>t. pr_storages s (ah_counters h) = Some t"
  unfolding shaped_def by blast

lemma discount_block_ok:
  assumes "process_ok no_difference s" "pr_blocks s block = Some h"
  shows "\<exists>s'. discount_block block s = (Inr (), s') \<and>
    process_ok (differ (ah_counters h) (- 1) (- ah_size h) no_difference) s' \<and>
    dom (pr_storages s') = dom (pr_storages s) \<and> pr_blocks s' = pr_blocks s \<and> pr_live s' = pr_live s"
proof -
  obtain t where "pr_storages s (ah_counters h) = Some t"
    using assms shaped_owner [of s block h] by (auto simp: process_ok_def)
  then show ?thesis
    using count_deallocate_ok [OF assms(1)] assms(2) by (simp add: discount_block_def)
qed

lemma preload_free_keeps:
  assumes "process_ok no_difference s" "ptr \<noteq> NULL \<Longrightarrow> pr_blocks s (ptr - header_size) \<noteq> None"
  shows "keeps_process False s (preload_free ptr s)"
proof (cases "ptr = NULL")
  case True
  then show ?thesis
    using assms(1) by (simp add: preload_free_def keeps_process_def)
next
  case False
  then obtain h where h: "pr_blocks s (ptr - header_size) = Some h"
    using assms(2) by auto
  obtain s1 where d: "discount_block (ptr - header_size) s = (Inr (), s1)" "pr_blocks s1 = pr_blocks s"
    "process_ok (differ (ah_counters h) (- 1) (- ah_size h) no_difference) s1" "pr_live s1 = pr_live s"
    using discount_block_ok [OF assms(1) h] by blast
  then obtain s2 where "drop_block (ptr - header_size) s1 = (Inr (), s2)" "pr_live s2 = pr_live s"
    "process_ok no_difference s2"
    using drop_block_ok [OF d(3), of "ptr - header_size" h] h by (auto simp: differ_back)
  then show ?thesis
    using False d(1) by (simp add: preload_free_def keeps_process_def)
qed

lemma fresh_storage_dom: "dom (pr_storages s') = dom (pr_storages s) \<Longrightarrow> fresh_storage ce s' = fresh_storage ce s"
  by (metis domIff fresh_storage_def)

lemma preload_realloc_keeps:
  assumes "process_ok no_difference s" "ce_thread ce \<in> pr_live s" "fresh_storage ce s"
    and "cur \<noteq> NULL \<Longrightarrow> pr_blocks s (cur - header_size) \<noteq> None"
    and "ptr \<noteq> NULL \<Longrightarrow> pr_blocks s ptr = None \<or> (cur \<noteq> NULL \<and> ptr = cur - header_size)"
  shows "keeps_process (memory_fails ce n ptr) s (preload_realloc ce cur n ptr s)"
proof (cases "cur = NULL")
  case True
  then have "preload_realloc ce cur n ptr s = preload_malloc ce n ptr s"
    by (simp add: preload_realloc_def preload_malloc_def thenE_def bindE_def split: prod.split sum.split)
  then show ?thesis
    using preload_malloc_keeps [OF assms(1-3)] assms(5) True by simp
next
  case cur: False
  let ?b = "cur - header_size"
  obtain h where h: "pr_blocks s ?b = Some h"
    using assms(4) cur by auto
  let ?d = "differ (ah_counters h) (- 1) (- ah_size h) no_difference"
  obtain s1 where d: "discount_block ?b s = (Inr (), s1)" "process_ok ?d s1"
    "dom (pr_storages s1) = dom (pr_storages s)" "pr_blocks s1 = pr_blocks s" "pr_live s1 = pr_live s"
    using discount_block_ok [OF assms(1) h] by blast
  have rest: "preload_realloc ce cur n ptr s = bindE (get_thread_storage ce) (\<lambda>c. thenE (ts_count_allocate c n)
      (thenE (if ptr \<noteq> NULL then drop_block ?b else returnE ()) (write_header ptr n c))) s1"
    using d(1) cur by (simp add: preload_realloc_def)
  have "ce_thread ce \<in> pr_live s1" "fresh_storage ce s1"
    using assms(2,3) d(5) fresh_storage_dom [OF d(3)] by simp_all
  from get_thread_storage_ok [OF d(2) this] show ?thesis
  proof (elim disjE exE conjE)
    assume "ce_storage ce = NULL" "get_thread_storage ce s1 = (Inl NullDereference, s1)"
    then show ?thesis
      unfolding rest by (simp add: keeps_process_def memory_fails_def)
  next
    fix c s2
    assume g: "get_thread_storage ce s1 = (Inr c, s2)" "process_ok ?d s2" "pr_storages s2 c \<noteq> None"
      "pr_blocks s2 = pr_blocks s1" "pr_live s2 = pr_live s1"
    then obtain s3 where a: "ts_count_allocate c n s2 = (Inr (), s3)" "process_ok (differ c 1 n ?d) s3"
      and e: "dom (pr_storages s3) = dom (pr_storages s2)" "pr_blocks s3 = pr_blocks s2" "pr_live s3 = pr_live s2"
      using count_allocate_ok [of ?d s2 c] by blast
    show ?thesis
    proof (cases "ptr = NULL")
      case True
      then show ?thesis
        unfolding rest using g(1) a(1) by (simp add: write_header_def keeps_process_def memory_fails_def)
    next
      case False
      have b: "pr_blocks s3 ?b = Some h"
        using e(2) g(4) d(4) h by simp
      obtain s4 where f: "drop_block ?b s3 = (Inr (), s4)" "pr_storages s4 = pr_storages s3"
        "pr_blocks s4 = (pr_blocks s3)(?b := None)" "pr_live s4 = pr_live s3"
        "process_ok (differ (ah_counters h) 1 (ah_size h) (differ c 1 n ?d)) s4"
        using drop_block_ok [OF a(2) b] by blast
      have "differ (ah_counters h) 1 (ah_size h) (differ c 1 n ?d) = differ c 1 n no_difference"
        by (subst differ_commute) (simp add: differ_back)
      moreover have "pr_blocks s4 ptr = None"
        using assms(5) False f(3) e(2) g(4) d(4) by auto
      moreover have "pr_storages s4 c \<noteq> None"
        using f(2) e(1) g(3) by (metis domIff)
      ultimately have "keeps_process (memory_fails ce n ptr) s (write_header ptr n c s4)"
        using write_header_keeps [of c n s4 s ptr ce] f(4,5) e(3) g(5) d(5) by simp
      then show ?thesis
        unfolding rest using g(1) a(1) f(1) False by simp
    qed
  qed
qed

section \<open>Taking a node out of the list\<close>

lemma unlink_absent:
  assumes "chain (pr_storages s) v ys" "read_link l s = Inr v" "current \<notin> set ys"
  shows "unlink current l s = Some (Inr (), s)"
  using assms
proof (induction ys arbitrary: l v)
  case Nil
  then show ?case
    by (simp add: unlink.simps [of current l])
next
  case (Cons y ys)
  then obtain t where "pr_storages s y = Some t" "chain (pr_storages s) (ts_next t) ys" "v = y" "y \<noteq> NULL"
    by auto
  moreover from this have "read_link (NextOf y) s = Inr (ts_next t)"
    by (simp add: read_link_def)
  moreover have "y \<noteq> current"
    using Cons.prems(3) by auto
  ultimately show ?case
    using Cons by (simp add: unlink.simps [of current l])
qed

text \<open>The node is gone, the others are the same but for their \<^verbatim>\<open>next\<close>, and so is the rest.\<close>

definition unlinked :: "addr \<Rightarrow> process \<Rightarrow> process \<Rightarrow> bool" where
  "unlinked current s s' \<longleftrightarrow>
     pr_storages s' current = None \<and>
     (\<forall>x. x \<noteq> current \<longrightarrow> map_option (\<lambda>t. t\<lparr> ts_next := NULL \<rparr>) (pr_storages s' x) =
                        map_option (\<lambda>t. t\<lparr> ts_next := NULL \<rparr>) (pr_storages s x)) \<and>
     pr_blocks s' = pr_blocks s \<and> pr_counters s' = pr_counters s \<and> pr_live s' = pr_live s \<and>
     pr_self s' = pr_self s \<and> pr_it s' = pr_it s"

lemma write_link_ok:
  assumes "read_link l s = Inr v" "l \<noteq> NextOf current"
  shows "\<exists>s'. write_link l w (s\<lparr> pr_storages := (pr_storages s)(current := None) \<rparr>) = (Inr (), s') \<and>
    read_link l s' = Inr w \<and> unlinked current s s' \<and>
    (\<forall>x. x \<noteq> current \<longrightarrow> NextOf x \<noteq> l \<longrightarrow> pr_storages s' x = pr_storages s x) \<and>
    (l \<noteq> GlobalHead \<longrightarrow> pr_g_thread_storage s' = pr_g_thread_storage s)"
proof (cases l)
  case GlobalHead
  then show ?thesis
    by (simp add: write_link_def read_link_def unlinked_def)
next
  case (NextOf p)
  then obtain t where "p \<noteq> NULL" "pr_storages s p = Some t" "p \<noteq> current"
    using assms by (auto simp: read_link_def split: if_splits option.splits)
  then show ?thesis
    using NextOf by (simp add: write_link_def read_link_def deref_def unlinked_def)
qed

lemma unlink_removes:
  assumes "chain (pr_storages s) v (xs @ current # ys)" "distinct (xs @ current # ys)"
    and "read_link l s = Inr v" "\<forall>q. l = NextOf q \<longrightarrow> q \<notin> set (xs @ current # ys)"
  shows "\<exists>s' v'. unlink current l s = Some (if ys = [] then Inl NullDereference else Inr (), s') \<and>
    read_link l s' = Inr v' \<and> chain (pr_storages s') v' (xs @ ys) \<and> unlinked current s s' \<and>
    (\<forall>x. x \<notin> set (xs @ [current]) \<longrightarrow> NextOf x \<noteq> l \<longrightarrow> pr_storages s' x = pr_storages s x) \<and>
    (l \<noteq> GlobalHead \<longrightarrow> pr_g_thread_storage s' = pr_g_thread_storage s)"
  using assms
proof (induction xs arbitrary: l v)
  case Nil
  then obtain t where t: "pr_storages s current = Some t" "chain (pr_storages s) (ts_next t) ys"
    "v = current" "current \<noteq> NULL"
    by auto
  have l: "l \<noteq> NextOf current"
    using Nil.prems(4) by auto
  obtain s' where w: "write_link l (ts_next t) (s\<lparr> pr_storages := (pr_storages s)(current := None) \<rparr>) = (Inr (), s')"
    "read_link l s' = Inr (ts_next t)" "unlinked current s s'"
    "\<forall>x. x \<noteq> current \<longrightarrow> NextOf x \<noteq> l \<longrightarrow> pr_storages s' x = pr_storages s x"
    "l \<noteq> GlobalHead \<longrightarrow> pr_g_thread_storage s' = pr_g_thread_storage s"
    using write_link_ok [OF Nil.prems(3) l] by blast
  have step: "unlink current l s = unlink current (NextOf (ts_next t)) s'"
    using Nil.prems(3) t w(1) by (simp add: unlink.simps [of current l])
  have same: "pr_storages s' x = pr_storages s x" if "x \<in> set ys" for x
    using w(4) Nil.prems(2,4) that by auto
  have c: "chain (pr_storages s') p ys = chain (pr_storages s) p ys" for p
    using same by (induction ys arbitrary: p) auto
  show ?case
  proof (cases ys)
    case ys: Nil
    then have "unlink current (NextOf (ts_next t)) s' = Some (Inl NullDereference, s')"
      using t(2) by (simp add: unlink.simps [of current "NextOf _"] read_link_def)
    then show ?thesis
      using step w t(2) ys by auto
  next
    case (Cons y zs)
    then obtain u where u: "pr_storages s' y = Some u" "chain (pr_storages s') (ts_next u) zs"
      "ts_next t = y" "y \<noteq> NULL"
      using t(2) c [of "ts_next t"] by auto
    have "unlink current (NextOf y) s' = Some (Inr (), s')"
      using u Nil.prems(2) Cons by (intro unlink_absent [of _ "ts_next u" zs]) (auto simp: read_link_def)
    then show ?thesis
      using step w t(2) c Cons u(3) by auto
  qed
next
  case (Cons x xs)
  then obtain t where t: "pr_storages s x = Some t" "chain (pr_storages s) (ts_next t) (xs @ current # ys)"
    "v = x" "x \<noteq> NULL"
    by auto
  have "read_link (NextOf x) s = Inr (ts_next t)" "x \<noteq> current"
    using t Cons.prems(2) by (auto simp: read_link_def)
  moreover have "\<forall>q. NextOf x = NextOf q \<longrightarrow> q \<notin> set (xs @ current # ys)"
    using Cons.prems(2) by auto
  ultimately obtain s' v' where IH:
    "unlink current (NextOf x) s = Some (if ys = [] then Inl NullDereference else Inr (), s')"
    "read_link (NextOf x) s' = Inr v'" "chain (pr_storages s') v' (xs @ ys)" "unlinked current s s'"
    "\<forall>z. z \<notin> set (xs @ [current]) \<longrightarrow> NextOf z \<noteq> NextOf x \<longrightarrow> pr_storages s' z = pr_storages s z"
    "pr_g_thread_storage s' = pr_g_thread_storage s"
    using Cons.IH [of "ts_next t" "NextOf x"] t(2) Cons.prems(2) by auto
  have step: "unlink current l s = unlink current (NextOf x) s"
    using Cons.prems(3) t \<open>x \<noteq> current\<close> by (simp add: unlink.simps [of current l])
  have "read_link l s' = Inr x"
    using Cons.prems(3,4) t(3) IH(5,6) by (cases l) (auto simp: read_link_def)
  moreover have "chain (pr_storages s') x ((x # xs) @ ys)"
    using IH(2,3) t(4) by (auto simp: read_link_def split: option.splits)
  ultimately show ?case
    using step IH by auto
qed

section \<open>The reporting thread\<close>

text \<open>\<^verbatim>\<open>it = ts_get_next(it)\<close> in the loop of the reporting thread, which starts and ends at \<^verbatim>\<open>NULL\<close>.\<close>

definition collect :: "(u64 \<Rightarrow> bool) \<Rightarrow> process \<Rightarrow> ((mem_error + unit) \<times> process) option" where
  "collect alive s =
     (case ts_get_next alive (pr_it s) s of
        None \<Rightarrow> None
      | Some (Inl e, s') \<Rightarrow> Some (Inl e, s')
      | Some (Inr p, s') \<Rightarrow> Some (Inr (), s'\<lparr> pr_it := p \<rparr>))"

text \<open>A thread that runs is found alive.\<close>

definition alive_ok :: "(u64 \<Rightarrow> bool) \<Rightarrow> process \<Rightarrow> bool" where
  "alive_ok alive s \<longleftrightarrow> (\<forall>t \<in> pr_live s. alive (pr_self s t))"

definition goes_on :: "process \<Rightarrow> ((mem_error + unit) \<times> process) option \<Rightarrow> bool" where
  "goes_on s r \<longleftrightarrow>
     (\<exists>s'. r = Some (Inr (), s') \<and> process_ok no_difference s' \<and> pr_live s' = pr_live s)"

lemma mark_alive_it:
  assumes "process_ok no_difference (s\<lparr> pr_it := p \<rparr>)" "alive_ok alive s"
  shows "\<exists>s'. mark_alive alive p s = (Inr p, s') \<and> process_ok no_difference (s'\<lparr> pr_it := p \<rparr>) \<and>
    pr_live s' = pr_live s"
proof (cases "p = NULL")
  case True
  then show ?thesis
    using assms(1) by (simp add: mark_alive_def)
next
  case False
  let ?f = "\<lambda>t. t\<lparr> ts_thread_alife := alive (ts_pthread_id t) \<rparr>"
  let ?s = "s\<lparr> pr_it := p \<rparr>"
  obtain t where t: "pr_storages s p = Some t"
    using assms(1) False by (auto simp: process_ok_def shaped_def)
  define s' where "s' = s\<lparr> pr_storages := (pr_storages s)(p \<mapsto> ?f t) \<rparr>"
  have m: "mark_alive alive p s = (Inr p, s')"
    using t False by (simp add: mark_alive_def deref_def s'_def)
  have eq: "s'\<lparr> pr_it := p \<rparr> = ?s\<lparr> pr_storages := (pr_storages ?s)(p \<mapsto> ?f t) \<rparr>"
    by (simp add: s'_def)
  obtain xs where xs: "chain (pr_storages s) (pr_g_thread_storage s) xs" "distinct xs"
    "dom (pr_storages s) = set xs"
    using assms(1) by (auto simp: process_ok_def shaped_def)
  have "chain ((pr_storages s)(p \<mapsto> ?f t)) (pr_g_thread_storage s) xs"
    using chain_same_next [of "pr_storages s" p t "?f t"] t xs(1) by simp
  moreover have "dom ((pr_storages s)(p \<mapsto> ?f t)) = set xs"
    using t xs(3) by auto
  ultimately have "\<exists>ys. chain (pr_storages s') (pr_g_thread_storage s') ys \<and> distinct ys \<and>
      dom (pr_storages s') = set ys"
    using xs(2) unfolding s'_def by auto
  moreover have "\<forall>b h. pr_blocks s b = Some h \<longrightarrow> b \<noteq> NULL \<and> pr_storages s' (ah_counters h) \<noteq> None"
    using assms(1) unfolding process_ok_def shaped_def s'_def by auto
  moreover have "\<forall>u \<in> pr_live s. pr_counters s u \<noteq> NULL \<longrightarrow>
      (\<exists>ts. pr_storages s' (pr_counters s u) = Some ts \<and> ts_pthread_id ts = pr_self s u \<and> ts_thread_alife ts)"
    using assms t unfolding process_ok_def shaped_def alive_ok_def s'_def by fastforce
  ultimately have "shaped (s'\<lparr> pr_it := p \<rparr>)"
    using t unfolding shaped_def by (simp add: s'_def)
  moreover have "accounted (differ p 0 0 no_difference) (s'\<lparr> pr_it := p \<rparr>)"
    unfolding eq by (rule accounted_update [where t = t]) (use assms(1) t in \<open>auto simp: process_ok_def\<close>)
  moreover have "differ p 0 0 no_difference = no_difference"
    by (simp add: differ_def no_difference_def fun_eq_iff)
  ultimately show ?thesis
    using m by (auto simp: process_ok_def s'_def)
qed

lemma process_ok_it: "process_ok d s \<Longrightarrow> p = NULL \<or> pr_storages s p \<noteq> None \<Longrightarrow> process_ok d (s\<lparr> pr_it := p \<rparr>)"
  unfolding process_ok_def shaped_def accounted_def owned_def block_size_def by auto

lemma head_ok: "shaped s \<Longrightarrow> pr_g_thread_storage s = NULL \<or> pr_storages s (pr_g_thread_storage s) \<noteq> None"
  unfolding shaped_def by (metis chain.elims(2) option.distinct(1))

lemma next_ok:
  assumes "shaped s" "pr_storages s p = Some t"
  shows "ts_next t = NULL \<or> pr_storages s (ts_next t) \<noteq> None"
proof -
  obtain xs where xs: "chain (pr_storages s) (pr_g_thread_storage s) xs" "dom (pr_storages s) = set xs"
    using assms(1) by (auto simp: shaped_def)
  then have "p \<in> set xs"
    using assms(2) by auto
  then obtain as bs where "xs = as @ p # bs"
    by (meson split_list)
  then have "chain (pr_storages s) (ts_next t) bs"
    using chain_append [of "pr_storages s"] xs(1) assms(2) by fastforce
  then show ?thesis
    by (cases bs) auto
qed

text \<open>Taking a node without blocks and without a running thread out of the list.\<close>

lemma unlinked_ok:
  assumes "process_ok no_difference s" "unlinked p s s'" "owned s p = {}"
    and "pr_storages s p = Some t" "\<not> ts_thread_alife t"
    and "chain (pr_storages s') (pr_g_thread_storage s') xs" "distinct xs" "dom (pr_storages s) = insert p (set xs)"
    and "p \<notin> set xs" "q = NULL \<or> q \<in> set xs"
  shows "process_ok no_difference (s'\<lparr> pr_it := q \<rparr>)"
proof -
  have u: "map_option (\<lambda>t. t\<lparr> ts_next := NULL \<rparr>) (pr_storages s' x) =
      map_option (\<lambda>t. t\<lparr> ts_next := NULL \<rparr>) (pr_storages s x)" if "x \<noteq> p" for x
    using assms(2) that by (simp add: unlinked_def)
  have gone: "pr_storages s' p = None" and same: "pr_blocks s' = pr_blocks s" "pr_counters s' = pr_counters s"
    "pr_live s' = pr_live s" "pr_self s' = pr_self s"
    using assms(2) by (simp_all add: unlinked_def)
  have dom': "pr_storages s' x \<noteq> None \<longleftrightarrow> x \<noteq> p \<and> pr_storages s x \<noteq> None" for x
    using u [of x] gone by (cases "x = p"; cases "pr_storages s x"; cases "pr_storages s' x") auto
  have fields: "\<exists>t. pr_storages s x = Some t \<and> t\<lparr> ts_next := NULL \<rparr> = t'\<lparr> ts_next := NULL \<rparr>"
    if "pr_storages s' x = Some t'" for x t'
    using u [of x] that gone by (cases "x = p"; cases "pr_storages s x") auto
  have vals: "ts_alloc_count t1 = ts_alloc_count t2 \<and> ts_mem_current t1 = ts_mem_current t2 \<and>
      ts_pthread_id t1 = ts_pthread_id t2 \<and> ts_thread_alife t1 = ts_thread_alife t2"
    if "t1\<lparr> ts_next := NULL \<rparr> = t2\<lparr> ts_next := NULL \<rparr>" for t1 t2 :: thread_storage
    using arg_cong [OF that, of ts_alloc_count] arg_cong [OF that, of ts_mem_current]
      arg_cong [OF that, of ts_pthread_id] arg_cong [OF that, of ts_thread_alife] by simp
  have own: "owned (s'\<lparr> pr_it := q \<rparr>) x = owned s x" "block_size (s'\<lparr> pr_it := q \<rparr>) b = block_size s b" for x b
    using same(1) by (simp_all add: owned_def block_size_def)
  have "accounted no_difference (s'\<lparr> pr_it := q \<rparr>)"
    unfolding accounted_def own
  proof (intro conjI allI impI)
    fix x t'
    assume "pr_storages (s'\<lparr> pr_it := q \<rparr>) x = Some t'"
    then obtain t0 where "pr_storages s x = Some t0" "t0\<lparr> ts_next := NULL \<rparr> = t'\<lparr> ts_next := NULL \<rparr>"
      using fields by auto
    then show "ts_alloc_count t' = of_nat (card (owned s x)) + fst (no_difference x)"
      and "ts_mem_current t' = (\<Sum>b \<in> owned s x. block_size s b) + snd (no_difference x)"
      using assms(1) vals [of t0 t'] unfolding process_ok_def accounted_def by simp_all
  qed (simp add: no_difference_def)
  moreover have "dom (pr_storages s') = set xs"
    using dom' assms(8,9) by (auto simp: set_eq_iff domIff)
  moreover have "pr_storages s' (ah_counters h) \<noteq> None \<and> b \<noteq> NULL" if "pr_blocks s b = Some h" for b h
  proof -
    have "ah_counters h \<noteq> p"
      using assms(3) that by (auto simp: owned_def)
    then show ?thesis
      using assms(1) that dom' by (auto simp: process_ok_def shaped_def)
  qed
  moreover have "\<exists>ts. pr_storages s' (pr_counters s u) = Some ts \<and> ts_pthread_id ts = pr_self s u \<and> ts_thread_alife ts"
    if live: "u \<in> pr_live s" "pr_counters s u \<noteq> NULL" for u
  proof -
    obtain ts where ts: "pr_storages s (pr_counters s u) = Some ts" "ts_pthread_id ts = pr_self s u" "ts_thread_alife ts"
      using assms(1) live by (auto simp: process_ok_def shaped_def)
    then have "pr_counters s u \<noteq> p"
      using assms(4,5) by auto
    then obtain ts' where ts': "pr_storages s' (pr_counters s u) = Some ts'"
      using dom' ts(1) by blast
    then have "ts\<lparr> ts_next := NULL \<rparr> = ts'\<lparr> ts_next := NULL \<rparr>"
      using fields [OF ts'] ts(1) by auto
    then show ?thesis
      using vals [of ts ts'] ts ts' by simp
  qed
  ultimately show ?thesis
    using assms(6,7,10) unfolding process_ok_def shaped_def by (auto simp: same)
qed

definition last_and_dead :: "process \<Rightarrow> bool" where
  "last_and_dead s \<longleftrightarrow>
     (\<exists>t. pr_it s \<noteq> NULL \<and> pr_storages s (pr_it s) = Some t \<and> \<not> ts_thread_alife t \<and>
          owned s (pr_it s) = {} \<and> ts_next t = NULL)"

lemma alloc_count_zero:
  assumes "process_ok no_difference s" "pr_storages s p = Some t"
  shows "ts_alloc_count t = 0 \<longleftrightarrow> owned s p = {}"
proof -
  have "pr_blocks s NULL = None"
    using assms(1) unfolding process_ok_def shaped_def by (metis not_None_eq)
  then show ?thesis
    using assms card_owned_zero [of s p] by (auto simp: process_ok_def accounted_def no_difference_def)
qed

lemma collect_ok:
  assumes "process_ok no_difference s" "alive_ok alive s"
  shows "if last_and_dead s then \<exists>s'. collect alive s = Some (Inl NullDereference, s')
    else goes_on s (collect alive s)"
proof -
  have advance: "goes_on s (case mark_alive alive p s1 of (Inl e, s') \<Rightarrow> Some (Inl e, s')
      | (Inr p, s') \<Rightarrow> Some (Inr (), s'\<lparr> pr_it := p \<rparr>))"
    if "process_ok no_difference (s1\<lparr> pr_it := p \<rparr>)" "pr_live s1 = pr_live s" "pr_self s1 = pr_self s" for p s1
    using mark_alive_it [OF that(1), of alive] assms(2) that(2,3)
    by (auto simp: goes_on_def alive_ok_def)
  show ?thesis
  proof (cases "pr_it s = NULL")
    case True
    have "process_ok no_difference (s\<lparr> pr_it := pr_g_thread_storage s \<rparr>)"
      using assms(1) head_ok by (intro process_ok_it) (auto simp: process_ok_def)
    then have "goes_on s (collect alive s)"
      using advance True by (simp add: collect_def ts_get_next_def split: prod.split sum.split)
    then show ?thesis
      using True by (simp add: last_and_dead_def)
  next
    case False
    let ?p = "pr_it s"
    obtain t where t: "pr_storages s ?p = Some t"
      using assms(1) False by (auto simp: process_ok_def shaped_def)
    have zero: "ts_alloc_count t = 0 \<longleftrightarrow> owned s ?p = {}"
      using alloc_count_zero [OF assms(1) t] .
    show ?thesis
    proof (cases "\<not> ts_thread_alife t \<and> owned s ?p = {}")
      case keep: False
      have "process_ok no_difference (s\<lparr> pr_it := ts_next t \<rparr>)"
        using assms(1) next_ok [OF _ t] by (intro process_ok_it) (auto simp: process_ok_def)
      then have "goes_on s (collect alive s)"
        using advance False t keep zero
        by (auto simp: collect_def ts_get_next_def split: prod.split sum.split)
      then show ?thesis
        using keep t by (auto simp: last_and_dead_def)
    next
      case drop: True
      obtain xs where xs: "chain (pr_storages s) (pr_g_thread_storage s) xs" "distinct xs"
        "dom (pr_storages s) = set xs"
        using assms(1) by (auto simp: process_ok_def shaped_def)
      obtain as bs where split: "xs = as @ ?p # bs"
        using xs(3) t by (metis domI split_list)
      have "chain (pr_storages s) (ts_next t) bs"
        using chain_append [of "pr_storages s" _ as ?p bs] xs(1) t split by auto
      then have nxt: "ts_next t = (if bs = [] then NULL else hd bs)"
        by (rule chain_hd)
      have nz: "bs \<noteq> [] \<Longrightarrow> hd bs \<noteq> NULL"
        using chain_nodes [OF xs(1)] split by (metis Un_iff hd_in_set list.set_intros(2) set_append)
      obtain s1 v where u: "unlink ?p GlobalHead s = Some (if bs = [] then Inl NullDereference else Inr (), s1)"
        "read_link GlobalHead s1 = Inr v" "chain (pr_storages s1) v (as @ bs)" "unlinked ?p s s1"
        using unlink_removes [of s "pr_g_thread_storage s" as ?p bs GlobalHead] xs split
        by (auto simp: read_link_def)
      have same: "pr_live s1 = pr_live s" "pr_self s1 = pr_self s"
        using u(4) by (simp_all add: unlinked_def)
      show ?thesis
      proof (cases "bs = []")
        case True
        then have "collect alive s = Some (Inl NullDereference, s1)"
          using u(1) t drop zero False by (simp add: collect_def ts_get_next_def)
        then show ?thesis
          using True nxt t drop False by (auto simp: last_and_dead_def)
      next
        case more: False
        have "process_ok no_difference (s1\<lparr> pr_it := ts_next t \<rparr>)"
        proof (rule unlinked_ok [OF assms(1) u(4)])
          show "chain (pr_storages s1) (pr_g_thread_storage s1) (as @ bs)"
            using u(2,3) by (simp add: read_link_def)
          show "distinct (as @ bs)" "dom (pr_storages s) = insert ?p (set (as @ bs))" "?p \<notin> set (as @ bs)"
            using xs split by auto
          show "ts_next t = NULL \<or> ts_next t \<in> set (as @ bs)"
            using nxt more by simp
        qed (use t drop in auto)
        then have "goes_on s (collect alive s)"
          using advance [OF _ same] u(1) t drop zero False more
          by (auto simp: collect_def ts_get_next_def split: prod.split sum.split)
        then show ?thesis
          using more nxt nz t by (auto simp: last_and_dead_def)
      qed
    qed
  qed
qed

text \<open>What is left of the list when the reporting thread goes on: the rest as it was, up to the flag.\<close>

definition rest_kept :: "(u64 \<Rightarrow> bool) \<Rightarrow> addr \<Rightarrow> addr list \<Rightarrow> process \<Rightarrow> process \<Rightarrow> bool" where
  "rest_kept alive q bs s s' \<longleftrightarrow>
     chain (pr_storages s') q bs \<and> pr_blocks s' = pr_blocks s \<and> pr_live s' = pr_live s \<and> pr_self s' = pr_self s \<and>
     (\<forall>x \<in> set bs. \<exists>t b. pr_storages s x = Some t \<and> pr_storages s' x = Some (t\<lparr> ts_thread_alife := b \<rparr>) \<and>
        (x = q \<longrightarrow> b = alive (ts_pthread_id t)))"

lemma chain_cong: "\<forall>x \<in> set xs. m x = m' x \<Longrightarrow> chain m p xs = chain m' p xs"
  by (induction xs arbitrary: p) auto

lemma mark_alive_rest:
  assumes "chain (pr_storages s) q bs"
  shows "\<exists>s'. mark_alive alive q s = (Inr q, s') \<and> rest_kept alive q bs s s'"
proof (cases bs)
  case Nil
  then show ?thesis
    using assms by (simp add: mark_alive_def rest_kept_def)
next
  case (Cons b bs')
  have "chain (pr_storages s) q (b # bs')"
    using assms unfolding Cons .
  then obtain t where t: "pr_storages s q = Some t" "q \<noteq> NULL"
    by auto
  let ?t = "t\<lparr> ts_thread_alife := alive (ts_pthread_id t) \<rparr>"
  let ?s = "s\<lparr> pr_storages := (pr_storages s)(q \<mapsto> ?t) \<rparr>"
  have "mark_alive alive q s = (Inr q, ?s)"
    using t by (simp add: mark_alive_def deref_def)
  moreover have "chain (pr_storages ?s) q bs"
    using assms chain_same_next [of "pr_storages s" q t ?t] t by simp
  moreover have "\<exists>u c. pr_storages s x = Some u \<and> pr_storages ?s x = Some (u\<lparr> ts_thread_alife := c \<rparr>) \<and>
      (x = q \<longrightarrow> c = alive (ts_pthread_id u))" if x: "x \<in> set bs" for x
  proof (cases "x = q")
    case True
    then show ?thesis
      using t by auto
  next
    case False
    obtain u where "pr_storages s x = Some u"
      using x chain_nodes [OF assms] by auto
    then show ?thesis
      using False by (intro exI [of _ u] exI [of _ "ts_thread_alife u"]) simp
  qed
  ultimately have "rest_kept alive q bs s ?s"
    unfolding rest_kept_def by simp
  then show ?thesis
    using \<open>mark_alive alive q s = (Inr q, ?s)\<close> by blast
qed

lemma collect_rest:
  assumes "process_ok no_difference s" "alive_ok alive s" "\<not> last_and_dead s"
    and "pr_it s = NULL \<Longrightarrow> q = pr_g_thread_storage s"
    and "pr_it s \<noteq> NULL \<Longrightarrow> pr_storages s (pr_it s) = Some t \<and> q = ts_next t"
    and "chain (pr_storages s) q bs"
  shows "\<exists>s'. collect alive s = Some (Inr (), s') \<and> pr_it s' = q \<and> rest_kept alive q bs s s' \<and>
    process_ok no_difference s'"
proof -
  have "\<exists>s1. (pr_it s = NULL \<or> \<not> (\<not> ts_thread_alife t \<and> ts_alloc_count t = 0) \<longrightarrow> s1 = s) \<and>
      (pr_it s \<noteq> NULL \<and> \<not> ts_thread_alife t \<and> ts_alloc_count t = 0 \<longrightarrow>
         unlink (pr_it s) GlobalHead s = Some (Inr (), s1)) \<and>
      pr_blocks s1 = pr_blocks s \<and> pr_live s1 = pr_live s \<and> pr_self s1 = pr_self s \<and>
      (\<forall>x \<in> set bs. pr_storages s1 x = pr_storages s x)"
  proof (cases "pr_it s \<noteq> NULL \<and> \<not> ts_thread_alife t \<and> ts_alloc_count t = 0")
    case True
    let ?p = "pr_it s"
    have t: "pr_storages s ?p = Some t" "q = ts_next t"
      using assms(5) True by auto
    obtain xs where xs: "chain (pr_storages s) (pr_g_thread_storage s) xs" "distinct xs"
      "dom (pr_storages s) = set xs"
      using assms(1) by (auto simp: process_ok_def shaped_def)
    obtain as bs' where split: "xs = as @ ?p # bs'"
      using xs(3) t by (metis domI split_list)
    have "chain (pr_storages s) q bs'"
      using chain_append [of "pr_storages s" _ as ?p bs'] xs(1) t split by auto
    then have bs: "bs' = bs"
      using chain_unique assms(6) by blast
    have "bs \<noteq> []"
      using assms(3,6) True t alloc_count_zero [OF assms(1) t(1)] by (auto simp: last_and_dead_def)
    then obtain s1 where "unlink ?p GlobalHead s = Some (Inr (), s1)" "unlinked ?p s s1"
      "\<forall>x. x \<notin> set (as @ [?p]) \<longrightarrow> pr_storages s1 x = pr_storages s x"
      using unlink_removes [of s "pr_g_thread_storage s" as ?p bs GlobalHead] xs split bs
      by (auto simp: read_link_def)
    moreover have "set bs \<inter> set (as @ [?p]) = {}"
      using xs(2) split bs by auto
    ultimately show ?thesis
      using True by (intro exI [of _ s1]) (simp add: unlinked_def disjoint_iff)
  qed auto
  then obtain s1 where s1: "pr_it s = NULL \<or> \<not> (\<not> ts_thread_alife t \<and> ts_alloc_count t = 0) \<Longrightarrow> s1 = s"
    "pr_it s \<noteq> NULL \<and> \<not> ts_thread_alife t \<and> ts_alloc_count t = 0 \<Longrightarrow> unlink (pr_it s) GlobalHead s = Some (Inr (), s1)"
    and same: "pr_blocks s1 = pr_blocks s" "pr_live s1 = pr_live s" "pr_self s1 = pr_self s"
      "\<forall>x \<in> set bs. pr_storages s1 x = pr_storages s x"
    by blast
  have "chain (pr_storages s1) q bs"
    using assms(6) chain_cong [OF same(4)] by simp
  then obtain s' where s': "mark_alive alive q s1 = (Inr q, s')" "rest_kept alive q bs s1 s'"
    using mark_alive_rest by blast
  have get: "ts_get_next alive (pr_it s) s = Some (mark_alive alive q s1)"
    using s1 assms(4,5) by (auto simp: ts_get_next_def)
  have c: "collect alive s = Some (Inr (), s'\<lparr> pr_it := q \<rparr>)"
    using get s'(1) by (simp add: collect_def)
  moreover have "rest_kept alive q bs s (s'\<lparr> pr_it := q \<rparr>)"
    using s'(2) same by (simp add: rest_kept_def)
  moreover have "process_ok no_difference (s'\<lparr> pr_it := q \<rparr>)"
    using collect_ok [OF assms(1,2)] assms(3) c by (simp add: goes_on_def)
  ultimately show ?thesis
    by (intro exI [of _ "s'\<lparr> pr_it := q \<rparr>"]) simp
qed

section \<open>Programs\<close>

text \<open>The values of a report are read from the node the reporting thread stands at.\<close>

definition report_counters :: "thread_storage \<Rightarrow> (u64 \<times> u64) \<times> thread_storage" where
  "report_counters t =
     (case ts_get_memory_peak t of
        (peak, t1) \<Rightarrow> (case ts_get_alloc_count t1 of (count, t2) \<Rightarrow> ((peak, count), t2)))"

text \<open>One step of the program: a thread starts or ends, calls an allocation function, or the reporting thread
  goes on. The application frees only blocks it owns, and the C library hands out memory that is not in
  use.\<close>

inductive prog_step :: "process \<Rightarrow> process \<Rightarrow> bool" where
  Start: "t \<notin> pr_live s \<Longrightarrow> pr_counters s t = NULL \<Longrightarrow>
    prog_step s (s\<lparr> pr_live := insert t (pr_live s), pr_self := (pr_self s)(t := self) \<rparr>)"
| Exit: "prog_step s (s\<lparr> pr_live := pr_live s - {t} \<rparr>)"
| Malloc: "ce_thread ce \<in> pr_live s \<Longrightarrow> fresh_storage ce s \<Longrightarrow> pr_blocks s ptr = None \<Longrightarrow>
    preload_malloc ce n ptr s = (Inr q, s') \<Longrightarrow> prog_step s s'"
| Calloc: "ce_thread ce \<in> pr_live s \<Longrightarrow> fresh_storage ce s \<Longrightarrow> pr_blocks s ptr = None \<Longrightarrow>
    preload_calloc ce nmem n ptr s = (Inr q, s') \<Longrightarrow> prog_step s s'"
| Realloc: "ce_thread ce \<in> pr_live s \<Longrightarrow> fresh_storage ce s \<Longrightarrow>
    cur = NULL \<or> pr_blocks s (cur - header_size) \<noteq> None \<Longrightarrow>
    pr_blocks s ptr = None \<or> (cur \<noteq> NULL \<and> ptr = cur - header_size) \<Longrightarrow>
    preload_realloc ce cur n ptr s = (Inr q, s') \<Longrightarrow> prog_step s s'"
| Free: "cur = NULL \<or> pr_blocks s (cur - header_size) \<noteq> None \<Longrightarrow>
    preload_free cur s = (Inr (), s') \<Longrightarrow> prog_step s s'"
| Collect: "alive_ok alive s \<Longrightarrow> collect alive s = Some (Inr (), s') \<Longrightarrow> prog_step s s'"
| Report: "pr_storages s (pr_it s) = Some t \<Longrightarrow>
    prog_step s (s\<lparr> pr_storages := (pr_storages s)(pr_it s \<mapsto> snd (report_counters t)) \<rparr>)"

inductive_cases prog_stepE: "prog_step s s'"

lemma keeps_Inr: "keeps_process b s (Inr q, s') \<Longrightarrow> process_ok no_difference s'"
  by (simp add: keeps_process_def)

lemma report_ok:
  assumes "process_ok d s" "pr_storages s p = Some t"
  shows "process_ok d (s\<lparr> pr_storages := (pr_storages s)(p \<mapsto> snd (report_counters t)) \<rparr>)"
proof -
  let ?f = "\<lambda>t. snd (report_counters t)"
  have "counter_update ?f"
    by (simp add: counter_update_def report_counters_def ts_get_memory_peak_def ts_get_alloc_count_def)
  then have "shaped (s\<lparr> pr_storages := (pr_storages s)(p \<mapsto> ?f t) \<rparr>)"
    using assms shaped_update [of s p t ?f] by (simp add: process_ok_def)
  moreover have "accounted (differ p 0 0 d) (s\<lparr> pr_storages := (pr_storages s)(p \<mapsto> ?f t) \<rparr>)"
    using assms by (intro accounted_update [where t = t])
      (auto simp: process_ok_def report_counters_def ts_get_memory_peak_def ts_get_alloc_count_def)
  moreover have "differ p 0 0 d = d"
    by (simp add: differ_def fun_eq_iff)
  ultimately show ?thesis
    by (simp add: process_ok_def)
qed

lemma live_change:
  assumes "process_ok d s" "\<forall>t \<in> live. pr_counters s t \<noteq> NULL \<longrightarrow> t \<in> pr_live s \<and> self t = pr_self s t"
  shows "process_ok d (s\<lparr> pr_live := live, pr_self := self \<rparr>)"
proof -
  have "owned (s\<lparr> pr_live := live, pr_self := self \<rparr>) p = owned s p"
    "block_size (s\<lparr> pr_live := live, pr_self := self \<rparr>) b = block_size s b" for p b
    by (simp_all add: owned_def block_size_def)
  then show ?thesis
    using assms unfolding process_ok_def shaped_def accounted_def by auto
qed

lemma prog_step_ok:
  assumes "prog_step s s'" "process_ok no_difference s"
  shows "process_ok no_difference s'"
  using assms
proof (induction rule: prog_step.induct)
  case (Start t s self)
  then show ?case
    by (intro live_change) auto
next
  case (Exit s t)
  then have "process_ok no_difference (s\<lparr> pr_live := pr_live s - {t}, pr_self := pr_self s \<rparr>)"
    by (intro live_change) auto
  then show ?case
    by simp
next
  case (Malloc ce s ptr n q s')
  then show ?case
    using preload_malloc_keeps [of s ce ptr n] keeps_Inr by metis
next
  case (Calloc ce s ptr nmem n q s')
  then show ?case
    using preload_malloc_keeps [of s ce ptr "nmem * n"] keeps_Inr unfolding preload_calloc_malloc by metis
next
  case (Realloc ce s cur ptr n q s')
  then show ?case
    using preload_realloc_keeps [of s ce cur ptr n] keeps_Inr by metis
next
  case (Free cur s s')
  then show ?case
    using preload_free_keeps [of s cur] keeps_Inr by metis
next
  case (Collect alive s s')
  then show ?case
    using collect_ok [of s alive] by (auto simp: goes_on_def split: if_splits)
next
  case (Report s t)
  then show ?case
    by (intro report_ok)
qed

lemma start_ok: "process_ok no_difference (start_process m self)"
proof -
  have "\<exists>xs. chain (pr_storages (start_process m self)) (pr_g_thread_storage (start_process m self)) xs \<and>
      distinct xs \<and> dom (pr_storages (start_process m self)) = set xs"
    by (intro exI [of _ "[]"]) (simp add: start_process_def)
  then show ?thesis
    by (auto simp: process_ok_def shaped_def accounted_def no_difference_def start_process_def)
qed

lemma reachable_ok: "prog_step\<^sup>*\<^sup>* (start_process m self) s \<Longrightarrow> process_ok no_difference s"
  by (induction rule: rtranclp_induct) (use start_ok prog_step_ok in auto)

section \<open>The peak\<close>

text \<open>What happens to a storage's memory between two reports, and the sizes after its allocations.\<close>

datatype memory_event =
    Allocate u64
  | Deallocate u64

fun memory_events :: "memory_event list \<Rightarrow> thread_storage \<Rightarrow> thread_storage" where
  "memory_events [] t = t"
| "memory_events (Allocate n # es) t = memory_events es (count_allocate n t)"
| "memory_events (Deallocate n # es) t = memory_events es (count_deallocate n t)"

fun sizes_reached :: "memory_event list \<Rightarrow> u64 \<Rightarrow> u64 list" where
  "sizes_reached [] m = []"
| "sizes_reached (Allocate n # es) m = (m + n) # sizes_reached es (m + n)"
| "sizes_reached (Deallocate n # es) m = sizes_reached es (m - n)"

lemma peak_kept:
  "\<not> ts_mem_peak_needs_reset t \<Longrightarrow>
     ts_mem_peak (memory_events es t) = fold max (sizes_reached es (ts_mem_current t)) (ts_mem_peak t)"
  by (induction es t rule: memory_events.induct)
    (auto simp: count_allocate_def count_deallocate_def Let_def max_def not_less)

text \<open>A report gives the largest size since the one before, or the old peak when nothing was allocated.\<close>

lemma peak_since_report:
  "ts_mem_peak_needs_reset t \<Longrightarrow>
     ts_mem_peak (memory_events es t) =
       (case sizes_reached es (ts_mem_current t) of [] \<Rightarrow> ts_mem_peak t | m # ms \<Rightarrow> fold max ms m)"
proof (induction es t rule: memory_events.induct)
  case (2 n es t)
  then show ?case
    using peak_kept [of "count_allocate n t" es] by (simp add: count_allocate_def Let_def)
qed (simp_all add: count_deallocate_def cong: list.case_cong)

section \<open>Properties\<close>


definition sample_call :: "thread \<Rightarrow> addr \<Rightarrow> call_env" where
  "sample_call t p = \<lparr> ce_thread = t, ce_gettid = 1, ce_clock = 0, ce_storage = p \<rparr>"

definition sample_allocated :: process where
  "sample_allocated = snd (preload_malloc (sample_call 0 1000) 24 5000 (start_process 0 7))"

lemmas sample_defs = sample_allocated_def sample_call_def start_process_def preload_malloc_def
  get_thread_storage_def ts_add_thread_def ts_count_allocate_def count_allocate_def deref_def write_header_def
  thenE_def bindE_def Let_def

lemma sample_allocated_reached: "prog_step\<^sup>*\<^sup>* (start_process 0 7) sample_allocated"
proof (rule r_into_rtranclp, rule Malloc [of "sample_call 0 1000" _ 5000 24 5016])
  show "preload_malloc (sample_call 0 1000) 24 5000 (start_process 0 7) = (Inr 5016, sample_allocated)"
    by (simp add: sample_defs)
qed (simp_all add: sample_call_def start_process_def fresh_storage_def)



text \<open>A second thread that allocates first, frees its block and ends has the last node of the list.\<close>

abbreviation worker_started :: process where
  "worker_started \<equiv> (start_process 0 7)\<lparr> pr_live := insert 1 (pr_live (start_process 0 7)),
     pr_self := (pr_self (start_process 0 7))(1 := 9) \<rparr>"

definition worker_allocated :: process where
  "worker_allocated = snd (preload_malloc (sample_call 1 1000) 24 5000 worker_started)"

definition worker_freed :: process where
  "worker_freed = snd (preload_free 5016 worker_allocated)"

definition worker_ended :: process where
  "worker_ended = worker_freed\<lparr> pr_live := pr_live worker_freed - {1} \<rparr>"

definition worker_seen :: process where
  "worker_seen = worker_ended\<lparr>
     pr_storages := map_option (\<lambda>t. t\<lparr> ts_thread_alife := False \<rparr>) \<circ> pr_storages worker_ended, pr_it := 1000 \<rparr>"

lemmas worker_defs = worker_seen_def worker_ended_def worker_freed_def worker_allocated_def preload_free_def
  discount_block_def drop_block_def ts_count_deallocate_def count_deallocate_def sample_defs

lemma worker_seen_reached: "prog_step\<^sup>*\<^sup>* (start_process 0 7) worker_seen"
proof -
  have "prog_step (start_process 0 7) worker_started"
    by (rule Start) (simp_all add: start_process_def)
  moreover have "prog_step worker_started worker_allocated"
    by (rule Malloc [of "sample_call 1 1000" _ 5000 24 5016])
      (simp_all add: worker_allocated_def sample_defs fresh_storage_def)
  moreover have "prog_step worker_allocated worker_freed"
    by (rule Free [of 5016]) (simp_all add: worker_defs)
  moreover have "prog_step worker_freed worker_ended"
    unfolding worker_ended_def by (rule Exit)
  moreover have "collect (\<lambda>i. i = 7) worker_ended = Some (Inr (), worker_seen)"
    by (simp add: worker_defs collect_def ts_get_next_def mark_alive_def fun_eq_iff)
  then have "prog_step worker_ended worker_seen"
    by (rule Collect [rotated]) (auto simp: alive_ok_def worker_defs)
  ultimately show ?thesis
    by (meson converse_rtranclp_into_rtranclp rtranclp.rtrancl_refl)
qed


end
