(* ===== verification/PreloadClient.thy ===== *)
theory PreloadClient
  imports PreloadStorage AppStats
begin

text \<open>
  The reporting thread of the preloaded library (\<^verbatim>\<open>utils/lib_preload_race/src/main_logic.c\<close>,
  \<^verbatim>\<open>clock_times.c\<close>): it waits for a request of the statistics plugin and answers with one text per thread
  and one for the process. What the clocks and the socket return is an input. The last section composes
  it with the plugin (theory AppStats).
\<close>

section \<open>Clocks\<close>

definition diff_ns :: "timespec \<Rightarrow> timespec \<Rightarrow> u64" where
  "diff_ns first second =
     (tv_sec second - tv_sec first) * 1000000000 + (tv_nsec second - tv_nsec first)"

definition ct_measure_thread :: "timespec \<Rightarrow> thread_storage \<Rightarrow> u64 \<times> thread_storage" where
  "ct_measure_thread current_clock t =
     (let last_clock = ts_last_clock t; diff = diff_ns last_clock current_clock
      in (if tv_sec last_clock = 0 \<and> tv_nsec last_clock = 0 then 0 else diff,
          t\<lparr> ts_last_clock := current_clock \<rparr>))"

text \<open>A base of zero is a division by zero.\<close>

definition ct_calculate_percent :: "u64 \<Rightarrow> u64 \<Rightarrow> u32 option" where
  "ct_calculate_percent used base = (if base = 0 then None else Some (ucast ((100 * used) div base)))"

section \<open>The client\<close>

text \<open>\<open>cl_frames\<close> is what was handed to \<^verbatim>\<open>send\<close>.\<close>

record client =
  cl_process :: process
  cl_last_mono_clock :: timespec
  cl_last_proc_clock :: timespec
  cl_frames :: "string list"

datatype client_error =
    StorageFault mem_error
  | ClientBufferOverflow
  | DivisionByZero

definition ct_initialize :: "timespec \<Rightarrow> timespec \<Rightarrow> client \<Rightarrow> client" where
  "ct_initialize mono_now proc_now c = c\<lparr> cl_last_mono_clock := mono_now, cl_last_proc_clock := proc_now \<rparr>"

definition ct_get_measure_base :: "timespec \<Rightarrow> client \<Rightarrow> u64 \<times> client" where
  "ct_get_measure_base current_clock c =
     (diff_ns (cl_last_mono_clock c) current_clock, c\<lparr> cl_last_mono_clock := current_clock \<rparr>)"

definition ct_measure_process :: "timespec \<Rightarrow> client \<Rightarrow> u64 \<times> client" where
  "ct_measure_process current_clock c =
     (diff_ns (cl_last_proc_clock c) current_clock, c\<lparr> cl_last_proc_clock := current_clock \<rparr>)"

abbreviation SEND_BUFFER :: nat where "SEND_BUFFER \<equiv> 256"

text \<open>The frame has four characters before the text and a NUL behind it.\<close>

definition send_data :: "string \<Rightarrow> (client_error, client, unit) op" where
  "send_data text c =
     (if length text + 5 > SEND_BUFFER then (Inl ClientBufferOverflow, c)
      else (Inr (), c\<lparr> cl_frames := cl_frames c @ [''$'' @ print_hex2 (length text) @ '' '' @ text] \<rparr>))"

section \<open>The request\<close>

text \<open>\<open>r i\<close> is what the \<open>i\<close>-th call of \<^verbatim>\<open>read\<close> is offered: \<^const>\<open>None\<close> is an error, the empty text the end of the
  stream. A call takes at most as many characters as it asks for. The wait for the mark ends with the
  mark or with an error.\<close>

partial_function (option) wait_start :: "(nat \<Rightarrow> string option) \<Rightarrow> nat \<Rightarrow> nat option" where
  "wait_start r i =
     (case r i of
        None \<Rightarrow> Some (Suc i)
      | Some offered \<Rightarrow> (if take 1 offered = ''$'' then Some (Suc i) else wait_start r (Suc i)))"

definition read_into :: "string option \<Rightarrow> int \<Rightarrow> string \<Rightarrow> client_error + bool \<times> string" where
  "read_into offered n buf =
     (case offered of
        None \<Rightarrow> Inr (False, buf)
      | Some s \<Rightarrow>
          (case buf_write 0 (if n < 0 then s else take (nat n) s) buf of
             None \<Rightarrow> Inl ClientBufferOverflow
           | Some buf' \<Rightarrow> Inr (True, buf')))"

text \<open>The result: whether a request was read, the number of calls made, and the buffer.\<close>

definition read_request :: "(nat \<Rightarrow> string option) \<Rightarrow> nat \<Rightarrow> string \<Rightarrow> (client_error + bool \<times> nat \<times> string) option" where
  "read_request r i rec_buffer =
     (case wait_start r i of
        None \<Rightarrow> None
      | Some i \<Rightarrow> Some
          (case read_into (r i) 3 (rec_buffer[0 := if r (i - 1) = None then CHR 0x00 else CHR ''$'']) of
             Inl e \<Rightarrow> Inl e
           | Inr (False, buf) \<Rightarrow> Inr (False, Suc i, buf)
           | Inr (True, buf) \<Rightarrow>
               (let buf = buf[2 := CHR 0x00]; length = scan_hex buf
                in case read_into (r (Suc i)) length buf of
                     Inl e \<Rightarrow> Inl e
                   | Inr (ok, buf) \<Rightarrow> Inr (ok, Suc (Suc i), buf))))"

section \<open>The report\<close>

record round_env =
  re_millis_clock :: timespec
  re_base_clock :: timespec
  re_proc_clock :: timespec
  re_thread_clock :: "addr \<Rightarrow> timespec"
  re_name :: "u64 \<Rightarrow> string"
  re_alive :: "u64 \<Rightarrow> bool"
  re_progname :: string
  re_process_id :: u32

definition millisec :: "timespec \<Rightarrow> u32" where
  "millisec t = ucast (tv_nsec t div 1000000) + ucast (tv_sec t * 1000)"

definition print_u32 :: "u32 \<Rightarrow> string" where
  "print_u32 n = print_decimal (unat n)"

definition print_u64 :: "u64 \<Rightarrow> string" where
  "print_u64 n = print_decimal (unat n)"

definition thread_text :: "u32 \<Rightarrow> u32 \<Rightarrow> u32 \<Rightarrow> string \<Rightarrow> u64 \<Rightarrow> u64 \<Rightarrow> u32 \<Rightarrow> string" where
  "thread_text ms pid tid name peak count time =
     ''CC:'' @ print_u32 ms @ '' PI:'' @ print_u32 pid @ '' TI:'' @ print_u32 tid @
     '' TN:'' @ [CHR 0x22] @ name @ [CHR 0x22] @
     '' TP:'' @ print_u64 peak @ '' TC:'' @ print_u64 count @ '' TT:'' @ print_u32 time @ ''.0''"

definition process_text :: "u32 \<Rightarrow> u32 \<Rightarrow> string \<Rightarrow> u32 \<Rightarrow> string" where
  "process_text ms pid name time =
     ''CC:'' @ print_u32 ms @ '' PI:'' @ print_u32 pid @ '' PN:'' @ [CHR 0x22] @ name @ [CHR 0x22] @
     '' PT:'' @ print_u32 time @ ''.0''"

text \<open>The body of the loop for the node at \<open>p\<close>: its values are read and reset, then the text is sent. The
  text is printed into an array of 256 characters.\<close>

definition report_thread :: "round_env \<Rightarrow> u64 \<Rightarrow> addr \<Rightarrow> (client_error, client, unit) op" where
  "report_thread env base p c =
     (case pr_storages (cl_process c) p of
        None \<Rightarrow> (Inl (StorageFault UseAfterFree), c)
      | Some t \<Rightarrow>
          (case report_counters t of
             ((peak, count), t1) \<Rightarrow>
               (case ct_measure_thread (re_thread_clock env p) t1 of
                  (used, t2) \<Rightarrow>
                    (let c = c\<lparr> cl_process := (cl_process c)\<lparr> pr_storages :=
                                   (pr_storages (cl_process c))(p \<mapsto> t2) \<rparr> \<rparr>
                     in case ct_calculate_percent used base of
                          None \<Rightarrow> (Inl DivisionByZero, c)
                        | Some time \<Rightarrow>
                            (let text = thread_text (millisec (re_millis_clock env)) (re_process_id env)
                                   (ts_sys_thread_id t) (re_name env (ts_pthread_id t)) peak count time
                             in if length text + 1 > 256 then (Inl ClientBufferOverflow, c)
                                else send_data text c)))))"

definition client_collect :: "round_env \<Rightarrow> client \<Rightarrow> ((client_error + unit) \<times> client) option" where
  "client_collect env c =
     (case collect (re_alive env) (cl_process c) of
        None \<Rightarrow> None
      | Some (Inl e, s) \<Rightarrow> Some (Inl (StorageFault e), c\<lparr> cl_process := s \<rparr>)
      | Some (Inr _, s) \<Rightarrow> Some (Inr (), c\<lparr> cl_process := s \<rparr>))"

partial_function (option) report_loop ::
    "round_env \<Rightarrow> u64 \<Rightarrow> client \<Rightarrow> ((client_error + unit) \<times> client) option" where
  "report_loop env base c =
     (if pr_it (cl_process c) = NULL then Some (Inr (), c)
      else case report_thread env base (pr_it (cl_process c)) c of
             (Inl e, c1) \<Rightarrow> Some (Inl e, c1)
           | (Inr _, c1) \<Rightarrow>
               (case client_collect env c1 of
                  None \<Rightarrow> None
                | Some (Inl e, c2) \<Rightarrow> Some (Inl e, c2)
                | Some (Inr _, c2) \<Rightarrow> report_loop env base c2))"

definition report_process :: "round_env \<Rightarrow> u64 \<Rightarrow> (client_error, client, unit) op" where
  "report_process env base c =
     (case ct_measure_process (re_proc_clock env) c of
        (used, c) \<Rightarrow>
          (case ct_calculate_percent used base of
             None \<Rightarrow> (Inl DivisionByZero, c)
           | Some time \<Rightarrow>
               (let text = process_text (millisec (re_millis_clock env)) (re_process_id env) (re_progname env) time
                in if length text + 1 > 256 then (Inl ClientBufferOverflow, c) else send_data text c)))"

text \<open>What one request is answered with.\<close>

definition report_round :: "round_env \<Rightarrow> client \<Rightarrow> ((client_error + unit) \<times> client) option" where
  "report_round env c =
     (case ct_get_measure_base (re_base_clock env) c of
        (base, c) \<Rightarrow>
          (case client_collect env c of
             None \<Rightarrow> None
           | Some (Inl e, c) \<Rightarrow> Some (Inl e, c)
           | Some (Inr _, c) \<Rightarrow>
               (case report_loop env base c of
                  None \<Rightarrow> None
                | Some (Inl e, c) \<Rightarrow> Some (Inl e, c)
                | Some (Inr _, c) \<Rightarrow> Some (report_process env base c))))"

text \<open>One pass of the loop of a connected client.\<close>

definition client_pass ::
    "round_env \<Rightarrow> (nat \<Rightarrow> string option) \<Rightarrow> nat \<times> string \<Rightarrow> client \<Rightarrow>
     ((client_error + nat \<times> string) \<times> client) option" where
  "client_pass env r = (\<lambda>(i, buf) c.
     (case read_request r i buf of
        None \<Rightarrow> None
      | Some (Inl e) \<Rightarrow> Some (Inl e, c)
      | Some (Inr (False, p)) \<Rightarrow> Some (Inr p, c)
      | Some (Inr (True, p)) \<Rightarrow>
          (case report_round env c of
             None \<Rightarrow> None
           | Some (Inl e, c) \<Rightarrow> Some (Inl e, c)
           | Some (Inr _, c) \<Rightarrow> Some (Inr p, c))))"

text \<open>The whole pass: \<open>connect\<close> is what the call returns when it is made; the first component says whether the
  library is connected.\<close>

definition communication_pass ::
    "int \<Rightarrow> round_env \<Rightarrow> (nat \<Rightarrow> string option) \<Rightarrow> bool \<times> nat \<times> string \<Rightarrow> client \<Rightarrow>
     ((client_error + bool \<times> nat \<times> string) \<times> client) option" where
  "communication_pass connect env r = (\<lambda>(connected, p) c.
     (if \<not> connected \<and> connect < 0 then Some (Inr (False, p), c)
      else case client_pass env r p c of
             None \<Rightarrow> None
           | Some (Inl e, c) \<Rightarrow> Some (Inl e, c)
           | Some (Inr p, c) \<Rightarrow> Some (Inr (True, p), c)))"

section \<open>Lemmas\<close>

definition stops :: "string option \<Rightarrow> bool" where
  "stops x \<longleftrightarrow> x = None \<or> take 1 (the x) = ''$''"

lemma wait_start_step:
  "wait_start r i = (if stops (r i) then Some (Suc i) else wait_start r (Suc i))"
  by (subst wait_start.simps) (auto simp: stops_def split: option.split)

lemma wait_start_first:
  "stops (r (i + n)) \<Longrightarrow> \<forall>k < n. \<not> stops (r (i + k)) \<Longrightarrow> wait_start r i = Some (Suc (i + n))"
proof (induction n arbitrary: i)
  case 0
  then show ?case
    by (simp add: wait_start_step [of r i])
next
  case (Suc n)
  have "\<forall>k < n. \<not> stops (r (Suc i + k))"
  proof (intro allI impI)
    fix k
    assume "k < n"
    then show "\<not> stops (r (Suc i + k))"
      using Suc.prems(2) by (metis Suc_less_eq add_Suc_shift)
  qed
  moreover have "\<not> stops (r i)"
    using Suc.prems(2) by (metis add_0_right zero_less_Suc)
  ultimately show ?case
    using Suc.IH [of "Suc i"] Suc.prems(1) by (simp add: wait_start_step [of r i])
qed

lemma wait_start_found: "wait_start r i = Some j \<Longrightarrow> \<exists>k \<ge> i. stops (r k)"
proof (induction rule: wait_start.raw_induct [rotated 1, consumes 1])
  case (1 wait r i j)
  then show ?case
    by (auto simp: stops_def split: option.splits if_splits) (meson Suc_leD)+
qed

lemma wait_start_None: "wait_start r i = None \<longleftrightarrow> (\<forall>k \<ge> i. \<not> stops (r k))"
proof
  assume n: "wait_start r i = None"
  show "\<forall>k \<ge> i. \<not> stops (r k)"
  proof (rule ccontr)
    assume "\<not> (\<forall>k \<ge> i. \<not> stops (r k))"
    then obtain d where d: "stops (r (i + d))"
      by (metis le_add_diff_inverse)
    then obtain n where "stops (r (i + n))" "\<forall>k < n. \<not> stops (r (i + k))"
      using LeastI [of "\<lambda>d. stops (r (i + d))"] not_less_Least [of _ "\<lambda>d. stops (r (i + d))"] by metis
    then show False
      using wait_start_first n by simp
  qed
qed (use wait_start_found in fastforce)

text \<open>The frame of a text, and the report on a node.\<close>

definition answer_frame :: "string \<Rightarrow> string" where
  "answer_frame text = ''$'' @ print_hex2 (length text) @ '' '' @ text"

definition thread_report :: "round_env \<Rightarrow> u64 \<Rightarrow> addr \<Rightarrow> thread_storage \<Rightarrow> string" where
  "thread_report env base p t =
     thread_text (millisec (re_millis_clock env)) (re_process_id env) (ts_sys_thread_id t)
       (re_name env (ts_pthread_id t)) (ts_mem_peak t) (ts_count_overall t)
       (ucast (100 * fst (ct_measure_thread (re_thread_clock env p) t) div base))"

lemma thread_report_alife [simp]:
  "thread_report env base p (t\<lparr> ts_thread_alife := b \<rparr>) = thread_report env base p t"
  by (simp add: thread_report_def ct_measure_thread_def Let_def)

lemma report_thread_ok:
  assumes "pr_storages (cl_process c) p = Some t" "base \<noteq> 0" "length (thread_report env base p t) \<le> 251"
  shows "\<exists>t'. report_thread env base p c = (Inr (), c\<lparr> cl_process := (cl_process c)\<lparr> pr_storages :=
        (pr_storages (cl_process c))(p \<mapsto> t') \<rparr>, cl_frames := cl_frames c @ [answer_frame (thread_report env base p t)] \<rparr>) \<and>
      t' = snd (ct_measure_thread (re_thread_clock env p) (snd (report_counters t)))"
proof -
  obtain used t2 where m: "ct_measure_thread (re_thread_clock env p) (snd (report_counters t)) = (used, t2)"
    by (cases "ct_measure_thread (re_thread_clock env p) (snd (report_counters t))")
  have u: "fst (ct_measure_thread (re_thread_clock env p) t) = used"
    using m by (auto simp: ct_measure_thread_def Let_def report_counters_def ts_get_memory_peak_def
        ts_get_alloc_count_def)
  obtain t1 where rc: "report_counters t = ((ts_mem_peak t, ts_count_overall t), t1)"
    by (simp add: report_counters_def ts_get_memory_peak_def ts_get_alloc_count_def)
  have "report_thread env base p c = (Inr (), c\<lparr> cl_process := (cl_process c)\<lparr> pr_storages :=
        (pr_storages (cl_process c))(p \<mapsto> t2) \<rparr>, cl_frames := cl_frames c @ [answer_frame (thread_report env base p t)] \<rparr>)"
    using assms m rc unfolding report_thread_def
    by (simp add: ct_calculate_percent_def Let_def send_data_def answer_frame_def thread_report_def u)
  then show ?thesis
    using m by (intro exI [of _ t2]) simp
qed

lemma counter_update_measured: "counter_update (\<lambda>t. snd (ct_measure_thread clock (snd (report_counters t))))"
  by (simp add: counter_update_def ct_measure_thread_def Let_def report_counters_def ts_get_memory_peak_def
      ts_get_alloc_count_def)

lemma measured_ok:
  fixes t clock
  defines "t' \<equiv> snd (ct_measure_thread clock (snd (report_counters t)))"
  assumes "process_ok no_difference s" "pr_storages s p = Some t"
  shows "process_ok no_difference (s\<lparr> pr_storages := (pr_storages s)(p \<mapsto> t') \<rparr>)"
proof -
  have "shaped (s\<lparr> pr_storages := (pr_storages s)(p \<mapsto> t') \<rparr>)"
    using assms(2,3) shaped_update [OF _ _ counter_update_measured, of s p t clock]
    by (simp add: process_ok_def t'_def)
  moreover have "accounted (differ p 0 0 no_difference) (s\<lparr> pr_storages := (pr_storages s)(p \<mapsto> t') \<rparr>)"
    using assms(2,3) by (intro accounted_update [where t = t])
      (auto simp: process_ok_def t'_def ct_measure_thread_def Let_def report_counters_def ts_get_memory_peak_def
        ts_get_alloc_count_def)
  moreover have "differ p 0 0 no_difference = no_difference"
    by (simp add: differ_def no_difference_def fun_eq_iff)
  ultimately show ?thesis
    by (simp add: process_ok_def)
qed

lemma measured_fields:
  "t' = snd (ct_measure_thread clock (snd (report_counters t))) \<Longrightarrow>
     ts_next t' = ts_next t \<and> ts_thread_alife t' = ts_thread_alife t \<and> ts_pthread_id t' = ts_pthread_id t"
  by (simp add: ct_measure_thread_def Let_def report_counters_def ts_get_memory_peak_def ts_get_alloc_count_def)

text \<open>The last node keeps the walk from going wrong when its thread runs or it has blocks.\<close>

definition last_stays :: "(u64 \<Rightarrow> bool) \<Rightarrow> process \<Rightarrow> addr list \<Rightarrow> bool" where
  "last_stays alive s xs \<longleftrightarrow>
     (xs \<noteq> [] \<longrightarrow> (\<exists>t. pr_storages s (last xs) = Some t \<and> (alive (ts_pthread_id t) \<or> owned s (last xs) \<noteq> {})))"

text \<open>Where the reporting thread stands in the middle of its walk.\<close>

definition walking :: "round_env \<Rightarrow> process \<Rightarrow> addr list \<Rightarrow> bool" where
  "walking env s xs \<longleftrightarrow>
     process_ok no_difference s \<and> alive_ok (re_alive env) s \<and> chain (pr_storages s) (pr_it s) xs \<and> distinct xs \<and>
     last_stays (re_alive env) s xs \<and>
     (\<forall>t. pr_storages s (pr_it s) = Some t \<longrightarrow> ts_thread_alife t = re_alive env (ts_pthread_id t))"

definition reports :: "round_env \<Rightarrow> u64 \<Rightarrow> process \<Rightarrow> addr list \<Rightarrow> string list" where
  "reports env base s xs = map (\<lambda>x. thread_report env base x (the (pr_storages s x))) xs"

lemma rest_kept_reports: "rest_kept alive q bs s s' \<Longrightarrow> reports env base s' bs = reports env base s bs"
  unfolding reports_def rest_kept_def by (intro map_cong refl) fastforce

lemma rest_kept_last:
  assumes "rest_kept alive q bs s s'" "last_stays alive s bs"
  shows "last_stays alive s' bs"
  unfolding last_stays_def
proof
  assume ne: "bs \<noteq> []"
  then obtain t b where "pr_storages s (last bs) = Some t" "pr_storages s' (last bs) = Some (t\<lparr> ts_thread_alife := b \<rparr>)"
    using assms(1) unfolding rest_kept_def by (meson last_in_set)
  moreover have "owned s' (last bs) = owned s (last bs)"
    using assms(1) by (simp add: rest_kept_def owned_def)
  ultimately show "\<exists>t. pr_storages s' (last bs) = Some t \<and> (alive (ts_pthread_id t) \<or> owned s' (last bs) \<noteq> {})"
    using assms(2) ne by (simp add: last_stays_def)
qed

lemma walking_next:
  assumes "rest_kept (re_alive env) q bs s s'" "process_ok no_difference s'" "pr_it s' = q"
    and "alive_ok (re_alive env) s" "distinct bs" "last_stays (re_alive env) s bs"
  shows "walking env s' bs"
proof -
  have "ts_thread_alife t = re_alive env (ts_pthread_id t)" if t: "pr_storages s' q = Some t" for t
  proof -
    have "q \<noteq> NULL"
      using t shaped_NULL assms(2) by (auto simp: process_ok_def)
    then have "q \<in> set bs"
      using assms(1) by (cases bs) (auto simp: rest_kept_def)
    then show ?thesis
      using assms(1) t unfolding rest_kept_def by fastforce
  qed
  moreover have "alive_ok (re_alive env) s'"
    using assms(1,4) by (simp add: rest_kept_def alive_ok_def)
  ultimately show ?thesis
    using assms(1-3,5) rest_kept_last [OF assms(1,6)] by (simp add: walking_def rest_kept_def)
qed

lemma walking_step:
  fixes t clock p
  defines "t' \<equiv> snd (ct_measure_thread clock (snd (report_counters t)))"
  assumes "walking env s (p # bs)" "pr_storages s p = Some t"
  shows "\<exists>s'. collect (re_alive env) (s\<lparr> pr_storages := (pr_storages s)(p \<mapsto> t') \<rparr>) = Some (Inr (), s') \<and>
    walking env s' bs \<and> reports env base s' bs = reports env base s bs"
proof -
  let ?s = "s\<lparr> pr_storages := (pr_storages s)(p \<mapsto> t') \<rparr>"
  have ok: "process_ok no_difference s" and p: "p \<noteq> NULL" "pr_it s = p" "p \<notin> set bs" "distinct bs"
    and rest: "chain (pr_storages s) (ts_next t) bs" and alive: "alive_ok (re_alive env) s"
    and lst: "last_stays (re_alive env) s (p # bs)" and flag: "ts_thread_alife t = re_alive env (ts_pthread_id t)"
    using assms(2,3) by (simp_all add: walking_def)
  have t': "ts_next t' = ts_next t" "ts_thread_alife t' = ts_thread_alife t"
    using measured_fields [of t' clock t] by (simp_all add: t'_def)
  have ok': "process_ok no_difference ?s"
    using measured_ok [OF ok assms(3)] by (simp add: t'_def)
  have rest': "chain (pr_storages ?s) (ts_next t) bs"
    using rest chain_other [OF p(3), of "pr_storages s" "Some t'"] by simp
  have alive': "alive_ok (re_alive env) ?s"
    using alive by (simp add: alive_ok_def)
  have own: "owned ?s x = owned s x" for x
    by (simp add: owned_def)
  have "\<not> last_and_dead ?s"
  proof
    assume dead: "last_and_dead ?s"
    then have "ts_next t = NULL"
      using p(2) t' by (simp add: last_and_dead_def)
    then have "bs = []"
      using rest by (cases bs) auto
    then show False
      using dead lst flag p(2) t' own assms(3) by (simp add: last_and_dead_def last_stays_def)
  qed
  moreover have "pr_it ?s = p" "pr_storages ?s p = Some t'"
    using p(2) by simp_all
  ultimately have "\<exists>s'. collect (re_alive env) ?s = Some (Inr (), s') \<and> pr_it s' = ts_next t \<and>
      rest_kept (re_alive env) (ts_next t) bs ?s s' \<and> process_ok no_difference s'"
    using p(1) t'(1) by (intro collect_rest [OF ok' alive' _ _ _ rest', where t = t']) simp_all
  then obtain s' where s': "collect (re_alive env) ?s = Some (Inr (), s')" "pr_it s' = ts_next t"
    "rest_kept (re_alive env) (ts_next t) bs ?s s'" "process_ok no_difference s'"
    by blast
  have "last_stays (re_alive env) ?s bs"
    using lst p(3) own by (auto simp: last_stays_def)
  then have "walking env s' bs"
    using walking_next [OF s'(3,4,2)] alive p(4) by (simp add: alive_ok_def)
  moreover have "reports env base ?s bs = reports env base s bs"
    using p(3) by (auto simp: reports_def)
  ultimately show ?thesis
    using s'(1) rest_kept_reports [OF s'(3)] by (intro exI [of _ s']) simp
qed

text \<open>The walk reports every node that is left, in the order of the list.\<close>

lemma report_loop_all:
  assumes "walking env (cl_process c) xs" "base \<noteq> 0"
    and "\<forall>text \<in> set (reports env base (cl_process c) xs). length text \<le> 251"
  shows "\<exists>c'. report_loop env base c = Some (Inr (), c') \<and>
    cl_frames c' = cl_frames c @ map answer_frame (reports env base (cl_process c) xs) \<and>
    cl_last_proc_clock c' = cl_last_proc_clock c \<and> pr_it (cl_process c') = NULL \<and>
    process_ok no_difference (cl_process c')"
  using assms
proof (induction xs arbitrary: c)
  case Nil
  then show ?case
    by (simp add: report_loop.simps [of env base c] walking_def reports_def)
next
  case (Cons p bs)
  let ?s = "cl_process c"
  obtain t where p: "pr_it ?s = p" "p \<noteq> NULL" "pr_storages ?s p = Some t"
    using Cons.prems(1) by (auto simp: walking_def)
  have len: "length (thread_report env base p t) \<le> 251"
    using Cons.prems(3) p(3) by (simp add: reports_def)
  obtain t' where r: "report_thread env base p c = (Inr (), c\<lparr> cl_process := ?s\<lparr> pr_storages :=
        (pr_storages ?s)(p \<mapsto> t') \<rparr>, cl_frames := cl_frames c @ [answer_frame (thread_report env base p t)] \<rparr>)"
    and t': "t' = snd (ct_measure_thread (re_thread_clock env p) (snd (report_counters t)))"
    using report_thread_ok [OF p(3) Cons.prems(2) len] by blast
  obtain s' where s': "collect (re_alive env) (?s\<lparr> pr_storages := (pr_storages ?s)(p \<mapsto> t') \<rparr>) = Some (Inr (), s')"
    "walking env s' bs" "reports env base s' bs = reports env base ?s bs"
    using walking_step [OF Cons.prems(1) p(3)] t' by blast
  let ?c = "c\<lparr> cl_frames := cl_frames c @ [answer_frame (thread_report env base p t)], cl_process := s' \<rparr>"
  have "report_loop env base c = report_loop env base ?c"
    using p r s'(1) by (simp add: report_loop.simps [of env base c] client_collect_def)
  moreover have "\<forall>text \<in> set (reports env base (cl_process ?c) bs). length text \<le> 251"
    using Cons.prems(3) s'(3) by (simp add: reports_def)
  then obtain c' where "report_loop env base ?c = Some (Inr (), c')"
    "cl_frames c' = cl_frames ?c @ map answer_frame (reports env base s' bs)"
    "cl_last_proc_clock c' = cl_last_proc_clock ?c" "pr_it (cl_process c') = NULL"
    "process_ok no_difference (cl_process c')"
    using Cons.IH [of ?c] s'(2) Cons.prems(2) by auto
  ultimately show ?case
    using s'(3) p(3) by (intro exI [of _ c']) (simp add: reports_def)
qed

definition process_report :: "round_env \<Rightarrow> u64 \<Rightarrow> timespec \<Rightarrow> string" where
  "process_report env base previous =
     process_text (millisec (re_millis_clock env)) (re_process_id env) (re_progname env)
       (ucast (100 * diff_ns previous (re_proc_clock env) div base))"

lemma report_process_ok:
  assumes "base \<noteq> 0" "length (process_report env base (cl_last_proc_clock c)) \<le> 251"
  shows "report_process env base c = (Inr (), c\<lparr> cl_last_proc_clock := re_proc_clock env,
    cl_frames := cl_frames c @ [answer_frame (process_report env base (cl_last_proc_clock c))] \<rparr>)"
  using assms by (simp add: report_process_def ct_measure_process_def ct_calculate_percent_def Let_def send_data_def
      answer_frame_def process_report_def)

text \<open>The texts of a whole answer.\<close>

definition answer_texts :: "round_env \<Rightarrow> client \<Rightarrow> addr list \<Rightarrow> string list" where
  "answer_texts env c xs =
     (let base = diff_ns (cl_last_mono_clock c) (re_base_clock env)
      in reports env base (cl_process c) xs @ [process_report env base (cl_last_proc_clock c)])"

lemma report_round_all:
  assumes "process_ok no_difference (cl_process c)" "pr_it (cl_process c) = NULL"
    and "alive_ok (re_alive env) (cl_process c)"
    and "chain (pr_storages (cl_process c)) (pr_g_thread_storage (cl_process c)) xs" "distinct xs"
    and "last_stays (re_alive env) (cl_process c) xs"
    and "diff_ns (cl_last_mono_clock c) (re_base_clock env) \<noteq> 0"
    and "\<forall>text \<in> set (answer_texts env c xs). length text \<le> 251"
  shows "\<exists>c'. report_round env c = Some (Inr (), c') \<and>
    cl_frames c' = cl_frames c @ map answer_frame (answer_texts env c xs) \<and>
    pr_it (cl_process c') = NULL \<and> process_ok no_difference (cl_process c')"
proof -
  let ?s = "cl_process c" and ?base = "diff_ns (cl_last_mono_clock c) (re_base_clock env)"
  have "\<exists>s'. collect (re_alive env) ?s = Some (Inr (), s') \<and> pr_it s' = pr_g_thread_storage ?s \<and>
      rest_kept (re_alive env) (pr_g_thread_storage ?s) xs ?s s' \<and> process_ok no_difference s'"
    using assms(2) by (intro collect_rest [OF assms(1,3) _ _ _ assms(4)]) (simp_all add: last_and_dead_def)
  then obtain s' where s': "collect (re_alive env) ?s = Some (Inr (), s')" "pr_it s' = pr_g_thread_storage ?s"
    "rest_kept (re_alive env) (pr_g_thread_storage ?s) xs ?s s'" "process_ok no_difference s'"
    by blast
  let ?c = "c\<lparr> cl_last_mono_clock := re_base_clock env, cl_process := s' \<rparr>"
  have texts: "answer_texts env c xs =
      reports env ?base s' xs @ [process_report env ?base (cl_last_proc_clock c)]"
    using rest_kept_reports [OF s'(3)] by (simp add: answer_texts_def Let_def)
  have "walking env (cl_process ?c) xs"
    using walking_next [OF s'(3,4,2) assms(3,5,6)] by simp
  moreover have "\<forall>text \<in> set (reports env ?base (cl_process ?c) xs). length text \<le> 251"
    using assms(8) by (simp add: texts)
  ultimately obtain c1 where c1: "report_loop env ?base ?c = Some (Inr (), c1)"
    "cl_frames c1 = cl_frames c @ map answer_frame (reports env ?base s' xs)"
    "cl_last_proc_clock c1 = cl_last_proc_clock c" "pr_it (cl_process c1) = NULL"
    "process_ok no_difference (cl_process c1)"
    using report_loop_all [OF _ assms(7), of env ?c xs] by auto
  have "length (process_report env ?base (cl_last_proc_clock c1)) \<le> 251"
    using assms(8) c1(3) by (simp add: texts)
  note proc = report_process_ok [OF assms(7) this]
  have "report_round env c = Some (report_process env ?base c1)"
    using s'(1) c1(1) by (simp add: report_round_def ct_get_measure_base_def client_collect_def)
  then show ?thesis
    using proc c1 by (simp add: texts)
qed

section \<open>The plugin at the other end\<close>

text \<open>What the plugin's reads deliver when each takes one part of a frame.\<close>

definition reads_of :: "string list \<Rightarrow> string option list" where
  "reads_of texts =
     concat (map (\<lambda>text. [Some ''$'', Some (print_hex2 (length text) @ '' ''), Some text]) texts)"

lemma reads_of_frames: "concat (map the (reads_of texts)) = concat (map answer_frame texts)"
  by (induction texts) (simp_all add: reads_of_def answer_frame_def)

abbreviation read_answer :: "(stats_error, stats_collector, unit) op" where
  "read_answer \<equiv> bindE (read_socket (int START_FLAG_LENGTH)) processMessage"

lemma plugin_forwards:
  assumes "length (tc_buffer pc) = BUF_SIZE + 1" "tc_reads pc = reads_of texts @ rs"
    and "\<forall>text \<in> set texts. length text < 256"
  shows "\<exists>pc'. seqE (replicate (length texts) read_answer) pc = (Inr (), pc') \<and>
    tc_traces pc' = tc_traces pc @ texts \<and> tc_reads pc' = rs"
  using assms
proof (induction texts arbitrary: pc)
  case Nil
  then show ?case
    by (simp add: reads_of_def)
next
  case (Cons x texts)
  have "tc_reads pc = Some ''$'' # Some (print_hex2 (length x) @ '' '') # Some x # reads_of texts @ rs"
    using Cons.prems(2) by (simp add: reads_of_def)
  moreover have "length x < 256"
    using Cons.prems(3) by simp
  ultimately obtain pc1 where pc1: "read_answer pc = (Inr (), pc1)" "tc_traces pc1 = tc_traces pc @ [x]"
    "tc_reads pc1 = reads_of texts @ rs" "length (tc_buffer pc1) = BUF_SIZE + 1"
    using answer_forwarded [OF Cons.prems(1), of x "CHR '' ''" "reads_of texts @ rs"] by blast
  obtain pc' where "seqE (replicate (length texts) read_answer) pc1 = (Inr (), pc')"
    "tc_traces pc' = tc_traces pc1 @ texts" "tc_reads pc' = rs"
    using Cons.IH [OF pc1(4,3)] Cons.prems(3) by auto
  then show ?case
    using pc1(1,2) by (simp add: thenE_def bindE_def)
qed

text \<open>A request, from the reachable process to the texts the plugin forwards.\<close>

lemma preload_report_sent:
  assumes "prog_step\<^sup>*\<^sup>* (start_process m self) (cl_process c)" "pr_it (cl_process c) = NULL"
    and "alive_ok (re_alive env) (cl_process c)"
    and "chain (pr_storages (cl_process c)) (pr_g_thread_storage (cl_process c)) xs"
    and "xs \<noteq> [] \<longrightarrow> re_alive env (ts_pthread_id (the (pr_storages (cl_process c) (last xs)))) \<or>
           (\<exists>b h. pr_blocks (cl_process c) b = Some h \<and> ah_counters h = last xs)"
    and "diff_ns (cl_last_mono_clock c) (re_base_clock env) \<noteq> 0"
    and "\<forall>x \<in> set (answer_texts env c xs). length x \<le> 251"
    and "length (tc_buffer pc) = BUF_SIZE + 1" "tc_reads pc = reads_of (answer_texts env c xs) @ rs"
  shows "set xs = dom (pr_storages (cl_process c)) \<and> distinct xs \<and>
    (\<exists>c'. report_round env c = Some (Inr (), c') \<and>
       cl_frames c' = cl_frames c @ map answer_frame (answer_texts env c xs)) \<and>
    concat (map the (reads_of (answer_texts env c xs))) = concat (map answer_frame (answer_texts env c xs)) \<and>
    (\<exists>pc'. seqE (replicate (length (answer_texts env c xs)) read_answer) pc = (Inr (), pc') \<and>
       tc_traces pc' = tc_traces pc @ answer_texts env c xs \<and> tc_reads pc' = rs)"
proof -
  have ok: "process_ok no_difference (cl_process c)"
    using reachable_ok [OF assms(1)] .
  obtain ys where "chain (pr_storages (cl_process c)) (pr_g_thread_storage (cl_process c)) ys" "distinct ys"
    "dom (pr_storages (cl_process c)) = set ys"
    using ok by (auto simp: process_ok_def shaped_def)
  moreover from this have "xs = ys"
    using chain_unique assms(4) by blast
  ultimately have xs: "distinct xs" "set xs = dom (pr_storages (cl_process c))"
    by simp_all
  have "last_stays (re_alive env) (cl_process c) xs"
    unfolding last_stays_def
  proof
    assume "xs \<noteq> []"
    moreover from this obtain t where "pr_storages (cl_process c) (last xs) = Some t"
      using xs(2) last_in_set by blast
    ultimately show "\<exists>t. pr_storages (cl_process c) (last xs) = Some t \<and>
        (re_alive env (ts_pthread_id t) \<or> owned (cl_process c) (last xs) \<noteq> {})"
      using assms(5) by (auto simp: owned_def)
  qed
  then obtain c' where "report_round env c = Some (Inr (), c')"
    "cl_frames c' = cl_frames c @ map answer_frame (answer_texts env c xs)"
    using report_round_all [OF ok assms(2,3,4) xs(1) _ assms(6,7)] by blast
  moreover have "\<forall>x \<in> set (answer_texts env c xs). length x < 256"
    using assms(7) by fastforce
  ultimately show ?thesis
    using xs reads_of_frames plugin_forwards [OF assms(8,9)] by blast
qed

section \<open>Properties\<close>

text \<open>C10: What the library answers reaches the trace whole. In every run of the program, a request at which the
  clock has advanced is answered with one text for each storage of the list, each once and in the order of
  the list, and one for the process, unless the last thread of the list has ended and has no blocks left,
  or a text is too long for the buffers. When each read of the plugin takes one part of a frame, the plugin
  forwards exactly these texts.\<close>

theorem preload_report_forwarded:
  assumes "prog_step\<^sup>*\<^sup>* (start_process m self) (cl_process c)" "pr_it (cl_process c) = NULL"
    and "alive_ok (re_alive env) (cl_process c)"
    and "chain (pr_storages (cl_process c)) (pr_g_thread_storage (cl_process c)) xs"
    and "xs \<noteq> [] \<longrightarrow> re_alive env (ts_pthread_id (the (pr_storages (cl_process c) (last xs)))) \<or>
           (\<exists>b h. pr_blocks (cl_process c) b = Some h \<and> ah_counters h = last xs)"
    and "diff_ns (cl_last_mono_clock c) (re_base_clock env) \<noteq> 0"
    and "\<forall>x \<in> set (answer_texts env c xs). length x \<le> 251"
    and "length (tc_buffer pc) = BUF_SIZE + 1" "tc_reads pc = reads_of (answer_texts env c xs) @ rs"
  shows "set xs = dom (pr_storages (cl_process c)) \<and> distinct xs \<and>
    (\<exists>c'. report_round env c = Some (Inr (), c') \<and>
       cl_frames c' = cl_frames c @ map answer_frame (answer_texts env c xs)) \<and>
    concat (map the (reads_of (answer_texts env c xs))) = concat (map answer_frame (answer_texts env c xs)) \<and>
    (\<exists>pc'. seqE (replicate (length (answer_texts env c xs)) read_answer) pc = (Inr (), pc') \<and>
       tc_traces pc' = tc_traces pc @ answer_texts env c xs \<and> tc_reads pc' = rs)"
  using preload_report_sent [OF assms] .

definition sample_env :: round_env where
  "sample_env =
     \<lparr> re_millis_clock = \<lparr> tv_sec = 2, tv_nsec = 5000000 \<rparr>, re_base_clock = \<lparr> tv_sec = 2, tv_nsec = 0 \<rparr>,
       re_proc_clock = \<lparr> tv_sec = 0, tv_nsec = 500000000 \<rparr>,
       re_thread_clock = (\<lambda>_. \<lparr> tv_sec = 0, tv_nsec = 500000000 \<rparr>), re_name = (\<lambda>_. ''main''),
       re_alive = (\<lambda>_. True), re_progname = ''demo'', re_process_id = 42 \<rparr>"

lemma sample_numbers:
  "print_decimal 2005 = ''2005''" "print_decimal 42 = ''42''" "print_decimal 24 = ''24''" "print_decimal 50 = ''50''"
  "print_decimal (Suc 0) = ''1''" "print_decimal 0 = ''0''"
  by code_simp+

definition sample_client :: client where
  "sample_client =
     \<lparr> cl_process = sample_allocated, cl_last_mono_clock = \<lparr> tv_sec = 1, tv_nsec = 0 \<rparr>,
       cl_last_proc_clock = \<lparr> tv_sec = 0, tv_nsec = 0 \<rparr>, cl_frames = [] \<rparr>"

lemma sample_texts: "answer_texts sample_env sample_client [1000] =
    [''CC:2005 PI:42 TI:1 TN:'' @ [CHR 0x22] @ ''main'' @ [CHR 0x22] @ '' TP:24 TC:1 TT:0.0'',
     ''CC:2005 PI:42 PN:'' @ [CHR 0x22] @ ''demo'' @ [CHR 0x22] @ '' PT:50.0'']"
  by (simp add: sample_client_def sample_env_def answer_texts_def reports_def thread_report_def process_report_def
      thread_text_def process_text_def millisec_def print_u32_def print_u64_def diff_ns_def ct_measure_thread_def
      sample_defs sample_numbers)

theorem preload_report_forwarded_witness:
  "\<exists>c'. report_round sample_env sample_client = Some (Inr (), c') \<and> length (cl_frames c') = 2"
proof -
  let ?texts = "answer_texts sample_env sample_client [1000]"
  let ?pc = "new_CThreadStatsCollector [] 1 [] (replicate 257 CHR 0x00) (reads_of ?texts @ [])"
  have reach: "prog_step\<^sup>*\<^sup>* (start_process 0 7) (cl_process sample_client)"
    using sample_allocated_reached by (simp add: sample_client_def)
  have "pr_it (cl_process sample_client) = NULL"
    "chain (pr_storages (cl_process sample_client)) (pr_g_thread_storage (cl_process sample_client)) [1000]"
    by (simp_all add: sample_client_def sample_defs)
  moreover have "alive_ok (re_alive sample_env) (cl_process sample_client)" "\<And>i. re_alive sample_env i"
    by (simp_all add: alive_ok_def sample_env_def)
  moreover have "diff_ns (cl_last_mono_clock sample_client) (re_base_clock sample_env) \<noteq> 0"
    by (simp add: sample_client_def sample_env_def diff_ns_def)
  moreover have "\<forall>x \<in> set ?texts. length x \<le> 251"
    by (simp add: sample_texts)
  moreover have "length (tc_buffer ?pc) = BUF_SIZE + 1" "tc_reads ?pc = reads_of ?texts @ []"
    by (simp_all add: new_CThreadStatsCollector_def)
  ultimately have "\<exists>c'. report_round sample_env sample_client = Some (Inr (), c') \<and>
      cl_frames c' = cl_frames sample_client @ map answer_frame ?texts"
    using preload_report_forwarded [OF reach, of sample_env "[1000]" ?pc "[]"] by blast
  moreover have "cl_frames sample_client = []"
    by (simp add: sample_client_def)
  moreover have "length ?texts = 2"
    by (simp add: sample_texts)
  ultimately show ?thesis
    by fastforce
qed

text \<open>C30: How long the library waits for a request. It waits until the first read that fails or delivers the
  mark, so for ever when none does: once the plugin has closed the connection, every read delivers
  nothing, a pass of the loop does not come back, and so does not see that the library is to end.\<close>

theorem request_wait:
  "(wait_start r i = None \<longleftrightarrow> (\<forall>k \<ge> i. r k \<noteq> None \<and> take 1 (the (r k)) \<noteq> ''$'')) \<and>
   (\<forall>n. (r (i + n) = None \<or> take 1 (the (r (i + n))) = ''$'') \<and>
        (\<forall>k < n. r (i + k) \<noteq> None \<and> take 1 (the (r (i + k))) \<noteq> ''$'') \<longrightarrow>
        wait_start r i = Some (Suc (i + n))) \<and>
   ((\<forall>k \<ge> i. r k = Some []) \<longrightarrow> communication_pass connect env r (True, i, buf) c = None)"
proof (intro conjI allI impI)
  show wait: "wait_start r i = None \<longleftrightarrow> (\<forall>k \<ge> i. r k \<noteq> None \<and> take 1 (the (r k)) \<noteq> ''$'')"
    by (simp add: wait_start_None stops_def)
  show "wait_start r i = Some (Suc (i + n))"
    if "(r (i + n) = None \<or> take 1 (the (r (i + n))) = ''$'') \<and>
        (\<forall>k < n. r (i + k) \<noteq> None \<and> take 1 (the (r (i + k))) \<noteq> ''$'')" for n
    using that by (intro wait_start_first) (simp_all add: stops_def)
  show "communication_pass connect env r (True, i, buf) c = None" if "\<forall>k \<ge> i. r k = Some []"
    using that wait by (simp add: communication_pass_def client_pass_def read_request_def)
qed

theorem request_wait_witness:
  "wait_start (\<lambda>k. if k = 2 then Some ''$'' else Some []) 0 = Some 3 \<and>
   communication_pass 0 sample_env (\<lambda>k. if k = 0 then Some ''$'' else Some []) (True, 1, []) sample_client = None"
proof
  show "wait_start (\<lambda>k. if k = 2 then Some ''$'' else Some []) 0 = Some 3"
    using request_wait [of "\<lambda>k. if k = 2 then Some ''$'' else Some []" 0, THEN conjunct2, THEN conjunct1, THEN spec [of _ 2]]
    by simp
  show "communication_pass 0 sample_env (\<lambda>k. if k = 0 then Some ''$'' else Some []) (True, 1, []) sample_client = None"
    using request_wait [of "\<lambda>k. if k = 0 then Some ''$'' else Some []" 1] by simp
qed

end
