(* ===== verification/PluginSenders.thy ===== *)
theory PluginSenders
  imports AgentRuntime Log4jReader PreloadClient SocketReader DltMonitor ResourceMonitor
begin

text \<open>
  From the plugins through the agent to the host. The plugins' send functions serialize a message and
  hand it to the plugin proxy; the last sections compose the models of a plugin, the runtime, the recorder,
  the communication controller and the dispatcher, and let the dispatcher's receiver read at the host's
  end. Serializing is protocol buffers' code, a parameter.
\<close>

section \<open>The send functions\<close>

definition serialized_send ::
    "message_type \<Rightarrow> ('m \<Rightarrow> byte list option) \<Rightarrow> u64 \<Rightarrow> (string \<times> string) list option \<Rightarrow> msg_env \<Rightarrow> 'm \<Rightarrow>
     host_event list" where
  "serialized_send ty ser timestamp ctx env m =
     (case ser m of
        None \<Rightarrow> []
      | Some payload \<Rightarrow> [Send env ty (int (length payload)) payload timestamp ctx])"

definition log4j_send :: "(log4j_message \<Rightarrow> byte list option) \<Rightarrow> msg_env \<Rightarrow> log4j_message \<Rightarrow> host_event list" where
  "log4j_send ser env m = serialized_send MSG_TYPE_LOG4J ser (lm_timestamp m) None env m"

definition stats_send :: "(string \<Rightarrow> byte list option) \<Rightarrow> msg_env \<Rightarrow> string \<Rightarrow> host_event list" where
  "stats_send ser env m = serialized_send MSG_TYPE_LINUX_APP_STATS ser 0 None env m"

definition reader_send :: "(reader_message \<Rightarrow> byte list option) \<Rightarrow> msg_env \<Rightarrow> reader_message \<Rightarrow> host_event list" where
  "reader_send ser env m = serialized_send MSG_TYPE_SOCKET_READER ser 0 None env m"

definition resource_send :: "(resource_info \<Rightarrow> byte list option) \<Rightarrow> msg_env \<Rightarrow> sent_resources \<Rightarrow> host_event list" where
  "resource_send ser env m =
     serialized_send MSG_TYPE_RESOURCE_MONITOR (\<lambda>m. ser (sd_message m)) (sd_timestamp m) (Some (sd_context m)) env m"

abbreviation (input) MSG_TYPE_MOST_SPY_MONITOR :: message_type where "MSG_TYPE_MOST_SPY_MONITOR \<equiv> 13"

definition dlt_send :: "(trace_info \<Rightarrow> byte list option) \<Rightarrow> msg_env \<Rightarrow> trace_info \<Rightarrow> host_event list" where
  "dlt_send ser env m = serialized_send MSG_TYPE_GENIVI_DLT_MONITOR ser 0 None env m"

definition most_send :: "(most_message \<Rightarrow> byte list option) \<Rightarrow> msg_env \<Rightarrow> most_message \<Rightarrow> host_event list" where
  "most_send ser env m = serialized_send MSG_TYPE_MOST_SPY_MONITOR ser 0 None env m"

text \<open>The messages of a plugin, each with the environment of its moment.\<close>

definition plugin_events :: "(msg_env \<Rightarrow> 'm \<Rightarrow> host_event list) \<Rightarrow> msg_env list \<Rightarrow> 'm list \<Rightarrow> host_event list" where
  "plugin_events send envs ms = concat (map2 send envs ms)"

section \<open>Lemmas\<close>

definition content :: "protocol_message \<Rightarrow> message_type \<times> byte list" where
  "content m = (getMessageType m, payload_bytes m)"

lemma sent_messages_append: "sent_messages (xs @ ys) = sent_messages xs @ sent_messages ys"
  by (induction xs rule: sent_messages.induct) simp_all

lemma content_new:
  assumes "nat n = length buf" "0 \<le> n" "n = 0 \<or> e_alloc env (nat n)"
  shows "content (new_ProtocolMessage env ty n buf u ts ctx) = (ty, buf)"
  using assms by (auto simp: content_def payload_bytes_def new_ProtocolMessage_valid_sel)

lemma wf_length: "message_wf m \<Longrightarrow> isValid m \<Longrightarrow> 0 \<le> getMessageLength m \<Longrightarrow>
    nat (getMessageLength m) = length (payload_bytes m)"
  by (simp add: message_wf_payload_length)

lemma content_received:
  assumes "message_wf m" "isValid m" "0 \<le> getMessageLength m" "e_alloc henv = (\<lambda>_. True)"
  shows "content (received henv m) = content m"
  using assms content_new [OF wf_length [OF assms(1-3)] assms(3), of henv "getMessageType m" False 0 None]
  by (simp add: received_def content_def)

lemma content_replayed:
  assumes "recordable E m"
  shows "content (replayed E m) = content m"
proof -
  have m: "message_wf m" "isValid m" "0 \<le> getMessageLength m" "e_alloc (re_msgEnv E) (nat (getMessageLength m))"
    using assms by (simp_all add: recordable_def)
  show ?thesis
    using content_new [OF wf_length [OF m(1-3)] m(3), of "re_msgEnv E" "getMessageType m" False "getTimestamp m" None] m(4)
    by (simp add: replayed_def content_def)
qed

text \<open>What a plugin hands over, as the messages the proxy makes of it.\<close>

definition sendable :: "rec_env \<Rightarrow> codec \<Rightarrow> protocol_message \<Rightarrow> bool" where
  "sendable E C m \<longleftrightarrow> recordable E m \<and> framable C (replayed E m)"

lemma serialized_send_events:
  "is_Send ev" if "ev \<in> set (serialized_send ty ser ts ctx env m)"
  using that by (auto simp: serialized_send_def is_Send_def split: option.splits)

lemma serialized_contents:
  assumes "ser m = Some payload" "\<forall>x \<in> set (sent_messages (serialized_send ty ser ts ctx env m)). isValid x"
  shows "List.map content (sent_messages (serialized_send ty ser ts ctx env m)) = [(ty, payload)]"
proof -
  let ?x = "new_ProtocolMessage env ty (int (length payload)) payload False ts ctx"
  have "isValid ?x"
    using assms by (simp add: serialized_send_def)
  then have "int (length payload) = 0 \<or> e_alloc env (length payload)"
    by (auto simp: isValid_def new_ProtocolMessage_def setupMessageBuffer_def split: if_splits)
  then show ?thesis
    using assms(1) content_new [of "int (length payload)" payload env ty False ts ctx]
    by (simp add: serialized_send_def)
qed

lemma plugin_events_Send:
  assumes "\<And>env m ev. ev \<in> set (send env m) \<Longrightarrow> is_Send ev"
  shows "\<forall>ev \<in> set (plugin_events send envs ms). is_Send ev"
  using assms by (auto simp: plugin_events_def)

lemma plugin_events_contents:
  assumes "length envs = length ms"
    and "\<And>env m. m \<in> set ms \<Longrightarrow> \<forall>x \<in> set (sent_messages (send env m)). isValid x \<Longrightarrow>
           List.map content (sent_messages (send env m)) = [f m]"
    and "\<forall>x \<in> set (sent_messages (plugin_events send envs ms)). isValid x"
  shows "List.map content (sent_messages (plugin_events send envs ms)) = List.map f ms"
  using assms
proof (induction envs ms rule: list_induct2)
  case (Cons env envs m ms)
  have "sent_messages (plugin_events send (env # envs) (m # ms)) =
      sent_messages (send env m) @ sent_messages (plugin_events send envs ms)"
    by (simp add: plugin_events_def sent_messages_append)
  then show ?case
    using Cons by simp
qed (simp add: plugin_events_def)

section \<open>The way to the host\<close>

abbreviation (input) calibration :: "msg_env \<Rightarrow> protocol_message" where
  "calibration env \<equiv> new_ProtocolMessage env MSG_TYPE_CHRONOGRAPH_CALIBRATION 0 [] True 0 None"

text \<open>What the host's end has read: the calibration and messages of these contents.\<close>

definition host_reads ::
    "codec \<Rightarrow> msg_env \<Rightarrow> msg_env \<Rightarrow> (message_type \<times> byte list) list \<Rightarrow> byte list \<Rightarrow> bool" where
  "host_reads C env henv contents wire \<longleftrightarrow>
     (\<forall>cs peer. concat cs = wire \<and> [] \<notin> set cs \<and> d_in peer = chunks cs \<longrightarrow>
        (\<exists>peer' got. runReceiverActivity C henv (Suc (length contents)) peer = (Inr (), peer') \<and> d_in peer' = [] \<and>
           d_metaDataQueue peer' = d_metaDataQueue peer @
             List.map NTFY_NEW_MESSAGE_FROM_HOST_RECEIVED (received henv (calibration env) # got) \<and>
           List.map content got = contents))"

lemma agent_to_host:
  assumes cf_def: "cf = snd (initialize xml new_ConfigProvider)"
    and "\<not> cf_recorderOn cf" "buffering_env (E cf)" "\<forall>k. fs (re_tempName (E cf) k) = None"
    and "\<forall>ev \<in> set evs. is_Send ev" "\<forall>m \<in> set (sent_messages evs). sendable (E cf) C m"
    and "framable C (calibration env)" "e_alloc henv = (\<lambda>_. True)"
  shows "\<exists>a c d r d'. thenE (run xml E fs L) (agent_events (E cf) env ([], []) (evs @ [Connect]))
             new_CTargetAgentRuntime = (Inr (), a) \<and>
           ag_com a = Some c \<and> cc_messageHandler c = Some d \<and>
           runSenderActivity C 0 (Suc (length (sent_messages evs))) d = (Inr r, d') \<and> d_messageQueue d' = [] \<and>
           host_reads C env henv (List.map content (sent_messages evs)) (d_out d')"
proof -
  let ?ms = "sent_messages evs" and ?rep = "List.map (replayed (E cf)) (sent_messages evs)"
  have rec: "\<forall>m \<in> set ?ms. recordable (E cf) m"
    using assms(6) by (simp add: sendable_def)
  obtain a c d where a: "thenE (run xml E fs L) (agent_events (E cf) env ([], []) (evs @ [Connect]))
      new_CTargetAgentRuntime = (Inr (), a)" "ag_com a = Some c" "cc_messageHandler c = Some d"
    and d: "d_messageQueue d = calibration env # ?rep" "d_sends d = []" "d_out d = []" "d_messagesAvailable d"
    using agent_connected [where E = E and fs = fs and evs = evs and L = L and env = env and socket = "([], [])",
        OF assms(1-5) rec] by auto
  have fr: "\<forall>m \<in> set (calibration env # ?rep). framable C m"
    using assms(6,7) by (auto simp: sendable_def)
  have av: "d_messagesAvailable d = (calibration env # ?rep \<noteq> [])"
    using d(4) by simp
  obtain r d' where d': "runSenderActivity C 0 (Suc (length ?ms)) d = (Inr r, d')" "d_messageQueue d' = []"
    "d_out d' = concat (List.map (wire_bytes C) (calibration env # ?rep))"
    using run_sender_healthy [OF fr d(1,2) av, of "Suc (length ?ms)" 0] d(3) by auto
  have "host_reads C env henv (List.map content ?ms) (d_out d')"
    unfolding host_reads_def
  proof (intro allI impI)
    fix cs and peer :: dispatcher
    assume cs: "concat cs = d_out d' \<and> [] \<notin> set cs \<and> d_in peer = chunks cs"
    then obtain peer' where peer': "runReceiverActivity C henv (length (calibration env # ?rep)) peer = (Inr (), peer')"
      "d_in peer' = []" "d_metaDataQueue peer' = d_metaDataQueue peer @
        List.map (\<lambda>m. NTFY_NEW_MESSAGE_FROM_HOST_RECEIVED (received henv m)) (calibration env # ?rep)"
      using run_receiver [OF fr, of cs peer henv] d'(3) by auto
    have "content (received henv (replayed (E cf) m)) = content m" if "m \<in> set ?ms" for m
    proof -
      have "recordable (E cf) m" "framable C (replayed (E cf) m)"
        using that assms(6) by (simp_all add: sendable_def)
      then show ?thesis
        using content_received [of "replayed (E cf) m" henv] assms(8) content_replayed [of "E cf" m]
        by (simp add: framable_def)
    qed
    then have "List.map content (List.map (received henv) ?rep) = List.map content ?ms"
      by simp
    then show "\<exists>peer' got. runReceiverActivity C henv (Suc (length (List.map content ?ms))) peer = (Inr (), peer') \<and>
        d_in peer' = [] \<and> d_metaDataQueue peer' = d_metaDataQueue peer @
          List.map NTFY_NEW_MESSAGE_FROM_HOST_RECEIVED (received henv (calibration env) # got) \<and>
        List.map content got = List.map content ?ms"
      using peer' by (intro exI [of _ peer'] exI [of _ "List.map (received henv) ?rep"]) simp
  qed
  then show ?thesis
    using a d' by blast
qed

text \<open>The messages of one plugin.\<close>

lemma plugin_reaches_host:
  assumes send: "\<And>env m. send env m = serialized_send ty ser (ts m) (ctx m) env m"
    and ms: "\<forall>m \<in> set ms. ser m \<noteq> None" "length envs = length ms"
    and agent: "cf = snd (initialize xml new_ConfigProvider)" "\<not> cf_recorderOn cf" "buffering_env (E cf)"
      "\<forall>k. fs (re_tempName (E cf) k) = None"
      "\<forall>m \<in> set (sent_messages (plugin_events send envs ms)). sendable (E cf) C m"
      "framable C (calibration env)" "e_alloc henv = (\<lambda>_. True)"
  shows "\<exists>a c d r d'. thenE (run xml E fs L) (agent_events (E cf) env ([], [])
        (plugin_events send envs ms @ [Connect])) new_CTargetAgentRuntime = (Inr (), a) \<and>
    ag_com a = Some c \<and> cc_messageHandler c = Some d \<and>
    runSenderActivity C 0 (Suc (length ms)) d = (Inr r, d') \<and> d_messageQueue d' = [] \<and>
    host_reads C env henv (map (\<lambda>m. (ty, the (ser m))) ms) (d_out d')"
proof -
  let ?evs = "plugin_events send envs ms"
  have valid: "\<forall>x \<in> set (sent_messages ?evs). isValid x"
    using agent(5) by (simp add: sendable_def recordable_def)
  have contents: "map content (sent_messages ?evs) = map (\<lambda>m. (ty, the (ser m))) ms"
    using ms(1) by (intro plugin_events_contents ms(2) valid) (auto simp: send intro: serialized_contents)
  then have len: "length (sent_messages ?evs) = length ms"
    by (metis length_map)
  have "\<forall>ev \<in> set ?evs. is_Send ev"
    by (rule plugin_events_Send) (simp add: send serialized_send_events)
  from agent_to_host [where E = E and cf = cf and evs = ?evs and C = C and fs = fs and L = L and env = env and
      henv = henv and xml = xml, OF agent(1-4) this agent(5-7)]
  show ?thesis
    unfolding contents len .
qed

text \<open>Messages and an environment to evaluate at.\<close>

abbreviation sample_rec_env :: rec_env where
  "sample_rec_env \<equiv> Serializer.sample_env False 0 id"

lemma sample_sendable:
  assumes "0 \<le> ty" "ty < 256" "length payload < 256" "ts \<noteq> 0" "ts < 256"
  shows "sendable sample_rec_env sample_codec (sample_message ty payload ts)"
proof -
  have "payload_bytes (sample_message ty payload ts) = payload"
    by (auto simp: sample_message_def payload_bytes_def new_ProtocolMessage_valid_sel sample_msgEnv_def)
  moreover have "getTimestamp (sample_message ty payload ts) = ts"
    using assms(4) by (simp add: sample_message_def getTimestamp_def new_ProtocolMessage_def setTimestamp_def
        split: prod.split)
  moreover have "getMessageType (sample_message ty payload ts) = ty"
    "getMessageLength (sample_message ty payload ts) = int (length payload)"
    by (simp_all add: sample_message_def new_ProtocolMessage_valid_sel sample_msgEnv_def)
  moreover have "re_msgEnv sample_rec_env = sample_msgEnv"
    by (simp add: Serializer.sample_env_def)
  ultimately have "replayed sample_rec_env (sample_message ty payload ts) = sample_message ty payload ts"
    by (simp add: replayed_def) (simp add: sample_message_def)
  then show ?thesis
    using sample_message_recordable [OF assms, of False 0 id] sample_message_framable [OF assms]
    by (simp add: sendable_def)
qed

lemma sample_calibration: "framable sample_codec (calibration sample_msgEnv)"
proof -
  have "framable sample_codec (sample_message 99 [] 77)"
    by (rule sample_message_framable) simp_all
  moreover have "writeMessageHeader (sample_message 99 [] 77) = writeMessageHeader (calibration sample_msgEnv)"
    by (simp add: sample_message_def writeMessageHeader_def message_getters new_ProtocolMessage_def
        setupMessageBuffer_def setTimestamp_def sample_msgEnv_def)
  ultimately show ?thesis
    by (simp add: framable_def new_ProtocolMessage_valid_sel sample_message_def message_wf_def
        new_ProtocolMessage_def setupMessageBuffer_def isValid_def message_getters)
qed

text \<open>So for the other plugins.\<close>

lemmas other_plugins_reach_host =
  plugin_reaches_host [OF stats_send_def] plugin_reaches_host [OF reader_send_def]
  plugin_reaches_host [OF resource_send_def] plugin_reaches_host [OF dlt_send_def]
  plugin_reaches_host [OF most_send_def]

section \<open>Properties\<close>


definition sample_rcs :: "log_record list" where
  "sample_rcs = [\<lparr> rc_date = ''2018-01-01'', rc_time = ''10:00:00'', rc_level = ''ERROR'', rc_text = ''lost'', rc_more = [] \<rparr>]"

definition sample_recs :: "log4j_message list" where
  "sample_recs = [\<lparr> lm_trace = ''lost '', lm_logLevel = ''ERROR'', lm_timestamp = 7 \<rparr>]"

definition sample_ser :: "log4j_message \<Rightarrow> byte list option" where
  "sample_ser m = Some [word_of_nat (length (lm_trace m))]"


text \<open>C6: From an observed application to the host. In every run of an application with the preloaded library,
  let the plugin ask for its statistics as in the exchange above, and let the plugin's agent get its first
  client afterwards: the host reads the calibration message and one message of the statistics plugin for
  each thread that has allocated and one for the process, in the order of the library's list.\<close>

theorem allocations_reach_host:
  assumes library: "prog_step\<^sup>*\<^sup>* (start_process m self) (cl_process c)" "pr_it (cl_process c) = NULL"
      "alive_ok (re_alive renv) (cl_process c)"
      "chain (pr_storages (cl_process c)) (pr_g_thread_storage (cl_process c)) xs"
      "xs \<noteq> [] \<longrightarrow> re_alive renv (ts_pthread_id (the (pr_storages (cl_process c) (last xs)))) \<or>
         (\<exists>b h. pr_blocks (cl_process c) b = Some h \<and> ah_counters h = last xs)"
      "diff_ns (cl_last_mono_clock c) (re_base_clock renv) \<noteq> 0"
      "\<forall>x \<in> set (answer_texts renv c xs). length x \<le> 251"
    and plugin: "length (tc_buffer pc) = BUF_SIZE + 1" "tc_reads pc = reads_of (answer_texts renv c xs) @ rs"
      "tc_traces pc = []" "\<forall>x \<in> set (answer_texts renv c xs). ser x \<noteq> None"
      "length envs = length (answer_texts renv c xs)"
    and agent: "cf = snd (initialize xml new_ConfigProvider)" "\<not> cf_recorderOn cf" "buffering_env (E cf)"
      "\<forall>k. fs (re_tempName (E cf) k) = None"
      "\<forall>m \<in> set (sent_messages (plugin_events (stats_send ser) envs (answer_texts renv c xs))). sendable (E cf) C m"
      "framable C (calibration env)" "e_alloc henv = (\<lambda>_. True)"
  shows "set xs = dom (pr_storages (cl_process c)) \<and>
    (\<exists>c' pc' a ch d r d'. report_round renv c = Some (Inr (), c') \<and>
       concat (map the (reads_of (answer_texts renv c xs))) = concat (drop (length (cl_frames c)) (cl_frames c')) \<and>
       seqE (replicate (length (answer_texts renv c xs)) read_answer) pc = (Inr (), pc') \<and>
       thenE (run xml E fs L) (agent_events (E cf) env ([], [])
           (plugin_events (stats_send ser) envs (tc_traces pc') @ [Connect])) new_CTargetAgentRuntime = (Inr (), a) \<and>
       ag_com a = Some ch \<and> cc_messageHandler ch = Some d \<and>
       runSenderActivity C 0 (Suc (length (answer_texts renv c xs))) d = (Inr r, d') \<and> d_messageQueue d' = [] \<and>
       host_reads C env henv (map (\<lambda>x. (MSG_TYPE_LINUX_APP_STATS, the (ser x))) (answer_texts renv c xs)) (d_out d'))"
proof -
  let ?texts = "answer_texts renv c xs"
  have sent: "set xs = dom (pr_storages (cl_process c))"
    "\<exists>c'. report_round renv c = Some (Inr (), c') \<and> cl_frames c' = cl_frames c @ map answer_frame ?texts"
    "concat (map the (reads_of ?texts)) = concat (map answer_frame ?texts)"
    "\<exists>pc'. seqE (replicate (length ?texts) read_answer) pc = (Inr (), pc') \<and> tc_traces pc' = ?texts"
    using preload_report_sent [OF library plugin(1,2)] plugin(3) by auto
  have "\<exists>a ch d r d'. thenE (run xml E fs L) (agent_events (E cf) env ([], [])
           (plugin_events (stats_send ser) envs ?texts @ [Connect])) new_CTargetAgentRuntime = (Inr (), a) \<and>
       ag_com a = Some ch \<and> cc_messageHandler ch = Some d \<and>
       runSenderActivity C 0 (Suc (length ?texts)) d = (Inr r, d') \<and> d_messageQueue d' = [] \<and>
       host_reads C env henv (map (\<lambda>x. (MSG_TYPE_LINUX_APP_STATS, the (ser x))) ?texts) (d_out d')"
    using plugin_reaches_host [where send = "stats_send ser" and ty = MSG_TYPE_LINUX_APP_STATS and ser = ser and
        ts = "\<lambda>_. 0" and ctx = "\<lambda>_. None" and ms = ?texts and E = E and cf = cf and xml = xml and C = C and
        fs = fs and L = L and env = env and envs = envs and henv = henv, OF stats_send_def plugin(4,5) agent] .
  then show ?thesis
    using sent by fastforce
qed

definition sample_text_ser :: "string \<Rightarrow> byte list option" where
  "sample_text_ser x = Some [word_of_nat (length x)]"

definition sample_plugin :: stats_collector where
  "sample_plugin = new_CThreadStatsCollector [] 1 [] (replicate 257 CHR 0x00)
     (reads_of (answer_texts PreloadClient.sample_env sample_client [1000]) @ [])"

theorem allocations_reach_host_witness:
  "\<exists>d d' r x y. runSenderActivity sample_codec 0 3 d = (Inr r, d') \<and>
     host_reads sample_codec sample_msgEnv sample_msgEnv [(20, x), (20, y)] (d_out d')"
proof -
  let ?renv = PreloadClient.sample_env
  let ?texts = "answer_texts ?renv sample_client [1000]" and ?envs = "[sample_msgEnv, sample_msgEnv]"
  have reach: "prog_step\<^sup>*\<^sup>* (start_process 0 7) (cl_process sample_client)"
    using sample_allocated_reached by (simp add: sample_client_def)
  have lib: "pr_it (cl_process sample_client) = NULL" "alive_ok (re_alive ?renv) (cl_process sample_client)"
    "chain (pr_storages (cl_process sample_client)) (pr_g_thread_storage (cl_process sample_client)) [1000]"
    "diff_ns (cl_last_mono_clock sample_client) (re_base_clock ?renv) \<noteq> 0" "\<And>i. re_alive ?renv i"
    by (simp_all add: sample_client_def PreloadClient.sample_env_def alive_ok_def diff_ns_def)
      (simp_all add: sample_defs)
  have texts: "\<forall>x \<in> set ?texts. length x \<le> 251" "\<forall>x \<in> set ?texts. sample_text_ser x \<noteq> None"
    "length ?envs = length ?texts"
    by (simp_all add: sample_texts sample_text_ser_def)
  have pc: "length (tc_buffer sample_plugin) = BUF_SIZE + 1" "tc_reads sample_plugin = reads_of ?texts @ []"
    "tc_traces sample_plugin = []"
    by (simp_all add: sample_plugin_def new_CThreadStatsCollector_def)
  have "new_ProtocolMessage sample_msgEnv 20 1 [b] False 0 None = sample_message 20 [b] 77" for b
    by (simp add: sample_message_def new_ProtocolMessage_def setTimestamp_def sample_msgEnv_def)
  then have "\<exists>a b. sent_messages (plugin_events (stats_send sample_text_ser) ?envs ?texts) =
      [sample_message 20 [a] 77, sample_message 20 [b] 77]"
    by (simp add: plugin_events_def stats_send_def serialized_send_def sample_text_ser_def sample_texts) blast
  then have ok: "\<forall>m \<in> set (sent_messages (plugin_events (stats_send sample_text_ser) ?envs ?texts)).
      sendable sample_rec_env sample_codec m"
    using sample_sendable [of 20 "[_]" 77] by auto
  obtain x y where eqs: "map (\<lambda>x. (MSG_TYPE_LINUX_APP_STATS, the (sample_text_ser x))) ?texts = [(MSG_TYPE_LINUX_APP_STATS, x), (MSG_TYPE_LINUX_APP_STATS, y)]" "Suc (length ?texts) = 3"
    by (simp add: sample_texts)
  have alloc: "e_alloc sample_msgEnv = (\<lambda>_. True)"
    by (simp add: sample_msgEnv_def)
  have last: "[1000] \<noteq> [] \<longrightarrow> re_alive ?renv (ts_pthread_id (the (pr_storages (cl_process sample_client) (last [1000])))) \<or>
      (\<exists>b h. pr_blocks (cl_process sample_client) b = Some h \<and> ah_counters h = last [1000])"
    using lib(5) by blast
  from allocations_reach_host [where renv = ?renv and E = "\<lambda>_. sample_rec_env" and fs = "\<lambda>_. None" and xml = sample_xml and
        L = no_library and env = sample_msgEnv and henv = sample_msgEnv,
        OF reach lib(1-3) last lib(4) texts(1) pc texts(2,3) refl sample_not_recording sample_buffering_env _ ok
          sample_calibration alloc]
  show ?thesis
    unfolding eqs by blast
qed

end
