(* ===== verification/LogThreads.thy ===== *)
theory LogThreads
  imports SocketReader "HOL-Library.Sublist"
begin

text \<open>
  The threads around the logger's socket channel as a step relation (\<^verbatim>\<open>CSocketChannel::log\<close> in
  \<^verbatim>\<open>logger/inc/CLogger.hpp\<close>, \<^verbatim>\<open>CLoggerServiceHandler\<close> in \<^verbatim>\<open>logger/src/CConnector.cpp\<close>): the threads that log
  take turns under a mutex, the thread of the reactor writes without it. Poco's notification queue is a
  list whose operations are single steps.
\<close>

section \<open>Steps\<close>

datatype log_pc =
    Unlocked
  | MustClear string
  | MustEnqueue string

datatype writer_pc =
    Unconnected
  | WaitingForText
  | WritingText string

record log_sys =
  lq_queue :: "string list"
  lq_logger :: log_pc
  lq_writer :: writer_pc
  lq_wire :: "nat \<times> string"
  lq_logged :: "string list"
  lq_written :: "string list"

definition log_start :: log_sys where
  "log_start = \<lparr> lq_queue = [], lq_logger = Unlocked, lq_writer = Unconnected, lq_wire = (0, []),
     lq_logged = [], lq_written = [] \<rparr>"

text \<open>A handler is made when the connection stands; it writes the configuration and the versions, and then
  \<^verbatim>\<open>onWritable\<close> stays in its loop. The writing of a text is one step: nothing else touches the socket.\<close>

inductive log_step ::
    "(nat \<Rightarrow> int option) \<Rightarrow> string list \<Rightarrow> string \<Rightarrow> nat \<Rightarrow> log_sys \<Rightarrow> log_sys \<Rightarrow> bool"
  for takes conf v n where
  check: "lq_logger s = Unlocked \<Longrightarrow>
    log_step takes conf v n s (s\<lparr> lq_logger :=
      (if length (lq_queue s) \<ge> MAX_NR_OF_ENTRIES then MustClear m else MustEnqueue m) \<rparr>)"
| clear: "lq_logger s = MustClear m \<Longrightarrow>
    log_step takes conf v n s (s\<lparr> lq_queue := [], lq_logger := MustEnqueue m \<rparr>)"
| enqueue: "lq_logger s = MustEnqueue m \<Longrightarrow>
    log_step takes conf v n s (s\<lparr> lq_queue := lq_queue s @ [m], lq_logger := Unlocked,
      lq_logged := lq_logged s @ [m] \<rparr>)"
| connect: "lq_writer s = Unconnected \<Longrightarrow> sendXMLConfiguration takes conf v n (lq_wire s) = Some w \<Longrightarrow>
    log_step takes conf v n s (s\<lparr> lq_writer := WaitingForText, lq_wire := w \<rparr>)"
| dequeue: "lq_writer s = WaitingForText \<Longrightarrow> lq_queue s = m # q \<Longrightarrow>
    log_step takes conf v n s (s\<lparr> lq_queue := q, lq_writer := WritingText m \<rparr>)"
| put_text: "lq_writer s = WritingText m \<Longrightarrow> buildMessage takes m (lq_wire s) = Some w \<Longrightarrow>
    log_step takes conf v n s (s\<lparr> lq_writer := WaitingForText, lq_wire := w,
      lq_written := lq_written s @ [m] \<rparr>)"

inductive_cases log_stepE: "log_step takes conf v n s s'"

section \<open>The invariant\<close>

definition text_in_hand :: "log_sys \<Rightarrow> string list" where
  "text_in_hand s = (case lq_writer s of WritingText m \<Rightarrow> [m] | _ \<Rightarrow> [])"

definition kept_texts :: "log_sys \<Rightarrow> string list" where
  "kept_texts s = lq_written s @ text_in_hand s @ lq_queue s"

definition log_inv :: "string list \<Rightarrow> log_sys \<Rightarrow> bool" where
  "log_inv first s \<longleftrightarrow>
     length (lq_queue s) \<le> MAX_NR_OF_ENTRIES \<and>
     (\<forall>m. lq_logger s = MustEnqueue m \<longrightarrow> length (lq_queue s) < MAX_NR_OF_ENTRIES) \<and>
     (\<forall>m. lq_logger s = MustClear m \<longrightarrow> MAX_NR_OF_ENTRIES \<le> length (lq_logged s)) \<and>
     subseq (kept_texts s) (lq_logged s) \<and>
     (length (lq_logged s) + (if lq_logger s = Unlocked then 0 else 1) \<le> MAX_NR_OF_ENTRIES \<longrightarrow>
        kept_texts s = lq_logged s) \<and>
     (if lq_writer s = Unconnected then lq_wire s = (0, []) \<and> lq_written s = []
      else (\<forall>m \<in> set (first @ lq_logged s). carried_text m) \<longrightarrow> snd (lq_wire s) = framed (first @ lq_written s))"

lemma framed_append: "framed (xs @ ys) = framed xs @ framed ys"
  by (simp add: framed_def)

lemma carried_short:
  "carried_text m \<Longrightarrow> length m < 2 ^ 32 \<and> length (log_header (length m)) < 2 ^ 32"
  by (auto simp: carried_text_def)

lemma buildMessage_one: "buildMessage takes m w = buildMessages takes [m] w"
  by (cases "buildMessage takes m w") simp_all

lemma sendXML_all:
  "sendXMLConfiguration takes conf v n w = buildMessages takes (conf @ version_texts v n) w"
proof -
  have "buildMessages takes (xs @ ys) w = Option.bind (buildMessages takes xs w) (buildMessages takes ys)" for xs ys w
  proof (induction xs arbitrary: w)
    case (Cons x xs)
    then show ?case
      by (cases "buildMessage takes x w") simp_all
  qed simp
  then show ?thesis
    by (simp add: sendXMLConfiguration_def Logger.sendVersionInformation_def [abs_def])
qed

lemma log_step_inv:
  assumes "log_step takes conf v n s s'" "progresses takes" "log_inv (conf @ version_texts v n) s"
  shows "log_inv (conf @ version_texts v n) s'"
  using assms(1,3)
proof cases
  case (check m)
  have "length (lq_queue s) \<le> length (lq_logged s)"
    using assms(3) list_emb_length [of "(=)" "kept_texts s" "lq_logged s"] by (auto simp: log_inv_def kept_texts_def)
  then show ?thesis
    using assms(3) check by (auto simp: log_inv_def kept_texts_def text_in_hand_def)
next
  case (clear m)
  have "subseq (lq_written s @ text_in_hand s) (kept_texts s)"
    unfolding kept_texts_def by (metis append_assoc subseq_rev_drop_many subseq_order.refl)
  then show ?thesis
    using assms(3) clear subseq_order.trans by (auto simp: log_inv_def kept_texts_def text_in_hand_def)
next
  case (enqueue m)
  then show ?thesis
    using assms(3) by (auto simp: log_inv_def kept_texts_def text_in_hand_def
        simp flip: append_assoc intro: list_emb_append_mono)
next
  case (connect w)
  obtain i out where w: "lq_wire s = (i, out)"
    by force
  have "snd w = framed (conf @ version_texts v n)" if "\<forall>m \<in> set (conf @ version_texts v n). carried_text m"
    using buildMessages_progress [OF assms(2), of "conf @ version_texts v n" 0 "[]"] carried_short that assms(3) connect
    by (auto simp: log_inv_def sendXML_all)
  then show ?thesis
    using assms(3) connect by (auto simp: log_inv_def kept_texts_def text_in_hand_def)
next
  case (dequeue m q)
  then show ?thesis
    using assms(3) by (auto simp: log_inv_def kept_texts_def text_in_hand_def)
next
  case (put_text m w)
  have "m \<in> set (kept_texts s)" "subseq (kept_texts s) (lq_logged s)"
    using assms(3) put_text by (simp_all add: log_inv_def kept_texts_def text_in_hand_def)
  then have m: "m \<in> set (lq_logged s)"
    using list_emb_set [of "(=)" "kept_texts s" "lq_logged s" m] by blast
  obtain i out where io: "lq_wire s = (i, out)"
    by force
  have w: "buildMessages takes [m] (i, out) = Some w"
    using put_text(3) unfolding io buildMessage_one .
  have "snd w = out @ framed [m]" if "carried_text m"
  proof -
    have "\<forall>x \<in> set [m]. length x < 2 ^ 32 \<and> length (log_header (length x)) < 2 ^ 32"
      using carried_short [OF that] by simp
    from buildMessages_progress [OF assms(2) this, of i out] show ?thesis
      unfolding w by auto
  qed
  then have "snd (lq_wire s') = framed ((conf @ version_texts v n) @ lq_written s')"
    if "\<forall>x \<in> set ((conf @ version_texts v n) @ lq_logged s). carried_text x"
    using that m io put_text(1,2) assms(3) by (simp add: log_inv_def framed_append)
  then show ?thesis
    using assms(3) put_text(1,2) by (simp add: log_inv_def kept_texts_def text_in_hand_def)
qed

lemma log_reachable_inv:
  assumes "(log_step takes conf v n)\<^sup>*\<^sup>* log_start s" "progresses takes"
  shows "log_inv (conf @ version_texts v n) s"
  using assms(1)
proof (induction rule: rtranclp_induct)
  case base
  then show ?case
    by (simp add: log_inv_def log_start_def kept_texts_def text_in_hand_def)
next
  case (step s s')
  then show ?case
    using log_step_inv assms(2) by blast
qed

text \<open>The three steps of a call of \<^verbatim>\<open>log\<close> that no dequeueing interrupts.\<close>

lemma log_call:
  assumes "lq_logger s = Unlocked"
  shows "(log_step takes conf v n)\<^sup>*\<^sup>* s (s\<lparr> lq_queue := log_message m (lq_queue s), lq_logged := lq_logged s @ [m] \<rparr>)"
proof -
  let ?pc = "if length (lq_queue s) \<ge> MAX_NR_OF_ENTRIES then MustClear m else MustEnqueue m"
  let ?s1 = "s\<lparr> lq_logger := ?pc \<rparr>"
  let ?q = "if length (lq_queue s) \<ge> MAX_NR_OF_ENTRIES then [] else lq_queue s"
  let ?s2 = "s\<lparr> lq_queue := ?q, lq_logger := MustEnqueue m \<rparr>"
  have "log_step takes conf v n s ?s1"
    using assms by (rule log_step.check)
  moreover have "(log_step takes conf v n)\<^sup>*\<^sup>* ?s1 ?s2"
  proof (cases "length (lq_queue s) \<ge> MAX_NR_OF_ENTRIES")
    case True
    then show ?thesis
      using log_step.clear [of ?s1 m takes conf v n] by auto
  qed simp
  moreover have "log_step takes conf v n ?s2 (?s2\<lparr> lq_queue := ?q @ [m], lq_logger := Unlocked,
      lq_logged := lq_logged s @ [m] \<rparr>)"
    using log_step.enqueue [of ?s2 m takes conf v n] by simp
  moreover have "?s2\<lparr> lq_queue := ?q @ [m], lq_logger := Unlocked, lq_logged := lq_logged s @ [m] \<rparr> =
      s\<lparr> lq_queue := log_message m (lq_queue s), lq_logged := lq_logged s @ [m] \<rparr>"
    using assms by (simp add: log_message_def)
  ultimately show ?thesis
    by (metis (no_types, lifting) converse_rtranclp_into_rtranclp rtranclp.rtrancl_into_rtrancl)
qed

section \<open>Properties\<close>

text \<open>C9: In every interleaving of the logging threads with the thread that writes to the reader, the queue holds
  at most a hundred texts, and what the reader plugin forwards, in whatever pieces it reads, is the
  configuration, the versions and texts that were logged, each at most once and in order; as long as fewer
  than a hundred have been logged none of them is lost: what is not written yet is in the writer's hands
  or in the queue.\<close>

theorem logged_texts_read:
  assumes "(log_step takes conf v n)\<^sup>*\<^sup>* log_start s" "progresses takes" "reads_headers parse"
    and "\<forall>m \<in> set (conf @ version_texts v n @ lq_logged s). carried_text m" "lq_writer s \<noteq> Unconnected"
    and "length payloadbuffer = BUFFER_SIZE" "\<forall>k \<in> set ns. 1 \<le> k" "length (snd (lq_wire s)) \<le> length ns"
  shows "length (lq_queue s) \<le> 100 \<and>
    (\<exists>texts r. readable_events parse (List.map RecvUpTo ns) (snd (lq_wire s)) (new_CSocketReaderServer payloadbuffer) =
         (Inr [], r) \<and> sr_sent r = List.map agent_text (conf @ version_texts v n @ texts) \<and>
       subseq texts (lq_logged s) \<and>
       (length (lq_logged s) < 100 \<longrightarrow>
          lq_logged s = texts @ (case lq_writer s of WritingText m \<Rightarrow> [m] | _ \<Rightarrow> []) @ lq_queue s))"
proof -
  have inv: "log_inv (conf @ version_texts v n) s"
    using log_reachable_inv [OF assms(1,2)] .
  have wire: "snd (lq_wire s) = framed (conf @ version_texts v n @ lq_written s)"
    using inv assms(4,5) by (simp add: log_inv_def)
  have sub: "subseq (kept_texts s) (lq_logged s)"
    using inv by (simp add: log_inv_def)
  have w: "subseq (lq_written s) (lq_logged s)"
    using sub subseq_order.trans subseq_rev_drop_many subseq_order.refl unfolding kept_texts_def by metis
  have "m \<in> set (lq_logged s)" if "m \<in> set (lq_written s)" for m
    using list_emb_set [OF w that] by blast
  then have carried: "\<forall>m \<in> set (conf @ version_texts v n @ lq_written s). carried_text m"
    using assms(4) by auto
  let ?r = "new_CSocketReaderServer payloadbuffer"
  have "idle ?r"
    using assms(6) by (simp add: idle_def new_CSocketReaderServer_def)
  then have "pending (conf @ version_texts v n @ lq_written s) (snd (lq_wire s)) ?r"
    unfolding wire framed_frames by (rule idle_pending)
  then obtain r where "readable_events parse (List.map RecvUpTo ns) (snd (lq_wire s)) ?r = (Inr [], r)"
    "sr_sent r = List.map agent_text (conf @ version_texts v n @ lq_written s)"
    using reads_deliver [OF assms(3) carried assms(7,8), of ?r] by (auto simp: new_CSocketReaderServer_def)
  moreover have "lq_logged s = lq_written s @ text_in_hand s @ lq_queue s" if "length (lq_logged s) < 100"
    using inv that by (auto simp: log_inv_def kept_texts_def split: if_splits)
  ultimately show ?thesis
    using w inv by (auto simp: log_inv_def text_in_hand_def)
qed

theorem logged_texts_read_witness:
  "\<exists>(s :: log_sys) r. lq_logged s = [''ready''] \<and>
     readable_events scan_header (List.map RecvUpTo (replicate (length (snd (lq_wire s))) 7)) (snd (lq_wire s))
       (new_CSocketReaderServer (replicate 4096 CHR 0x00)) = (Inr [], r) \<and>
     sr_sent r = List.map agent_text (version_texts ''1'' 2 @ [''ready''])"
proof -
  let ?step = "log_step (\<lambda>_. Some 2) [] ''1'' 2" and ?vs = "version_texts ''1'' 2"
  have p: "progresses (\<lambda>_. Some 2)"
    by (simp add: progresses_def)
  have carried: "\<forall>m \<in> set (?vs @ [''ready'']). carried_text m"
    by (simp add: version_texts_def carried_text_def print_decimal.simps digit_char_def)
  let ?s1 = "log_start\<lparr> lq_queue := [''ready''], lq_logged := [''ready''] \<rparr>"
  have "?step\<^sup>*\<^sup>* log_start ?s1"
    using log_call [of log_start "\<lambda>_. Some 2" "[]" "''1''" 2 "''ready''"] by (simp add: log_start_def log_message_def)
  moreover obtain w where w: "sendXMLConfiguration (\<lambda>_. Some 2) [] ''1'' 2 (0, []) = Some w"
  proof -
    have "\<forall>m \<in> set ?vs. length m < 2 ^ 32 \<and> length (log_header (length m)) < 2 ^ 32"
      using carried carried_short by simp
    then show ?thesis
      using buildMessages_progress [OF p, of ?vs 0 "[]"] that unfolding sendXML_all append_Nil by blast
  qed
  let ?s2 = "?s1\<lparr> lq_writer := WaitingForText, lq_wire := w \<rparr>"
  have "?step ?s1 ?s2"
    using w by (intro log_step.connect) (simp_all add: log_start_def)
  moreover let ?s3 = "?s2\<lparr> lq_queue := [], lq_writer := WritingText ''ready'' \<rparr>"
  have "?step ?s2 ?s3"
    by (intro log_step.dequeue) simp_all
  moreover have "\<forall>m \<in> set [''ready'']. length m < 2 ^ 32 \<and> length (log_header (length m)) < 2 ^ 32"
    using carried carried_short by simp
  then have "\<exists>w'. buildMessages (\<lambda>_. Some 2) [''ready''] (fst w, snd w) = Some w'"
    using buildMessages_progress [OF p] by blast
  then obtain w' where w': "buildMessage (\<lambda>_. Some 2) ''ready'' w = Some w'"
    unfolding prod.collapse buildMessage_one by blast
  let ?s4 = "?s3\<lparr> lq_writer := WaitingForText, lq_wire := w', lq_written := lq_written ?s3 @ [''ready''] \<rparr>"
  have "?step ?s3 ?s4"
    using w' by (intro log_step.put_text) simp_all
  ultimately have "?step\<^sup>*\<^sup>* log_start ?s4"
    by (meson rtranclp.rtrancl_into_rtrancl)
  moreover define s where "s = ?s4"
  ultimately have reach: "?step\<^sup>*\<^sup>* log_start s"
    by simp
  have s: "lq_logged s = [''ready'']" "lq_writer s = WaitingForText" "lq_queue s = []"
    by (simp_all add: s_def)
  let ?ns = "replicate (length (snd (lq_wire s))) 7 :: nat list"
  have side: "\<forall>m \<in> set ([] @ ?vs @ lq_logged s). carried_text m" "lq_writer s \<noteq> Unconnected"
    "length (replicate 4096 CHR 0x00) = BUFFER_SIZE" "\<forall>k \<in> set ?ns. 1 \<le> k" "length (snd (lq_wire s)) \<le> length ?ns"
    using carried by (simp_all add: s)
  obtain texts r where r: "readable_events scan_header (List.map RecvUpTo ?ns) (snd (lq_wire s))
      (new_CSocketReaderServer (replicate 4096 CHR 0x00)) = (Inr [], r)"
    "sr_sent r = List.map agent_text ([] @ ?vs @ texts)"
    "length (lq_logged s) < 100 \<longrightarrow> lq_logged s = texts @ (case lq_writer s of WritingText m \<Rightarrow> [m] | _ \<Rightarrow> []) @ lq_queue s"
    using logged_texts_read [OF reach p scan_header_reads side] by blast
  have "texts = [''ready'']"
    using r(3) by (simp add: s)
  then show ?thesis
    using r(1,2) s(1) by (intro exI [of _ s] exI [of _ r]) simp
qed

end
