(* ===== verification/PluginInterface.thy ===== *)
theory PluginInterface
  imports PluginProxy
begin

text \<open>
  The interface every plugin implements (\<^verbatim>\<open>TargetAgentPluginInterface.h\<close>), as a table of virtual functions,
  and the calls of the plugin proxy through it, as they are in the proxy's trace. The locale
  \<open>agent_plugin\<close> is the contract the proxy relies on when it configures, starts, uses and stops a plugin in
  this order; \<open>PluginLifecycle\<close> interprets it by every plugin.
\<close>

section \<open>The interface\<close>

text \<open>The virtual functions of the class; the results of the first three are not looked at by the proxy.\<close>

record ('e, 's) plugin_vt =
  vp_startPlugin :: "('e, 's, bool) op"
  vp_stopPlugin :: "('e, 's, bool) op"
  vp_setConfig :: "(string \<times> string) list \<Rightarrow> ('e, 's, bool) op"
  vp_onMessageReceived :: "int \<Rightarrow> byte list option \<Rightarrow> ('e, 's, unit) op"
  vp_onConnectionEstablished :: "('e, 's, unit) op"
  vp_onConnectionLost :: "('e, 's, unit) op"

datatype plugin_call =
    CallSetConfig "(string \<times> string) list"
  | CallStart
  | CallStop
  | CallReceived int "byte list option"
  | CallEstablished
  | CallLost

fun call_plugin :: "('e, 's) plugin_vt \<Rightarrow> plugin_call \<Rightarrow> ('e, 's, unit) op" where
  "call_plugin vt (CallSetConfig cfg) = thenE (vp_setConfig vt cfg) (returnE ())"
| "call_plugin vt CallStart = thenE (vp_startPlugin vt) (returnE ())"
| "call_plugin vt CallStop = thenE (vp_stopPlugin vt) (returnE ())"
| "call_plugin vt (CallReceived n buf) = vp_onMessageReceived vt n buf"
| "call_plugin vt CallEstablished = vp_onConnectionEstablished vt"
| "call_plugin vt CallLost = vp_onConnectionLost vt"

definition run_calls :: "('e, 's) plugin_vt \<Rightarrow> plugin_call list \<Rightarrow> ('e, 's, unit) op" where
  "run_calls vt cs = seqE (List.map (call_plugin vt) cs)"

text \<open>The call an event of the proxy's trace stands for, with the address of the plugin; and what one plugin
  gets to see of a trace.\<close>

fun event_call :: "proxy_event \<Rightarrow> (nat \<times> plugin_call) option" where
  "event_call (SetConfig i cfg) = Some (i, CallSetConfig cfg)"
| "event_call (StartPlugin i) = Some (i, CallStart)"
| "event_call (StopPlugin i) = Some (i, CallStop)"
| "event_call (OnMessageReceived i n buf) = Some (i, CallReceived n buf)"
| "event_call (OnConnectionEstablished i) = Some (i, CallEstablished)"
| "event_call (OnConnectionLost i) = Some (i, CallLost)"
| "event_call _ = None"

fun calls_to :: "nat \<Rightarrow> proxy_event list \<Rightarrow> plugin_call list" where
  "calls_to i [] = []"
| "calls_to i (ev # evs) =
     (case event_call ev of
        None \<Rightarrow> calls_to i evs
      | Some (j, c) \<Rightarrow> if j = i then c # calls_to i evs else calls_to i evs)"

lemma calls_to_append [simp]: "calls_to i (xs @ ys) = calls_to i xs @ calls_to i ys"
  by (induction xs) (auto split: option.split)

lemma calls_to_none: "\<forall>ev \<in> set evs. event_call ev = None \<Longrightarrow> calls_to i evs = []"
  by (induction evs) auto

lemma calls_to_starts:
  "distinct is \<Longrightarrow> calls_to i (List.map StartPlugin is) = (if i \<in> set is then [CallStart] else [])"
  "distinct is \<Longrightarrow> calls_to i (List.map StopPlugin is) = (if i \<in> set is then [CallStop] else [])"
  by (induction "is") auto

lemma calls_to_configs:
  "distinct (List.map fst m) \<Longrightarrow>
     calls_to i (List.map (\<lambda>(i, cfg). SetConfig i (f cfg)) m) =
       (case map_of m i of None \<Rightarrow> [] | Some cfg \<Rightarrow> [CallSetConfig (f cfg)])"
proof (induction m)
  case (Cons x m)
  then have "i = fst x \<Longrightarrow> map_of m i = None"
    by (auto simp: map_of_eq_None_iff)
  then show ?case
    using Cons by (cases x) auto
qed simp

section \<open>The contract\<close>

text \<open>The calls between start and stop.\<close>

fun in_operation :: "(int \<Rightarrow> byte list option \<Rightarrow> bool) \<Rightarrow> plugin_call \<Rightarrow> bool" where
  "in_operation message_ok (CallReceived n buf) = message_ok n buf"
| "in_operation message_ok CallEstablished = True"
| "in_operation message_ok CallLost = True"
| "in_operation message_ok _ = False"

locale agent_plugin =
  fixes vt :: "('e, 's) plugin_vt"
    and settings_ok :: "(string \<times> string) list \<Rightarrow> bool"
    and message_ok :: "int \<Rightarrow> byte list option \<Rightarrow> bool"
    and fresh :: "'s \<Rightarrow> bool"
    and configured :: "'s \<Rightarrow> bool"
    and started :: "'s \<Rightarrow> bool"
    and ended :: "'s \<Rightarrow> bool"
  assumes set_config: "fresh s \<Longrightarrow> settings_ok cfg \<Longrightarrow> \<exists>b s'. vp_setConfig vt cfg s = (Inr b, s') \<and> configured s'"
    and start: "configured s \<Longrightarrow> \<exists>b s'. vp_startPlugin vt s = (Inr b, s') \<and> started s'"
    and received: "started s \<Longrightarrow> message_ok n buf \<Longrightarrow>
      \<exists>s'. vp_onMessageReceived vt n buf s = (Inr (), s') \<and> started s'"
    and established: "started s \<Longrightarrow> \<exists>s'. vp_onConnectionEstablished vt s = (Inr (), s') \<and> started s'"
    and lost: "started s \<Longrightarrow> \<exists>s'. vp_onConnectionLost vt s = (Inr (), s') \<and> started s'"
    and stop: "started s \<Longrightarrow> \<exists>b s'. vp_stopPlugin vt s = (Inr b, s') \<and> ended s'"
begin

lemma operation_step:
  assumes "started s" "in_operation message_ok c"
  shows "\<exists>s'. call_plugin vt c s = (Inr (), s') \<and> started s'"
  using assms received established lost by (cases c) auto

lemma operation_run:
  "started s \<Longrightarrow> list_all (in_operation message_ok) cs \<Longrightarrow>
     \<exists>s'. run_calls vt cs s = (Inr (), s') \<and> started s'"
proof (induction cs arbitrary: s)
  case (Cons c cs)
  then obtain s1 where "call_plugin vt c s = (Inr (), s1)" "started s1"
    using operation_step by fastforce
  then show ?case
    using Cons by (simp add: run_calls_def)
qed (simp add: run_calls_def)

text \<open>A plugin that keeps the contract survives the life cycle the proxy gives it.\<close>

lemma life_cycle:
  assumes "fresh s" "settings_ok cfg" "list_all (in_operation message_ok) cs"
  shows "\<exists>s'. run_calls vt (CallSetConfig cfg # CallStart # cs @ [CallStop]) s = (Inr (), s') \<and> ended s'"
proof -
  obtain b1 s1 where 1: "vp_setConfig vt cfg s = (Inr b1, s1)" "configured s1"
    using set_config [OF assms(1,2)] by blast
  obtain b2 s2 where 2: "vp_startPlugin vt s1 = (Inr b2, s2)" "started s2"
    using start [OF 1(2)] by blast
  obtain s3 where 3: "run_calls vt cs s2 = (Inr (), s3)" "started s3"
    using operation_run [OF 2(2) assms(3)] by blast
  obtain b4 s4 where 4: "vp_stopPlugin vt s3 = (Inr b4, s4)" "ended s4"
    using stop [OF 3(2)] by blast
  have "seqE (List.map (call_plugin vt) (cs @ [CallStop])) s2 = (Inr (), s4)"
    using 3(1) 4(1) by (simp add: run_calls_def seqE_append)
  then show ?thesis
    using 1(1) 2(1) 4(2) by (simp add: run_calls_def)
qed

end

section \<open>Sessions of the proxy\<close>

text \<open>Between initialisation and deinitialisation the proxy sees clients come and go, plugins send, and
  messages from the client. A step that fails leaves its partial effect behind and the next one follows.\<close>

datatype proxy_input =
    Host host_event
  | FromHost protocol_message

fun proxy_step_on ::
    "('e, 's) recorder_vt \<Rightarrow> config_provider \<Rightarrow> (nat \<Rightarrow> message_type) \<Rightarrow> proxy_input \<Rightarrow> ('e, 's, unit) proxy_op" where
  "proxy_step_on vt cf serves (Host e) = host_step vt cf e"
| "proxy_step_on vt cf serves (FromHost m) = onMessageReceived serves m"

definition proxy_session ::
    "('e, 's) recorder_vt \<Rightarrow> config_provider \<Rightarrow> (nat \<Rightarrow> message_type) \<Rightarrow> proxy_input list
       \<Rightarrow> 's plugin_proxy \<Rightarrow> 's plugin_proxy" where
  "proxy_session vt cf serves ins p = fold (\<lambda>i p. snd (proxy_step_on vt cf serves i p)) ins p"

text \<open>What a step may do to the proxy: nothing to the plugins loaded, and calls to them that \<open>ok\<close> allows.\<close>

definition allowed :: "(nat \<Rightarrow> plugin_call \<Rightarrow> bool) \<Rightarrow> nat list \<Rightarrow> proxy_event \<Rightarrow> bool" where
  "allowed ok ptrs ev \<longleftrightarrow> (\<forall>i c. event_call ev = Some (i, c) \<longrightarrow> i \<in> set ptrs \<and> ok i c)"

definition quiet :: "(nat \<Rightarrow> plugin_call \<Rightarrow> bool) \<Rightarrow> 's plugin_proxy \<Rightarrow> 's plugin_proxy \<Rightarrow> bool" where
  "quiet ok p p' \<longleftrightarrow> px_loadedPlugins p' = px_loadedPlugins p \<and> px_isPluginStarted p' = px_isPluginStarted p \<and>
     (\<exists>evs. px_trace p' = px_trace p @ evs \<and> list_all (allowed ok (plugin_ptrs p)) evs)"

lemma quiet_refl: "quiet ok p p"
  by (simp add: quiet_def)

lemma quiet_trans: "quiet ok p q \<Longrightarrow> quiet ok q r \<Longrightarrow> quiet ok p r"
  by (fastforce simp: quiet_def plugin_ptrs_def)

lemma quiet_bind:
  assumes "quiet ok p (snd (m p))" "\<And>x q. quiet ok q (snd (f x q))"
  shows "quiet ok p (snd (bindE m f p))"
proof (cases "m p")
  case (Pair r q)
  then show ?thesis
    using assms(1) by (cases r) (auto simp: bindE_def intro: quiet_trans assms(2))
qed

lemma quiet_then:
  "quiet ok p (snd (m p)) \<Longrightarrow> (\<And>q. quiet ok q (snd (n q))) \<Longrightarrow> quiet ok p (snd (thenE m n p))"
  by (simp add: thenE_def quiet_bind)

lemma quiet_recorder_call: "quiet ok p (snd (recorder_call m p))"
  by (auto simp: quiet_def recorder_call_def split: option.split prod.split sum.split)

lemma quiet_extend: "list_all (allowed ok (plugin_ptrs p)) evs \<Longrightarrow> quiet ok p (p\<lparr> px_trace := px_trace p @ evs \<rparr>)"
  by (simp add: quiet_def)

lemma quiet_emit: "list_all (allowed ok (plugin_ptrs p)) evs \<Longrightarrow> quiet ok p (snd (emit evs p))"
  by (simp add: quiet_def)

lemma quiet_flag: "quiet ok p (snd (modifyE (\<lambda>p. p\<lparr> px_connectionEstablished := b \<rparr>) p))"
  by (simp add: quiet_def)

lemma allowed_calls [simp]:
  "allowed ok ptrs (ToClient m)"
  "allowed ok ptrs (OnConnectionEstablished i) \<longleftrightarrow> i \<in> set ptrs \<and> ok i CallEstablished"
  "allowed ok ptrs (OnConnectionLost i) \<longleftrightarrow> i \<in> set ptrs \<and> ok i CallLost"
  "allowed ok ptrs (OnMessageReceived i n buf) \<longleftrightarrow> i \<in> set ptrs \<and> ok i (CallReceived n buf)"
  by (auto simp: allowed_def)

lemma quiet_sent: "quiet ok p (snd (emit (List.map ToClient ms) p))"
  by (rule quiet_emit) (simp add: list_all_iff)

lemma quiet_replay: "quiet ok p (snd (bindE (recorder_call m) (\<lambda>sent. emit (List.map ToClient sent)) p))"
  by (intro quiet_bind quiet_recorder_call quiet_sent)

lemma quiet_established:
  assumes "\<And>i. ok i CallEstablished"
  shows "quiet ok p (snd (onHostConnectionEstablished vt p))"
proof -
  have 1: "quiet ok q (snd ((if px_recorder q \<noteq> None
      then bindE (recorder_call (vt_sendBufferedData vt)) (\<lambda>sent. emit (List.map ToClient sent)) q
      else (Inr (), q))))" for q
    by (simp add: quiet_replay quiet_refl)
  have 2: "quiet ok q (snd (emit (List.map OnConnectionEstablished (plugin_ptrs q)) q))" for q
    using assms by (intro quiet_emit) (simp add: list_all_iff)
  show ?thesis
    unfolding onHostConnectionEstablished_def seqE.simps
    by (intro quiet_then quiet_flag 1 2) (simp add: quiet_refl)
qed

lemma quiet_lost:
  assumes "\<And>i. ok i CallLost"
  shows "quiet ok p (snd (onHostConnectionLost vt p))"
proof -
  have 1: "quiet ok q (snd ((if px_recorder q \<noteq> None then recorder_call (vt_resumeBuffering vt) q
      else (Inr (), q))))" for q
    by (simp add: quiet_recorder_call quiet_refl)
  have 2: "quiet ok q (snd (emit (List.map OnConnectionLost (plugin_ptrs q)) q))" for q
    using assms by (intro quiet_emit) (simp add: list_all_iff)
  show ?thesis
    unfolding onHostConnectionLost_def seqE.simps
    by (intro quiet_then quiet_flag 1 2) (simp add: quiet_refl)
qed

lemma quiet_return: "quiet ok p (snd (returnE x p))"
  by (simp add: quiet_refl)

lemma quiet_send: "quiet ok p (snd (sendMessage vt cf env ty n buf ts ctx p))"
  unfolding sendMessage_def Let_def
  by (intro quiet_then quiet_return)
    (auto simp del: bindE_unit intro!: quiet_bind quiet_recorder_call quiet_refl quiet_extend)

lemma quiet_host:
  assumes "\<And>i. ok i CallEstablished" "\<And>i. ok i CallLost"
  shows "quiet ok p (snd (host_step vt cf e p))"
  using assms by (cases e) (auto intro!: quiet_established quiet_lost quiet_then quiet_send quiet_return)

lemma quiet_received:
  assumes "\<And>i. serves i = getMessageType m \<Longrightarrow> ok i (CallReceived (getMessageLength m) (getPayloadData m))"
  shows "quiet ok p (snd (onMessageReceived serves m p))"
proof (cases "route serves (getMessageType m) (px_loadedPlugins p)")
  case (Some i)
  have "route serves item ps = Some i \<Longrightarrow> serves i = item \<and> i \<in> fst ` set ps" for item ps
    by (induction ps) (auto split: if_splits)
  then show ?thesis
    using assms Some by (fastforce simp: onMessageReceived_def quiet_def plugin_ptrs_def)
qed (simp add: onMessageReceived_def quiet_refl)

lemma session_quiet:
  assumes "\<And>i. ok i CallEstablished" "\<And>i. ok i CallLost"
    and "\<And>m i. FromHost m \<in> set ins \<Longrightarrow> serves i = getMessageType m \<Longrightarrow>
           ok i (CallReceived (getMessageLength m) (getPayloadData m))"
  shows "quiet ok p (proxy_session vt cf serves ins p)"
  using assms(3)
proof (induction ins arbitrary: p)
  case (Cons x ins)
  have "quiet ok p (snd (proxy_step_on vt cf serves x p))"
    using assms(1,2) Cons.prems by (cases x) (auto intro: quiet_host quiet_received)
  moreover have "quiet ok q (proxy_session vt cf serves ins q)" for q
    using Cons.IH Cons.prems by simp
  ultimately show ?case
    unfolding proxy_session_def fold_Cons comp_def using quiet_trans by blast
qed (simp add: proxy_session_def quiet_refl)

text \<open>The whole trace of a run: loading, configuration, start, the session, stop.\<close>

lemma initialize_result:
  "\<exists>m. cmap_ok m \<and> initializePluginProvider L cf (new_PluginProxy rec) =
     (Inr () :: 'e proxy_error + unit, (new_PluginProxy rec)\<lparr> px_sender := True, px_loadedPlugins := m,
        px_trace := List.map UnloadLibrary (unloaded L (Plugins cf)) @
          List.map (\<lambda>(i, cfg). SetConfig i (pc_properties cfg)) m @ List.map StartPlugin (List.map fst m),
        px_isPluginStarted := True \<rparr>)"
proof -
  let ?m = "fold (\<lambda>cfg m. case plugin_instance L cfg of
              None \<Rightarrow> m | Some i \<Rightarrow> cmap_insert i cfg m) (Plugins cf) []"
  have "cmap_ok ?m"
    by (rule loaded_ok) (simp add: cmap_ok_def)
  then show ?thesis
    by (intro exI [of _ ?m])
      (simp add: initializePluginProvider_def new_PluginProxy_def thenE_def bindE_def loadPlugins_result
        setPluginsConfig_def startPlugins_def plugin_ptrs_def)
qed

lemma initialized:
  assumes "initializePluginProvider L cf (new_PluginProxy rec) = (r :: 'e proxy_error + unit, p1)"
  shows "px_isPluginStarted p1" "distinct (plugin_ptrs p1)"
    "px_trace p1 = List.map UnloadLibrary (unloaded L (Plugins cf)) @
       List.map (\<lambda>(i, cfg). SetConfig i (pc_properties cfg)) (px_loadedPlugins p1) @
       List.map StartPlugin (plugin_ptrs p1)"
proof -
  obtain m where "cmap_ok m"
    "p1 = (new_PluginProxy rec)\<lparr> px_sender := True, px_loadedPlugins := m,
        px_trace := List.map UnloadLibrary (unloaded L (Plugins cf)) @
          List.map (\<lambda>(i, cfg). SetConfig i (pc_properties cfg)) m @ List.map StartPlugin (List.map fst m),
        px_isPluginStarted := True \<rparr>"
    using initialize_result [where 'e = 'e, of L cf rec] assms by auto
  then show "px_isPluginStarted p1" "distinct (plugin_ptrs p1)"
    "px_trace p1 = List.map UnloadLibrary (unloaded L (Plugins cf)) @
       List.map (\<lambda>(i, cfg). SetConfig i (pc_properties cfg)) (px_loadedPlugins p1) @
       List.map StartPlugin (plugin_ptrs p1)"
    by (simp_all add: plugin_ptrs_def cmap_ok_def strict_sorted_iff)
qed

lemma calls_of_run:
  assumes "initializePluginProvider L cf (new_PluginProxy rec) = (r :: 'e proxy_error + unit, p1)"
    and "quiet ok p1 p2" "deinitializePluginProvider p2 = (r' :: 'f proxy_error + unit, p3)"
  obtains evs where "list_all (allowed ok (plugin_ptrs p1)) evs"
    "\<And>i. calls_to i (px_trace p3) =
       (case map_of (px_loadedPlugins p1) i of
          None \<Rightarrow> calls_to i evs
        | Some cfg \<Rightarrow> CallSetConfig (pc_properties cfg) # CallStart # calls_to i evs @ [CallStop])"
proof -
  note init = initialized [OF assms(1)]
  obtain evs where evs: "px_trace p2 = px_trace p1 @ evs" "list_all (allowed ok (plugin_ptrs p1)) evs"
      and p2: "px_loadedPlugins p2 = px_loadedPlugins p1" "px_isPluginStarted p2"
    using assms(2) init(1) by (auto simp: quiet_def)
  have p3: "px_trace p3 = px_trace p2 @ List.map StopPlugin (plugin_ptrs p1)"
    using assms(3) p2
    by (auto simp: deinitializePluginProvider_def stopPlugins_def thenE_def bindE_def plugin_ptrs_def)
  have unload: "calls_to i (List.map UnloadLibrary ls) = []" for i ls
    by (rule calls_to_none) auto
  have d: "distinct (List.map fst (px_loadedPlugins p1))"
    using init(2) by (simp add: plugin_ptrs_def)
  have mem: "i \<in> set (plugin_ptrs p1) \<longleftrightarrow> map_of (px_loadedPlugins p1) i \<noteq> None" for i
    by (simp add: plugin_ptrs_def map_of_eq_None_iff)
  have "calls_to i (px_trace p3) =
       (case map_of (px_loadedPlugins p1) i of
          None \<Rightarrow> calls_to i evs
        | Some cfg \<Rightarrow> CallSetConfig (pc_properties cfg) # CallStart # calls_to i evs @ [CallStop])" for i
    using mem [of i]
    by (simp add: p3 evs(1) init(3) unload calls_to_configs [OF d] calls_to_starts [OF init(2)]
        split: option.split)
  then show ?thesis
    using that evs(2) by blast
qed

lemma deinitialize_returns: "\<exists>p'. deinitializePluginProvider p = (Inr (), p')"
  by (cases "px_isPluginStarted p") (simp_all add: deinitializePluginProvider_def stopPlugins_def)

end
