(* ===== verification/PeriodicThreads.thy ===== *)
theory PeriodicThreads
  imports AppStats ResourceMonitor
begin

text \<open>
  The periodic threads of the resource monitor (\<^verbatim>\<open>runActivity\<close> of
  \<^verbatim>\<open>resource-monitor-scheduler.cpp\<close>) and of the application statistics (\<^verbatim>\<open>mainSenderLoop\<close> of
  \<^verbatim>\<open>stats_collector.cpp\<close>) as threads: the timer expires on its own, another thread requests the stop
  and waits. Both loops have one shape: test the request, block in the read of the timer, do one pass.
  \<open>PluginLifecycle\<close> rests on when the wait returns.
\<close>

section \<open>Steps\<close>

datatype periodic_pc = AtTest | InRead | InPass | Left

text \<open>\<open>pd_expired\<close> is the counter of the timer: the expirations since the last read. \<open>pd_passes\<close> are the
  passes made, each with the number of expirations its read delivered.\<close>

record periodic_thread =
  pd_pc :: periodic_pc
  pd_stopped :: bool
  pd_expired :: nat
  pd_passes :: "nat list"

definition periodic_begin :: periodic_thread where
  "periodic_begin = \<lparr> pd_pc = AtTest, pd_stopped = False, pd_expired = 0, pd_passes = [] \<rparr>"

text \<open>A timer whose interval and first expiration are zero is disarmed.\<close>

definition armed :: "u32 \<Rightarrow> bool" where
  "armed samplingRate \<longleftrightarrow> timer_interval samplingRate \<noteq> (0, 0)"

inductive periodic_step :: "u32 \<Rightarrow> periodic_thread \<Rightarrow> periodic_thread \<Rightarrow> bool" for samplingRate where
  go_on: "pd_pc s = AtTest \<Longrightarrow> \<not> pd_stopped s \<Longrightarrow> periodic_step samplingRate s (s\<lparr> pd_pc := InRead \<rparr>)"
| leave: "pd_pc s = AtTest \<Longrightarrow> pd_stopped s \<Longrightarrow> periodic_step samplingRate s (s\<lparr> pd_pc := Left \<rparr>)"
| expire: "armed samplingRate \<Longrightarrow> periodic_step samplingRate s (s\<lparr> pd_expired := Suc (pd_expired s) \<rparr>)"
| read: "pd_pc s = InRead \<Longrightarrow> pd_expired s > 0 \<Longrightarrow>
    periodic_step samplingRate s
      (s\<lparr> pd_pc := InPass, pd_passes := pd_passes s @ [pd_expired s], pd_expired := 0 \<rparr>)"
| pass: "pd_pc s = InPass \<Longrightarrow> periodic_step samplingRate s (s\<lparr> pd_pc := AtTest \<rparr>)"
| request: "\<not> pd_stopped s \<Longrightarrow> periodic_step samplingRate s (s\<lparr> pd_stopped := True \<rparr>)"

inductive_cases periodic_stepE: "periodic_step samplingRate s s'"

lemma armed_iff: "armed samplingRate \<longleftrightarrow> samplingRate \<noteq> 0"
proof -
  obtain sec ns where i: "timer_interval samplingRate = (sec, ns)"
    by fastforce
  have x: "uint sec * 1000 + uint ns div 1000000 = uint samplingRate"
    using timer_interval_exact [OF i] by blast
  have "samplingRate = 0" if "sec = 0" "ns = 0"
    using x that by (simp add: uint_0_iff)
  moreover have "sec = 0 \<and> ns = 0" if "samplingRate = 0"
    using i that by (auto simp: timer_interval_def)
  ultimately show ?thesis
    using i by (auto simp: armed_def)
qed

text \<open>Every pass stands for at least one expiration, so a thread never works off a period that has not
  passed; and the passes account for all expirations that were read.\<close>

lemma passes_positive:
  "(periodic_step samplingRate)\<^sup>*\<^sup>* periodic_begin s \<Longrightarrow> \<forall>n \<in> set (pd_passes s). n > 0"
  by (induction rule: rtranclp_induct) (auto simp: periodic_begin_def elim!: periodic_stepE)

section \<open>Stopping\<close>

lemma leaves_test:
  "pd_pc s = AtTest \<Longrightarrow> pd_stopped s \<Longrightarrow> \<exists>s'. (periodic_step r)\<^sup>*\<^sup>* s s' \<and> pd_pc s' = Left"
  using periodic_step.leave [of s r] by (intro exI [of _ "s\<lparr> pd_pc := Left \<rparr>"]) auto

lemma leaves_pass:
  assumes "pd_pc s = InPass" "pd_stopped s"
  shows "\<exists>s'. (periodic_step r)\<^sup>*\<^sup>* s s' \<and> pd_pc s' = Left"
  using periodic_step.pass [OF assms(1), of r] leaves_test [of "s\<lparr> pd_pc := AtTest \<rparr>" r] assms
  by (auto intro: converse_rtranclp_into_rtranclp)

lemma leaves_read:
  assumes "pd_pc s = InRead" "pd_stopped s" "armed r"
  shows "\<exists>s'. (periodic_step r)\<^sup>*\<^sup>* s s' \<and> pd_pc s' = Left"
proof -
  let ?s1 = "s\<lparr> pd_expired := Suc (pd_expired s) \<rparr>"
  let ?s2 = "?s1\<lparr> pd_pc := InPass, pd_passes := pd_passes s @ [Suc (pd_expired s)], pd_expired := 0 \<rparr>"
  have "periodic_step r s ?s1" "periodic_step r ?s1 ?s2"
    using periodic_step.expire [OF assms(3), of s] periodic_step.read [of ?s1 r] assms by simp_all
  then show ?thesis
    using leaves_pass [of ?s2 r] assms by (auto intro: converse_rtranclp_into_rtranclp)
qed

text \<open>What a thread still has to do after the request; each of its own steps is one less, and the timer's
  steps do not change it.\<close>

fun to_do :: "periodic_pc \<Rightarrow> nat" where
  "to_do Left = 0"
| "to_do AtTest = 1"
| "to_do InPass = 2"
| "to_do InRead = 3"

lemma stop_progress:
  assumes "periodic_step r s s'" "pd_stopped s"
  shows "pd_stopped s' \<and> (to_do (pd_pc s') = to_do (pd_pc s) \<and> pd_expired s' = Suc (pd_expired s) \<or>
     to_do (pd_pc s') + 1 = to_do (pd_pc s))"
  using assms by (auto elim!: periodic_stepE)

lemma stuck_in_read:
  assumes "(periodic_step r)\<^sup>*\<^sup>* s s'" "pd_pc s = InRead" "pd_stopped s" "pd_expired s = 0" "\<not> armed r"
  shows "s' = s"
  using assms by (induction rule: rtranclp_induct) (auto elim!: periodic_stepE)

lemma reaches_read: "\<exists>s. (periodic_step r)\<^sup>*\<^sup>* periodic_begin s \<and> pd_pc s = InRead \<and> pd_stopped s \<and> pd_expired s = 0"
proof -
  let ?s1 = "periodic_begin\<lparr> pd_pc := InRead \<rparr>"
  have "periodic_step r periodic_begin ?s1" "periodic_step r ?s1 (?s1\<lparr> pd_stopped := True \<rparr>)"
    using periodic_step.go_on [of periodic_begin r] periodic_step.request [of ?s1 r]
    by (simp_all add: periodic_begin_def)
  then show ?thesis
    by (intro exI [of _ "?s1\<lparr> pd_stopped := True \<rparr>"])
      (auto simp: periodic_begin_def intro: converse_rtranclp_into_rtranclp)
qed

lemma stop_possible:
  assumes "r \<noteq> 0" "pd_stopped s"
  shows "\<exists>s'. (periodic_step r)\<^sup>*\<^sup>* s s' \<and> pd_pc s' = Left"
proof (cases "pd_pc s")
  case Left
  then show ?thesis by auto
qed (use assms leaves_test leaves_pass leaves_read armed_iff in blast)+

text \<open>Whatever has happened until the request, the thread can still get to its end.\<close>

definition stoppable :: "u32 \<Rightarrow> bool" where
  "stoppable samplingRate \<longleftrightarrow>
     (\<forall>s. (periodic_step samplingRate)\<^sup>*\<^sup>* periodic_begin s \<and> pd_stopped s \<longrightarrow>
        (\<exists>s'. (periodic_step samplingRate)\<^sup>*\<^sup>* s s' \<and> pd_pc s' = Left))"

text \<open>C22: A periodic thread can be stopped exactly when its period is not zero. With a period, from every state
  after the request the thread gets to its end, and every step is an expiration of the timer or brings the
  end nearer (at most three steps of the thread itself); with a period of zero the timer is disarmed, and
  a thread that blocks in its read when the stop is requested stays there.\<close>

theorem periodic_stop:
  "(stoppable samplingRate \<longleftrightarrow> samplingRate \<noteq> 0) \<and>
   (\<forall>s s'. periodic_step samplingRate s s' \<and> pd_stopped s \<longrightarrow>
     pd_stopped s' \<and> to_do (pd_pc s) \<le> 3 \<and>
     (to_do (pd_pc s') = to_do (pd_pc s) \<and> pd_expired s' = Suc (pd_expired s) \<or>
      to_do (pd_pc s') + 1 = to_do (pd_pc s)))"
proof (intro conjI allI impI)
  show "stoppable samplingRate \<longleftrightarrow> samplingRate \<noteq> 0"
  proof
    assume L: "stoppable samplingRate"
    obtain s where s: "(periodic_step samplingRate)\<^sup>*\<^sup>* periodic_begin s" "pd_pc s = InRead" "pd_stopped s" "pd_expired s = 0"
      using reaches_read by blast
    then obtain s' where "(periodic_step samplingRate)\<^sup>*\<^sup>* s s'" "pd_pc s' = Left"
      using L unfolding stoppable_def by blast
    then show "samplingRate \<noteq> 0"
      using stuck_in_read [of samplingRate s s'] s(2-4) armed_iff [of samplingRate] by auto
  qed (use stop_possible in \<open>auto simp: stoppable_def\<close>)
next
  fix s s'
  assume st: "periodic_step samplingRate s s' \<and> pd_stopped s"
  show "pd_stopped s'"
    "to_do (pd_pc s') = to_do (pd_pc s) \<and> pd_expired s' = Suc (pd_expired s) \<or>
      to_do (pd_pc s') + 1 = to_do (pd_pc s)"
    using stop_progress st by blast+
  show "to_do (pd_pc s) \<le> 3"
    by (cases "pd_pc s") simp_all
qed

lemma periodic_stop_witness: "\<not> stoppable 0 \<and> stoppable 1000"
  using periodic_stop [of 0, THEN conjunct1] periodic_stop [of 1000, THEN conjunct1] by simp

end
