(* ===== verification/PluginLifecycle.thy ===== *)
theory PluginLifecycle
  imports PluginInterface PeriodicThreads ResourceMonitorWin DltMonitor Log4jReader JsonApi PacketSniffer
    SocketReader DbusMonitor DbusCmdCtrl
begin

text \<open>
  The plugins as objects behind the interface: for each its state between the calls of the plugin proxy
  (the pointers it dereferences, the threads it runs), its table of virtual functions, built on the
  operations of the plugin's own theory, and the interpretation of \<open>agent_plugin\<close>. The last section
  runs the calls of a whole session of the proxy on the plugins of the agent.
\<close>

section \<open>Threads, faults and the environment\<close>

text \<open>A \<^verbatim>\<open>Poco::Activity\<close>: \<open>start\<close> runs it in a thread of the pool, \<open>stop\<close> only requests its end, \<open>wait\<close> blocks
  until it has ended; \<open>returns\<close> says whether the activity gets to its next test of the request.\<close>

datatype activity = Idle | Running | Requested

definition activity_start :: "activity \<Rightarrow> activity" where
  "activity_start a = (case a of Idle \<Rightarrow> Running | _ \<Rightarrow> a)"

definition activity_stop :: "activity \<Rightarrow> activity" where
  "activity_stop a = (case a of Running \<Rightarrow> Requested | _ \<Rightarrow> a)"

definition activity_wait :: "bool \<Rightarrow> activity \<Rightarrow> activity option" where
  "activity_wait returns a =
     (case a of Idle \<Rightarrow> Some Idle | Running \<Rightarrow> None | Requested \<Rightarrow> if returns then Some Idle else None)"

text \<open>What ends a call other than by a return: a null pointer or a deleted object is used, an exception
  leaves the plugin, or the call never ends.\<close>

datatype plugin_fault =
    NullObject
  | DeletedObject
  | NotANumber
  | PortInUse nat
  | CaptureFails
  | NullPayload
  | EmptyVariant
  | WaitBlocks

text \<open>Everything outside: Poco's number parser, what the plugins find in memory, on the network and in the
  operating system, and the protocol buffer parser on the two messages plugins receive. \<open>pe_wakes\<close> says
  whether the consumer of the D-Bus monitor sees the request to stop (see \<open>stop_can_hang\<close>).\<close>

record plugin_env =
  pe_parseUnsigned :: "string \<Rightarrow> u32 option"
  pe_stats :: stats_env
  pe_processorCount :: u32
  pe_fileBuffer :: string
  pe_canBind :: "nat \<Rightarrow> bool"
  pe_captures :: "string \<Rightarrow> string option \<Rightarrow> bool"
  pe_cancels :: bool
  pe_wakes :: bool
  pe_statsConfig :: "string \<Rightarrow> (config_key \<times> u32) list"
  pe_dbusCall :: "string \<Rightarrow> method_call option"
  pe_stale :: "string \<Rightarrow> string"
  pe_accepts :: "string \<times> string \<times> string \<times> string \<Rightarrow> bool"

text \<open>An operation of a plugin's own theory, with its error as a fault and its result dropped or kept.\<close>

definition raising :: "('e \<Rightarrow> plugin_fault) \<Rightarrow> ('e, 's, 'a) op \<Rightarrow> (plugin_fault, 's, 'a) op" where
  "raising f m s = (case m s of (Inl e, s') \<Rightarrow> (Inl (f e), s') | (Inr x, s') \<Rightarrow> (Inr x, s'))"

lemma raising_simps [simp]:
  "m s = (Inr x, s') \<Longrightarrow> raising f m s = (Inr x, s')"
  "m s = (Inl e, s') \<Longrightarrow> raising f m s = (Inl (f e), s')"
  by (simp_all add: raising_def)

lemma fault_if: "(case (if b then (Inl e, s) else (Inr x, s')) of (Inl e, s') \<Rightarrow> (Inl (f e), s') | (Inr x, s') \<Rightarrow> (Inr x, s'))
    = (if b then (Inl (f e), s) else (Inr x, s'))"
  by simp

text \<open>\<^verbatim>\<open>std::string((char*) payloadBuffer, payloadLength)\<close>.\<close>

definition payload_string :: "int \<Rightarrow> byte list option \<Rightarrow> (plugin_fault, 's, string) op" where
  "payload_string payloadLength payloadBuffer =
     (case payloadBuffer of
        None \<Rightarrow> throwE NullPayload
      | Some bs \<Rightarrow> returnE (memcpy_read (nat payloadLength) (bytes_text bs)))"

definition whole :: "int \<Rightarrow> byte list option \<Rightarrow> bool" where
  "whole n buf \<longleftrightarrow> (case buf of None \<Rightarrow> False | Some bs \<Rightarrow> n = int (length bs))"

definition payload_text :: "byte list option \<Rightarrow> string" where
  "payload_text buf = (case buf of None \<Rightarrow> [] | Some bs \<Rightarrow> bytes_text bs)"

lemma payload_string_whole: "whole n buf \<Longrightarrow> payload_string n buf = returnE (payload_text buf)"
  by (auto simp: whole_def payload_string_def payload_text_def bytes_text_def memcpy_read_map split: option.splits)

section \<open>Linux application statistics\<close>

definition stats_fault :: "stats_plugin_error \<Rightarrow> plugin_fault" where
  "stats_fault e = (case e of NullCollector \<Rightarrow> NullObject | SenderBlocks \<Rightarrow> WaitBlocks)"

definition stats_onMessageReceived ::
    "plugin_env \<Rightarrow> int \<Rightarrow> byte list option \<Rightarrow> (plugin_fault, stats_plugin, unit) op" where
  "stats_onMessageReceived E payloadLength payloadBuffer =
     bindE (payload_string payloadLength payloadBuffer)
       (\<lambda>text. raising stats_fault (config_entries (pe_stats E) (pe_statsConfig E text)))"

definition stats_vt :: "plugin_env \<Rightarrow> (plugin_fault, stats_plugin) plugin_vt" where
  "stats_vt E =
     \<lparr> vp_startPlugin = raising stats_fault (stats_startPlugin (pe_stats E)),
       vp_stopPlugin = raising stats_fault stats_stopPlugin,
       vp_setConfig = (\<lambda>cfg p. apfst Inr (stats_setConfig (pe_parseUnsigned E) (pe_stats E) cfg p)),
       vp_onMessageReceived = stats_onMessageReceived E,
       vp_onConnectionEstablished = returnE (),
       vp_onConnectionLost = returnE () \<rparr>"

definition stats_ready :: "stats_plugin \<Rightarrow> bool" where
  "stats_ready p \<longleftrightarrow> (\<exists>c. sp_collector p = Some c \<and> tc_samplingRate c \<noteq> 0)"

definition stats_rate :: "plugin_env \<Rightarrow> (string \<times> string) list \<Rightarrow> u32" where
  "stats_rate E cfg = fst (snd (stats_settings (pe_parseUnsigned E) cfg ([], 0, False)))"

lemma stats_settings_rate:
  "fst (snd (stats_settings parse cfg (q, r, ok))) = fst (snd (stats_settings parse cfg (q', r, ok')))"
proof (induction cfg arbitrary: q r ok q' ok')
  case (Cons kv cfg)
  obtain k v where kv: "kv = (k, v)" by fastforce
  show ?case
  proof (cases "contains ''samplingRate'' k")
    case True
    then show ?thesis
      using Cons.IH [of q r ok q' ok'] Cons.IH [of q "the (parse v)" True q' True] kv
      by (cases "parse v") auto
  next
    case False
    then show ?thesis
      using Cons.IH [of v r ok v ok'] Cons.IH [of q r ok q' ok'] kv by auto
  qed
qed simp

lemma collector_rate [simp]:
  "tc_samplingRate (sendQuery q c) = tc_samplingRate c"
  "tc_samplingRate (new_CThreadStatsCollector q r sl b rs) = r"
  by (simp_all add: sendQuery_def new_CThreadStatsCollector_def Let_def split: prod.split)

lemma stats_start:
  "stats_ready p \<Longrightarrow> \<exists>p'. stats_startPlugin env p = (Inr True, p') \<and> stats_ready p'"
  by (auto simp: stats_ready_def stats_startPlugin_def start_collector_def split: prod.split)

lemma stats_stop:
  "stats_ready p \<Longrightarrow> stats_stopPlugin p =
     (Inr True, p\<lparr> sp_collector := None, sp_running := False,
                     sp_buffer := tc_buffer (the (sp_collector p)) \<rparr>)"
  by (auto simp: stats_ready_def stats_stopPlugin_def)

lemma stats_entries:
  "stats_ready p \<Longrightarrow> \<forall>v. (APP_STATISTICS_SET_RESOLUTION, v) \<in> set es \<longrightarrow> v \<noteq> 0 \<Longrightarrow>
     \<exists>p'. config_entries env es p = (Inr (), p') \<and> stats_ready p'"
proof (induction env es p rule: config_entries.induct)
  case (2 env key val es p)
  obtain c where c: "sp_collector p = Some c" "tc_samplingRate c \<noteq> 0"
    using "2.prems"(1) by (auto simp: stats_ready_def)
  show ?case
  proof (cases key)
    case APP_STATISTICS_SET_RESOLUTION
    let ?p = "new_collector env val (p\<lparr> sp_collector := None, sp_running := False,
                 sp_buffer := tc_buffer (the (sp_collector p)) \<rparr>)"
    have "stats_ready ?p"
      using "2.prems"(2) APP_STATISTICS_SET_RESOLUTION by (simp add: stats_ready_def new_collector_def)
    then obtain p' where "stats_startPlugin env ?p = (Inr True, p')" "stats_ready p'"
      using stats_start by blast
    then show ?thesis
      using stats_stop [OF "2.prems"(1)] APP_STATISTICS_SET_RESOLUTION by simp
  next
    case APP_STATISTICS_TRIGGER
    let ?p = "p\<lparr> sp_collector := Some (sendQuery (sp_query p) c) \<rparr>"
    have "stats_ready ?p"
      using c by (simp add: stats_ready_def)
    then show ?thesis
      using "2.IH" [OF APP_STATISTICS_TRIGGER c(1)] "2.prems"(2) c(1) APP_STATISTICS_TRIGGER by simp
  qed
qed simp

definition stats_message_ok :: "plugin_env \<Rightarrow> int \<Rightarrow> byte list option \<Rightarrow> bool" where
  "stats_message_ok E n buf \<longleftrightarrow> whole n buf \<and>
     (\<forall>v. (APP_STATISTICS_SET_RESOLUTION, v) \<in> set (pe_statsConfig E (payload_text buf)) \<longrightarrow> v \<noteq> 0)"

interpretation stats: agent_plugin "stats_vt E" "\<lambda>cfg. stats_rate E cfg \<noteq> 0" "stats_message_ok E"
  "\<lambda>p. p = new_CLinuxAppStatsPlugin" stats_ready stats_ready "\<lambda>p. sp_collector p = None \<and> \<not> sp_running p"
  for E
proof unfold_locales
  fix s cfg
  assume s: "s = new_CLinuxAppStatsPlugin" and r: "stats_rate E cfg \<noteq> 0"
  obtain q r ok where x: "stats_settings (pe_parseUnsigned E) cfg (sp_query s, 0, False) = (q, r, ok)"
    by (metis prod.exhaust)
  then have "r \<noteq> 0"
    using r stats_settings_rate [of "pe_parseUnsigned E" cfg "sp_query s" 0 False "[]" False]
    by (simp add: stats_rate_def)
  then show "\<exists>b s'. vp_setConfig (stats_vt E) cfg s = (Inr b, s') \<and> stats_ready s'"
    using x by (simp add: stats_vt_def stats_setConfig_def stats_ready_def new_collector_def)
next
  fix s n buf
  assume s: "stats_ready s" and m: "stats_message_ok E n buf"
  then obtain s' where "config_entries (pe_stats E) (pe_statsConfig E (payload_text buf)) s = (Inr (), s')"
      "stats_ready s'"
    using stats_entries unfolding stats_message_ok_def by blast
  then show "\<exists>s'. vp_onMessageReceived (stats_vt E) n buf s = (Inr (), s') \<and> stats_ready s'"
    using m by (simp add: stats_vt_def stats_onMessageReceived_def stats_message_ok_def
        payload_string_whole bindE_return returnE_def)
next
  fix s
  assume "stats_ready s"
  then obtain s' where "stats_startPlugin (pe_stats E) s = (Inr True, s')" "stats_ready s'"
    using stats_start by blast
  then show "\<exists>b s'. vp_startPlugin (stats_vt E) s = (Inr b, s') \<and> stats_ready s'"
    by (auto simp: stats_vt_def)
qed (auto simp: stats_vt_def stats_stop raising_def)

section \<open>Resource monitor\<close>

record resource_plugin =
  rp_scheduler :: "scheduler option"
  rp_activity :: activity

definition new_ResourceMonitorPlugin :: resource_plugin where
  "new_ResourceMonitorPlugin = \<lparr> rp_scheduler = None, rp_activity = Idle \<rparr>"

definition resource_setConfig :: "plugin_env \<Rightarrow> (string \<times> string) list \<Rightarrow> (plugin_fault, resource_plugin, bool) op" where
  "resource_setConfig E cfg p =
     (Inr True, p\<lparr> rp_scheduler := Some (monitor_setConfig (pe_parseUnsigned E) cfg (pe_processorCount E) (pe_fileBuffer E)),
                  rp_activity := Idle \<rparr>)"

definition resource_startPlugin :: "(plugin_fault, resource_plugin, bool) op" where
  "resource_startPlugin p =
     (case rp_scheduler p of
        None \<Rightarrow> (Inl NullObject, p)
      | Some s \<Rightarrow> (Inr True, p\<lparr> rp_activity := activity_start (rp_activity p) \<rparr>))"

text \<open>The activity gets out of the read of its timer when that is armed (\<open>periodic_stop\<close>).\<close>

definition resource_stopPlugin :: "(plugin_fault, resource_plugin, bool) op" where
  "resource_stopPlugin p =
     (case rp_scheduler p of
        None \<Rightarrow> (Inl NullObject, p)
      | Some s \<Rightarrow>
          (case activity_wait (armed (rs_samplingRateInMs s)) (activity_stop (rp_activity p)) of
             None \<Rightarrow> (Inl WaitBlocks, p\<lparr> rp_activity := activity_stop (rp_activity p) \<rparr>)
           | Some a \<Rightarrow> (Inr True, p\<lparr> rp_activity := a \<rparr>)))"

definition resource_vt :: "plugin_env \<Rightarrow> (plugin_fault, resource_plugin) plugin_vt" where
  "resource_vt E =
     \<lparr> vp_startPlugin = resource_startPlugin, vp_stopPlugin = resource_stopPlugin,
       vp_setConfig = resource_setConfig E, vp_onMessageReceived = (\<lambda>_ _. returnE ()),
       vp_onConnectionEstablished = returnE (), vp_onConnectionLost = returnE () \<rparr>"

definition resource_rate :: "plugin_env \<Rightarrow> (string \<times> string) list \<Rightarrow> u32" where
  "resource_rate E cfg = rs_samplingRateInMs (monitor_setConfig (pe_parseUnsigned E) cfg (pe_processorCount E) (pe_fileBuffer E))"

definition resource_state :: "activity \<Rightarrow> resource_plugin \<Rightarrow> bool" where
  "resource_state a p \<longleftrightarrow> (\<exists>s. rp_scheduler p = Some s \<and> rs_samplingRateInMs s \<noteq> 0) \<and> rp_activity p = a"

interpretation resource: agent_plugin "resource_vt E" "\<lambda>cfg. resource_rate E cfg \<noteq> 0" "\<lambda>_ _. True"
  "\<lambda>p. p = new_ResourceMonitorPlugin" "resource_state Idle" "resource_state Running" "resource_state Idle"
  for E
  by unfold_locales
    (auto simp: resource_vt_def resource_state_def resource_setConfig_def resource_startPlugin_def
      resource_stopPlugin_def resource_rate_def activity_start_def activity_stop_def activity_wait_def armed_iff)

text \<open>A rate of zero is accepted, with a warning, and then the plugin cannot be stopped.\<close>

lemma resource_rate_zero:
  assumes "resource_rate E cfg = 0"
  shows "\<exists>p. run_calls (resource_vt E) [CallSetConfig cfg, CallStart, CallStop] new_ResourceMonitorPlugin =
     (Inl WaitBlocks, p)"
  using assms
  by (simp add: run_calls_def resource_vt_def resource_setConfig_def resource_startPlugin_def
      resource_stopPlugin_def resource_rate_def activity_start_def activity_stop_def activity_wait_def
      armed_iff thenE_def bindE_def returnE_def new_ResourceMonitorPlugin_def)

section \<open>Resource monitor on Windows\<close>

definition win_fault :: "win_error \<Rightarrow> plugin_fault" where
  "win_fault e = (case e of NullScheduler \<Rightarrow> NullObject | _ \<Rightarrow> DeletedObject)"

definition win_vt :: "plugin_env \<Rightarrow> (plugin_fault, win_plugin) plugin_vt" where
  "win_vt E =
     \<lparr> vp_startPlugin = (\<lambda>p. apfst Inr (win_startPlugin p)),
       vp_stopPlugin = raising win_fault win_stopPlugin,
       vp_setConfig = (\<lambda>cfg. raising (\<lambda>_. NotANumber) (win_setConfig (pe_parseUnsigned E) cfg)),
       vp_onMessageReceived = (\<lambda>_ _. returnE ()),
       vp_onConnectionEstablished = returnE (), vp_onConnectionLost = returnE () \<rparr>"

definition numbers_ok :: "string \<Rightarrow> (string \<Rightarrow> 'a option) \<Rightarrow> (string \<times> string) list \<Rightarrow> bool" where
  "numbers_ok word parse cfg \<longleftrightarrow> (\<forall>(k, v) \<in> set cfg. contains word k \<longrightarrow> parse v \<noteq> None)"

lemma win_settings_ok:
  "numbers_ok ''samplingRate'' parse cfg \<Longrightarrow> \<exists>b p'. win_settings parse cfg r p = (Inr b, p')"
  by (induction parse cfg r p rule: win_settings.induct) (auto simp: numbers_ok_def)

definition win_timer_is :: "(win_timer \<Rightarrow> bool) \<Rightarrow> win_plugin \<Rightarrow> bool" where
  "win_timer_is P p \<longleftrightarrow> (\<exists>s. wm_scheduler p = Some s \<and> P (ws_timer s))"

interpretation win: agent_plugin "win_vt E" "numbers_ok ''samplingRate'' (pe_parseUnsigned E)" "\<lambda>_ _. True"
  "\<lambda>p. p = new_win_plugin" "\<lambda>_. True" "win_timer_is (\<lambda>t. \<exists>r. t = Timer r)" "win_timer_is (\<lambda>t. t = DeletedTimer)"
  for E
proof unfold_locales
  fix s cfg
  assume "numbers_ok ''samplingRate'' (pe_parseUnsigned E) cfg"
  then obtain b p' where "win_setConfig (pe_parseUnsigned E) cfg s = (Inr b, p')"
    using win_settings_ok unfolding win_setConfig_def by blast
  then show "\<exists>b s'. vp_setConfig (win_vt E) cfg s = (Inr b, s') \<and> True"
    by (simp add: win_vt_def)
qed (auto simp: win_vt_def win_timer_is_def win_startPlugin_def startMonitoring_def new_win_scheduler_def
    win_stopPlugin_def stopMonitoring_def raising_def)

section \<open>DLT monitor\<close>

text \<open>The consumer's thread, between \<^verbatim>\<open>pthread_create\<close> and a successful \<^verbatim>\<open>pthread_cancel\<close>.\<close>

datatype dlt_thread = NoThread | ConsumerThread | CancelledThread

record dlt_plugin =
  dm_dltMessageHandler :: "(dlt_handler \<times> dlt_thread) option"
  dm_filterFile :: string

definition new_DltMonitorPlugin :: dlt_plugin where
  "new_DltMonitorPlugin = \<lparr> dm_dltMessageHandler = None, dm_filterFile = [] \<rparr>"

definition handler_start :: "dlt_handler \<times> dlt_thread \<Rightarrow> dlt_handler \<times> dlt_thread" where
  "handler_start h = (fst h, ConsumerThread)"

definition handler_stop :: "bool \<Rightarrow> dlt_handler \<times> dlt_thread \<Rightarrow> bool \<times> (dlt_handler \<times> dlt_thread)" where
  "handler_stop cancels h = (if cancels then (True, (fst h, CancelledThread)) else (False, h))"

definition dlt_startPlugin :: "(plugin_fault, dlt_plugin, bool) op" where
  "dlt_startPlugin p =
     (Inr True, p\<lparr> dm_dltMessageHandler := Some (handler_start (new_DltMessageHandler, NoThread)) \<rparr>)"

definition dlt_stopPlugin :: "plugin_env \<Rightarrow> (plugin_fault, dlt_plugin, bool) op" where
  "dlt_stopPlugin E p =
     (case dm_dltMessageHandler p of
        None \<Rightarrow> (Inl NullObject, p)
      | Some h \<Rightarrow> (Inr True, p\<lparr> dm_dltMessageHandler := Some (snd (handler_stop (pe_cancels E) h)) \<rparr>))"

definition dlt_vt :: "plugin_env \<Rightarrow> (plugin_fault, dlt_plugin) plugin_vt" where
  "dlt_vt E =
     \<lparr> vp_startPlugin = dlt_startPlugin, vp_stopPlugin = dlt_stopPlugin E,
       vp_setConfig = (\<lambda>cfg p. (Inr True, p\<lparr> dm_filterFile := dlt_setConfig cfg \<rparr>)),
       vp_onMessageReceived = (\<lambda>_ _. returnE ()),
       vp_onConnectionEstablished = returnE (), vp_onConnectionLost = returnE () \<rparr>"

definition dlt_thread_is :: "dlt_thread \<Rightarrow> dlt_plugin \<Rightarrow> bool" where
  "dlt_thread_is t p \<longleftrightarrow> (\<exists>h. dm_dltMessageHandler p = Some (h, t))"

interpretation dlt: agent_plugin "dlt_vt E" "\<lambda>_. pe_cancels E" "\<lambda>_ _. True" "\<lambda>p. p = new_DltMonitorPlugin"
  "\<lambda>p. dm_dltMessageHandler p = None \<and> pe_cancels E"
  "\<lambda>p. dlt_thread_is ConsumerThread p \<and> pe_cancels E" "dlt_thread_is CancelledThread"
  for E
  by unfold_locales
    (auto simp: dlt_vt_def dlt_thread_is_def dlt_startPlugin_def dlt_stopPlugin_def handler_start_def
      handler_stop_def new_DltMonitorPlugin_def)

section \<open>log4j\<close>

text \<open>One reader per configured file, by its name, with its activity. A poll sleeps a second, so the wait
  returns.\<close>

type_synonym log4j_plugin = "(string \<times> activity) list"

definition log4j_vt_setConfig :: "(string \<times> string) list \<Rightarrow> (plugin_fault, log4j_plugin, bool) op" where
  "log4j_vt_setConfig cfg p = (Inr True, p @ List.map (\<lambda>file. (file, Idle)) (log4j_setConfig cfg []))"

definition log4j_startPlugin :: "(plugin_fault, log4j_plugin, bool) op" where
  "log4j_startPlugin p = (Inr True, List.map (apsnd activity_start) p)"

fun log4j_stop_readers :: "log4j_plugin \<Rightarrow> plugin_fault option \<times> log4j_plugin" where
  "log4j_stop_readers [] = (None, [])"
| "log4j_stop_readers ((file, a) # rs) =
     (case activity_wait True (activity_stop a) of
        None \<Rightarrow> (Some WaitBlocks, (file, activity_stop a) # rs)
      | Some a' \<Rightarrow> apsnd ((#) (file, a')) (log4j_stop_readers rs))"

definition log4j_stopPlugin :: "(plugin_fault, log4j_plugin, bool) op" where
  "log4j_stopPlugin p =
     (case log4j_stop_readers p of (None, p') \<Rightarrow> (Inr True, p') | (Some f, p') \<Rightarrow> (Inl f, p'))"

definition log4j_vt :: "(plugin_fault, log4j_plugin) plugin_vt" where
  "log4j_vt =
     \<lparr> vp_startPlugin = log4j_startPlugin, vp_stopPlugin = log4j_stopPlugin,
       vp_setConfig = log4j_vt_setConfig, vp_onMessageReceived = (\<lambda>_ _. returnE ()),
       vp_onConnectionEstablished = returnE (), vp_onConnectionLost = returnE () \<rparr>"

definition readers_are :: "activity \<Rightarrow> log4j_plugin \<Rightarrow> bool" where
  "readers_are a p \<longleftrightarrow> (\<forall>r \<in> set p. snd r = a)"

lemma log4j_stop_all:
  "readers_are Running p \<Longrightarrow> log4j_stop_readers p = (None, List.map (\<lambda>r. (fst r, Idle)) p)"
  by (induction p rule: log4j_stop_readers.induct)
    (simp_all add: readers_are_def activity_stop_def activity_wait_def)

interpretation log4j: agent_plugin log4j_vt "\<lambda>_. True" "\<lambda>_ _. True" "\<lambda>p. p = []"
  "readers_are Idle" "readers_are Running" "readers_are Idle"
  by unfold_locales
    (auto simp: log4j_vt_def log4j_vt_setConfig_def log4j_startPlugin_def log4j_stopPlugin_def
      log4j_stop_all readers_are_def activity_start_def)

section \<open>JSON API\<close>

record json_plugin =
  js_activity :: activity
  js_pipe :: bool

definition new_CjsonapiPlugin :: json_plugin where
  "new_CjsonapiPlugin = \<lparr> js_activity = Idle, js_pipe = False \<rparr>"

text \<open>The pipe may exist already; the read of the pipe does not block.\<close>

definition json_startPlugin :: "(plugin_fault, json_plugin, bool) op" where
  "json_startPlugin p = (Inr True, p\<lparr> js_pipe := True, js_activity := activity_start (js_activity p) \<rparr>)"

definition json_stopPlugin :: "(plugin_fault, json_plugin, bool) op" where
  "json_stopPlugin p =
     (case activity_wait True (activity_stop (js_activity p)) of
        None \<Rightarrow> (Inl WaitBlocks, p\<lparr> js_activity := activity_stop (js_activity p) \<rparr>)
      | Some a \<Rightarrow> (Inr True, p\<lparr> js_activity := a, js_pipe := False \<rparr>))"

definition json_vt :: "(plugin_fault, json_plugin) plugin_vt" where
  "json_vt =
     \<lparr> vp_startPlugin = json_startPlugin, vp_stopPlugin = json_stopPlugin,
       vp_setConfig = (\<lambda>_. returnE True), vp_onMessageReceived = (\<lambda>_ _. returnE ()),
       vp_onConnectionEstablished = returnE (), vp_onConnectionLost = returnE () \<rparr>"

interpretation json: agent_plugin json_vt "\<lambda>_. True" "\<lambda>_ _. True" "\<lambda>p. p = new_CjsonapiPlugin"
  "\<lambda>p. js_activity p = Idle" "\<lambda>p. js_activity p = Running \<and> js_pipe p" "\<lambda>p. js_activity p = Idle \<and> \<not> js_pipe p"
  by unfold_locales
    (auto simp: json_vt_def json_startPlugin_def json_stopPlugin_def new_CjsonapiPlugin_def
      activity_start_def activity_stop_def activity_wait_def)

section \<open>Network packet sniffer\<close>

record sniffer_plugin =
  sn_sniffer :: "(packet_sniffer \<times> activity) option"

definition new_CnetworkPacketSnifferPlugin :: sniffer_plugin where
  "new_CnetworkPacketSnifferPlugin = \<lparr> sn_sniffer = None \<rparr>"

text \<open>Opening the capture raises without the rights or the interface.\<close>

definition sniffer_vt_setConfig :: "plugin_env \<Rightarrow> (string \<times> string) list \<Rightarrow> (plugin_fault, sniffer_plugin, bool) op" where
  "sniffer_vt_setConfig E cfg p =
     (let s = sniffer_setConfig cfg in
      if pe_captures E (ps_interface s) (ps_filter s) then (Inr True, p\<lparr> sn_sniffer := Some (s, Idle) \<rparr>)
      else (Inl CaptureFails, p))"

definition sniffer_startPlugin :: "(plugin_fault, sniffer_plugin, bool) op" where
  "sniffer_startPlugin p =
     (case sn_sniffer p of
        None \<Rightarrow> (Inl NullObject, p)
      | Some (s, a) \<Rightarrow> (Inr True, p\<lparr> sn_sniffer := Some (s, activity_start a) \<rparr>))"

text \<open>The stop does not wait.\<close>

definition sniffer_stopPlugin :: "(plugin_fault, sniffer_plugin, bool) op" where
  "sniffer_stopPlugin p =
     (case sn_sniffer p of
        None \<Rightarrow> (Inl NullObject, p)
      | Some (s, a) \<Rightarrow> (Inr True, p\<lparr> sn_sniffer := Some (s, activity_stop a) \<rparr>))"

definition sniffer_vt :: "plugin_env \<Rightarrow> (plugin_fault, sniffer_plugin) plugin_vt" where
  "sniffer_vt E =
     \<lparr> vp_startPlugin = sniffer_startPlugin, vp_stopPlugin = sniffer_stopPlugin,
       vp_setConfig = sniffer_vt_setConfig E, vp_onMessageReceived = (\<lambda>_ _. returnE ()),
       vp_onConnectionEstablished = returnE (), vp_onConnectionLost = returnE () \<rparr>"

definition capture_opens :: "plugin_env \<Rightarrow> (string \<times> string) list \<Rightarrow> bool" where
  "capture_opens E cfg =
     pe_captures E (ps_interface (sniffer_setConfig cfg)) (ps_filter (sniffer_setConfig cfg))"

definition sniffer_is :: "activity \<Rightarrow> sniffer_plugin \<Rightarrow> bool" where
  "sniffer_is a p \<longleftrightarrow> (\<exists>s. sn_sniffer p = Some (s, a))"

interpretation sniffer: agent_plugin "sniffer_vt E" "capture_opens E" "\<lambda>_ _. True"
  "\<lambda>p. p = new_CnetworkPacketSnifferPlugin" "sniffer_is Idle" "sniffer_is Running" "sniffer_is Requested"
  for E
  by unfold_locales
    (auto simp: sniffer_vt_def sniffer_vt_setConfig_def capture_opens_def sniffer_startPlugin_def
      sniffer_stopPlugin_def sniffer_is_def activity_start_def activity_stop_def Let_def)

section \<open>Socket reader\<close>

definition reader_vt :: "plugin_env \<Rightarrow> (plugin_fault, socket_reader_plugin) plugin_vt" where
  "reader_vt E =
     \<lparr> vp_startPlugin = raising PortInUse (start_reader_plugin (pe_canBind E)),
       vp_stopPlugin = (\<lambda>p. apfst Inr (stop_reader_plugin p)),
       vp_setConfig = (\<lambda>cfg. raising (\<lambda>_. NotANumber)
          (set_ports (\<lambda>v. map_option unat (pe_parseUnsigned E v)) cfg)),
       vp_onMessageReceived = (\<lambda>_ _. returnE ()),
       vp_onConnectionEstablished = returnE (), vp_onConnectionLost = returnE () \<rparr>"

definition ports_ok :: "plugin_env \<Rightarrow> (string \<times> string) list \<Rightarrow> bool" where
  "ports_ok E cfg \<longleftrightarrow> pe_canBind E 1223 \<and>
     (\<forall>(k, v) \<in> set cfg. contains ''portNumber'' k \<longrightarrow>
        (\<exists>port. pe_parseUnsigned E v = Some port \<and> pe_canBind E (unat port)))"

lemma set_ports_ok:
  "\<forall>(k, v) \<in> set cfg. contains ''portNumber'' k \<longrightarrow>
      (\<exists>port. pe_parseUnsigned E v = Some port \<and> pe_canBind E (unat port)) \<Longrightarrow>
   list_all (pe_canBind E) (srp_ports p) \<Longrightarrow>
     \<exists>p'. set_ports (\<lambda>v. map_option unat (pe_parseUnsigned E v)) cfg p = (Inr True, p') \<and>
        srp_servers p' = srp_servers p \<and> list_all (pe_canBind E) (srp_ports p')"
proof (induction cfg arbitrary: p)
  case (Cons kv cfg)
  obtain k v where kv: "kv = (k, v)" by fastforce
  show ?case
  proof (cases "contains ''portNumber'' k")
    case True
    then obtain port where "pe_parseUnsigned E v = Some port" "pe_canBind E (unat port)"
      using Cons.prems(1) kv by auto
    then show ?thesis
      using Cons.IH [of "p\<lparr> srp_ports := srp_ports p @ [unat port] \<rparr>"] Cons.prems kv True by auto
  qed (use Cons.IH [of p] Cons.prems kv in auto)
qed simp

lemma start_servers_ok:
  "list_all can_bind ports \<Longrightarrow>
     start_servers can_bind ports p = (Inr True, p\<lparr> srp_servers := srp_servers p @ ports \<rparr>)"
  by (induction ports arbitrary: p) simp_all

interpretation reader: agent_plugin "reader_vt E" "ports_ok E" "\<lambda>_ _. True" "\<lambda>p. p = new_CSocketReaderPlugin"
  "\<lambda>p. srp_servers p = [] \<and> list_all (pe_canBind E) (srp_ports p)" "\<lambda>p. srp_servers p = srp_ports p"
  "\<lambda>p. srp_servers p = []"
  for E
proof unfold_locales
  fix s cfg
  assume "s = new_CSocketReaderPlugin" "ports_ok E cfg"
  then obtain s' where "set_ports (\<lambda>v. map_option unat (pe_parseUnsigned E v)) cfg s = (Inr True, s')"
      "srp_servers s' = []" "list_all (pe_canBind E) (srp_ports s')"
    using set_ports_ok [of cfg E s] by (auto simp: ports_ok_def new_CSocketReaderPlugin_def)
  then show "\<exists>b s'. vp_setConfig (reader_vt E) cfg s = (Inr b, s') \<and>
      srp_servers s' = [] \<and> list_all (pe_canBind E) (srp_ports s')"
    by (auto simp: reader_vt_def)
qed (auto simp: reader_vt_def start_reader_plugin_def start_servers_ok raising_def stop_reader_plugin_all)

section \<open>D-Bus command plugin\<close>

text \<open>A variant without a value makes the plugin read past the end of its list.\<close>

fun variants_filled :: "payload_item \<Rightarrow> bool" where
  "variants_filled (PayloadItem t i u d s subs) \<longleftrightarrow>
     (t = DBUS_MSG_PARAM_TYPE_VARIANT \<longrightarrow> subs \<noteq> []) \<and> (\<forall>x \<in> set subs. variants_filled x)"

lemma container_runs:
  "(\<And>q. \<exists>q'. body q = (Inr (), q')) \<Longrightarrow> \<exists>p'. in_container t cs body p = (Inr (), p')"
proof -
  assume body: "\<And>q. \<exists>q'. body q = (Inr (), q')"
  obtain q' where "body (dbus_append (OpenContainer t cs) p) = (Inr (), q')"
    using body by blast
  then show ?thesis
    by (simp add: in_container_def)
qed

lemma complex_runs:
  assumes "\<And>q. \<exists>q'. body q = (Inr (), q')" "item_type item = DBUS_MSG_PARAM_TYPE_VARIANT \<longrightarrow> composite_val item \<noteq> []"
  shows "\<exists>b p'. appendComplexDataTypetoDbus stale item body p = (Inr b, p')"
proof -
  have "\<exists>b p'. thenE (in_container t cs body) (returnE True) q = (Inr b, p')" for t cs q
    using container_runs [where body = body and t = t and cs = cs and p = q, OF assms(1)] by auto
  then show ?thesis
    using assms(2)
    by (auto simp: appendComplexDataTypetoDbus_def appendStructtoDbusMsg_def appendArraytoDbusMsg_def
        appendVarianttoDbusMsg_def appendDicttoDbusMsg_def thenE_def bindE_def
        split: list.split param_type.split)
qed

lemma primitive_runs: "\<exists>b q. appendPrimitiveDataTypetoDbus item p = (Inr b, q)"
  by (auto simp: appendPrimitiveDataTypetoDbus_def split: option.split)

lemma translation_runs:
  "variants_filled item \<Longrightarrow> \<forall>p. \<exists>q. prototoDbusTranslation stale item p = (Inr (), q)"
  "\<forall>x \<in> set items. variants_filled x \<Longrightarrow> \<forall>p. \<exists>q. translate_params stale items p = (Inr (), q)"
proof (induction stale item and stale items rule: prototoDbusTranslation_translate_params.induct)
  case (1 stale t i u d s subs)
  show ?case
  proof
    fix p
    let ?item = "PayloadItem t i u d s subs"
    obtain b q where b: "appendPrimitiveDataTypetoDbus ?item (modifySignature p) = (Inr b, q)"
      using primitive_runs by blast
    show "\<exists>q. prototoDbusTranslation stale ?item p = (Inr (), q)"
    proof (cases b)
      case True
      then show ?thesis
        using b by (simp add: prototoDbusTranslation.simps thenE_def bindE_def)
    next
      case False
      have "\<forall>x \<in> set subs. variants_filled x"
        using "1.prems" by simp
      then have "\<exists>q'. translate_params stale subs p' = (Inr (), q')" for p'
        using "1.IH" [OF False] by blast
      then obtain b' q' where "appendComplexDataTypetoDbus stale ?item (translate_params stale subs) q = (Inr b', q')"
        using complex_runs [where body = "translate_params stale subs" and item = ?item and stale = stale and p = q] "1.prems" by auto
      then show ?thesis
        using b False by (simp add: prototoDbusTranslation.simps thenE_def bindE_def)
    qed
  qed
next
  case (3 stale item items)
  show ?case
  proof
    fix p
    obtain q where q: "prototoDbusTranslation stale item p = (Inr (), q)"
      using "3.IH"(1) "3.prems" by auto
    obtain q' where "translate_params stale items q = (Inr (), q')"
      using "3.IH"(2) "3.prems" by auto
    then show "\<exists>q. translate_params stale (item # items) p = (Inr (), q)"
      using q by simp
  qed
qed simp

definition cmd_message_ok :: "plugin_env \<Rightarrow> int \<Rightarrow> byte list option \<Rightarrow> bool" where
  "cmd_message_ok E n buf \<longleftrightarrow> whole n buf \<and>
     (\<forall>m. pe_dbusCall E (payload_text buf) = Some m \<longrightarrow> (\<forall>x \<in> set (mc_params m). variants_filled x))"

definition cmd_vt_onMessageReceived ::
    "plugin_env \<Rightarrow> int \<Rightarrow> byte list option \<Rightarrow> (plugin_fault, cmd_plugin, unit) op" where
  "cmd_vt_onMessageReceived E payloadLength payloadBuffer =
     (case payloadBuffer of
        None \<Rightarrow> throwE NullPayload
      | Some bs \<Rightarrow>
          thenE (raising (\<lambda>_. EmptyVariant)
                  (DbusCmdCtrl.onMessageReceived (pe_stale E) (pe_accepts E) (pe_dbusCall E) payloadLength (bytes_text bs)))
            (returnE ()))"

definition cmd_vt :: "plugin_env \<Rightarrow> (plugin_fault, cmd_plugin) plugin_vt" where
  "cmd_vt E =
     \<lparr> vp_startPlugin = returnE True, vp_stopPlugin = returnE True, vp_setConfig = (\<lambda>_. returnE True),
       vp_onMessageReceived = cmd_vt_onMessageReceived E,
       vp_onConnectionEstablished = returnE (), vp_onConnectionLost = returnE () \<rparr>"

lemma cmd_received:
  assumes "cmd_message_ok E n buf"
  shows "\<exists>p'. cmd_vt_onMessageReceived E n buf p = (Inr (), p')"
proof -
  obtain bs where bs: "buf = Some bs" "n = int (length bs)"
    using assms by (auto simp: cmd_message_ok_def whole_def split: option.splits)
  have "memcpy_read (nat n) (bytes_text bs) = bytes_text bs"
    using bs by (simp add: bytes_text_def memcpy_read_map)
  moreover have "\<exists>x p'. sendDbusMessage (pe_stale E) (pe_accepts E) m p = (Inr x, p')"
    if m: "pe_dbusCall E (bytes_text bs) = Some m" for m
  proof -
    have "\<forall>x \<in> set (mc_params m). variants_filled x"
      using assms bs m by (simp add: cmd_message_ok_def payload_text_def)
    then obtain q where "translate_params (pe_stale E) (mc_params m)
        (p\<lparr> dbusmsg_signature := mc_signature m, cp_calls := [] \<rparr>) = (Inr (), q)"
      using translation_runs(2) by blast
    then show ?thesis
      by (simp add: sendDbusMessage_def Let_def)
  qed
  ultimately show ?thesis
    using bs by (cases "pe_dbusCall E (bytes_text bs)")
      (fastforce simp: cmd_vt_onMessageReceived_def DbusCmdCtrl.onMessageReceived_def raising_def)+
qed

interpretation cmd: agent_plugin "cmd_vt E" "\<lambda>_. True" "cmd_message_ok E" "\<lambda>_. True" "\<lambda>_. True" "\<lambda>_. True" "\<lambda>_. True"
  for E
  by unfold_locales (auto simp: cmd_vt_def cmd_received)

section \<open>D-Bus monitor\<close>

text \<open>The handler with its two activities. The stop announces messages, stops the consumer and waits for it,
  then closes the producer's connection and only requests its end.\<close>

record dbus_plugin =
  db_pool :: data_pool
  db_producer :: activity
  db_consumer :: activity

definition new_CDbusMonitorPlugin :: dbus_plugin where
  "new_CDbusMonitorPlugin = \<lparr> db_pool = new_CDataPool, db_producer = Idle, db_consumer = Idle \<rparr>"

definition handler_startPlugin :: "(plugin_fault, dbus_plugin, bool) op" where
  "handler_startPlugin p =
     (Inr True, p\<lparr> db_producer := activity_start (db_producer p), db_consumer := activity_start (db_consumer p) \<rparr>)"

definition handler_stopPlugin :: "plugin_env \<Rightarrow> (plugin_fault, dbus_plugin, bool) op" where
  "handler_stopPlugin E p =
     (let p1 = p\<lparr> db_pool := DbusMonitor.notifyMessagesAvailable (db_pool p),
                  db_consumer := activity_stop (db_consumer p) \<rparr> in
      case activity_wait (pe_wakes E) (db_consumer p1) of
        None \<Rightarrow> (Inl WaitBlocks, p1)
      | Some a \<Rightarrow> (Inr True, p1\<lparr> db_consumer := a, db_producer := activity_stop (db_producer p1) \<rparr>))"

definition dbus_vt :: "plugin_env \<Rightarrow> (plugin_fault, dbus_plugin) plugin_vt" where
  "dbus_vt E =
     \<lparr> vp_startPlugin = handler_startPlugin, vp_stopPlugin = handler_stopPlugin E,
       vp_setConfig = (\<lambda>cfg p. case DbusMonitor.setConfig cfg (db_pool p) of
          (b, pool) \<Rightarrow> (Inr b, p\<lparr> db_pool := pool \<rparr>)),
       vp_onMessageReceived = (\<lambda>_ _. returnE ()),
       vp_onConnectionEstablished = returnE (), vp_onConnectionLost = returnE () \<rparr>"

interpretation dbus: agent_plugin "dbus_vt E" "\<lambda>_. pe_wakes E" "\<lambda>_ _. True" "\<lambda>p. p = new_CDbusMonitorPlugin"
  "\<lambda>p. pe_wakes E \<and> db_producer p = Idle \<and> db_consumer p = Idle"
  "\<lambda>p. pe_wakes E \<and> db_producer p = Running \<and> db_consumer p = Running"
  "\<lambda>p. db_producer p = Requested \<and> db_consumer p = Idle"
  for E
  by unfold_locales
    (auto simp: dbus_vt_def handler_startPlugin_def handler_stopPlugin_def new_CDbusMonitorPlugin_def Let_def
      activity_start_def activity_stop_def activity_wait_def split: prod.split)

section \<open>The plugins of the agent\<close>

text \<open>The object behind a plugin pointer. A call of a virtual function goes to the plugin's own table.\<close>

datatype plugin_object =
    AppStatsPlugin stats_plugin
  | ResourcePlugin resource_plugin
  | WinResourcePlugin win_plugin
  | DltPlugin dlt_plugin
  | Log4jPlugin log4j_plugin
  | JsonPlugin json_plugin
  | SnifferPlugin sniffer_plugin
  | SocketReaderPlugin socket_reader_plugin
  | DbusCmdPlugin cmd_plugin
  | DbusMonitorPlugin dbus_plugin

fun object_call :: "plugin_env \<Rightarrow> plugin_call \<Rightarrow> (plugin_fault, plugin_object, unit) op" where
  "object_call E c (AppStatsPlugin p) = apsnd AppStatsPlugin (call_plugin (stats_vt E) c p)"
| "object_call E c (ResourcePlugin p) = apsnd ResourcePlugin (call_plugin (resource_vt E) c p)"
| "object_call E c (WinResourcePlugin p) = apsnd WinResourcePlugin (call_plugin (win_vt E) c p)"
| "object_call E c (DltPlugin p) = apsnd DltPlugin (call_plugin (dlt_vt E) c p)"
| "object_call E c (Log4jPlugin p) = apsnd Log4jPlugin (call_plugin log4j_vt c p)"
| "object_call E c (JsonPlugin p) = apsnd JsonPlugin (call_plugin json_vt c p)"
| "object_call E c (SnifferPlugin p) = apsnd SnifferPlugin (call_plugin (sniffer_vt E) c p)"
| "object_call E c (SocketReaderPlugin p) = apsnd SocketReaderPlugin (call_plugin (reader_vt E) c p)"
| "object_call E c (DbusCmdPlugin p) = apsnd DbusCmdPlugin (call_plugin (cmd_vt E) c p)"
| "object_call E c (DbusMonitorPlugin p) = apsnd DbusMonitorPlugin (call_plugin (dbus_vt E) c p)"

text \<open>The message type a plugin serves. The types of the JSON and the sniffer plugin are missing in the
  protocol definitions; they are parameters.\<close>

fun object_type :: "message_type \<Rightarrow> message_type \<Rightarrow> plugin_object \<Rightarrow> message_type" where
  "object_type jsonType snifferType (AppStatsPlugin _) = MSG_TYPE_LINUX_APP_STATS"
| "object_type jsonType snifferType (ResourcePlugin _) = MSG_TYPE_RESOURCE_MONITOR"
| "object_type jsonType snifferType (WinResourcePlugin _) = MSG_TYPE_RESOURCE_MONITOR"
| "object_type jsonType snifferType (DltPlugin _) = MSG_TYPE_GENIVI_DLT_MONITOR"
| "object_type jsonType snifferType (Log4jPlugin _) = MSG_TYPE_LOG4J"
| "object_type jsonType snifferType (JsonPlugin _) = jsonType"
| "object_type jsonType snifferType (SnifferPlugin _) = snifferType"
| "object_type jsonType snifferType (SocketReaderPlugin _) = MSG_TYPE_SOCKET_READER"
| "object_type jsonType snifferType (DbusCmdPlugin _) = MSG_TYPE_DBUSCMDCTRL"
| "object_type jsonType snifferType (DbusMonitorPlugin _) = MSG_TYPE_DBUS"

text \<open>What the factory functions return, the settings and messages a plugin copes with, and the state it
  should be left in: no thread of its own runs, except for those the stop only asks to end.\<close>

fun new_object :: "plugin_object \<Rightarrow> bool" where
  "new_object (AppStatsPlugin p) \<longleftrightarrow> p = new_CLinuxAppStatsPlugin"
| "new_object (ResourcePlugin p) \<longleftrightarrow> p = new_ResourceMonitorPlugin"
| "new_object (WinResourcePlugin p) \<longleftrightarrow> p = new_win_plugin"
| "new_object (DltPlugin p) \<longleftrightarrow> p = new_DltMonitorPlugin"
| "new_object (Log4jPlugin p) \<longleftrightarrow> p = []"
| "new_object (JsonPlugin p) \<longleftrightarrow> p = new_CjsonapiPlugin"
| "new_object (SnifferPlugin p) \<longleftrightarrow> p = new_CnetworkPacketSnifferPlugin"
| "new_object (SocketReaderPlugin p) \<longleftrightarrow> p = new_CSocketReaderPlugin"
| "new_object (DbusCmdPlugin p) \<longleftrightarrow> True"
| "new_object (DbusMonitorPlugin p) \<longleftrightarrow> p = new_CDbusMonitorPlugin"

fun settings_accepted :: "plugin_env \<Rightarrow> plugin_object \<Rightarrow> (string \<times> string) list \<Rightarrow> bool" where
  "settings_accepted E (AppStatsPlugin _) cfg \<longleftrightarrow> stats_rate E cfg \<noteq> 0"
| "settings_accepted E (ResourcePlugin _) cfg \<longleftrightarrow> resource_rate E cfg \<noteq> 0"
| "settings_accepted E (WinResourcePlugin _) cfg \<longleftrightarrow> numbers_ok ''samplingRate'' (pe_parseUnsigned E) cfg"
| "settings_accepted E (DltPlugin _) cfg \<longleftrightarrow> pe_cancels E"
| "settings_accepted E (SnifferPlugin _) cfg \<longleftrightarrow> capture_opens E cfg"
| "settings_accepted E (SocketReaderPlugin _) cfg \<longleftrightarrow> ports_ok E cfg"
| "settings_accepted E (DbusMonitorPlugin _) cfg \<longleftrightarrow> pe_wakes E"
| "settings_accepted E _ cfg \<longleftrightarrow> True"

fun message_accepted :: "plugin_env \<Rightarrow> plugin_object \<Rightarrow> int \<Rightarrow> byte list option \<Rightarrow> bool" where
  "message_accepted E (AppStatsPlugin _) n buf \<longleftrightarrow> stats_message_ok E n buf"
| "message_accepted E (DbusCmdPlugin _) n buf \<longleftrightarrow> cmd_message_ok E n buf"
| "message_accepted E _ n buf \<longleftrightarrow> True"

fun object_ended :: "plugin_object \<Rightarrow> bool" where
  "object_ended (AppStatsPlugin p) \<longleftrightarrow> sp_collector p = None \<and> \<not> sp_running p"
| "object_ended (ResourcePlugin p) \<longleftrightarrow> resource_state Idle p"
| "object_ended (WinResourcePlugin p) \<longleftrightarrow> win_timer_is (\<lambda>t. t = DeletedTimer) p"
| "object_ended (DltPlugin p) \<longleftrightarrow> dlt_thread_is CancelledThread p"
| "object_ended (Log4jPlugin p) \<longleftrightarrow> readers_are Idle p"
| "object_ended (JsonPlugin p) \<longleftrightarrow> js_activity p = Idle \<and> \<not> js_pipe p"
| "object_ended (SnifferPlugin p) \<longleftrightarrow> sniffer_is Requested p"
| "object_ended (SocketReaderPlugin p) \<longleftrightarrow> srp_servers p = []"
| "object_ended (DbusCmdPlugin p) \<longleftrightarrow> True"
| "object_ended (DbusMonitorPlugin p) \<longleftrightarrow> db_producer p = Requested \<and> db_consumer p = Idle"

definition object_calls :: "plugin_env \<Rightarrow> plugin_call list \<Rightarrow> (plugin_fault, plugin_object, unit) op" where
  "object_calls E cs = seqE (List.map (object_call E) cs)"

lemma object_calls_to:
  assumes "\<And>c p. object_call E c (C p) = apsnd C (call_plugin vt c p)"
  shows "object_calls E cs (C p) = apsnd C (run_calls vt cs p)"
proof (induction cs arbitrary: p)
  case (Cons c cs)
  then show ?case
    using assms [of c p]
    by (cases "call_plugin vt c p")
      (auto simp: object_calls_def run_calls_def thenE_def bindE_def split: sum.split)
qed (simp add: object_calls_def run_calls_def)

lemma message_accepted_eta [simp]:
  "message_accepted E (AppStatsPlugin p1) = stats_message_ok E"
  "message_accepted E (ResourcePlugin p2) = (\<lambda>_ _. True)"
  "message_accepted E (WinResourcePlugin p3) = (\<lambda>_ _. True)"
  "message_accepted E (DltPlugin p4) = (\<lambda>_ _. True)"
  "message_accepted E (Log4jPlugin p5) = (\<lambda>_ _. True)"
  "message_accepted E (JsonPlugin p6) = (\<lambda>_ _. True)"
  "message_accepted E (SnifferPlugin p7) = (\<lambda>_ _. True)"
  "message_accepted E (SocketReaderPlugin p8) = (\<lambda>_ _. True)"
  "message_accepted E (DbusCmdPlugin p9) = cmd_message_ok E"
  "message_accepted E (DbusMonitorPlugin p10) = (\<lambda>_ _. True)"
  by (intro ext, simp)+

lemma object_survives:
  assumes "\<And>c p. object_call E c (C p) = apsnd C (call_plugin vt c p)"
    and "\<exists>p'. run_calls vt cs p = (Inr (), p') \<and> object_ended (C p')"
  shows "\<exists>ob'. object_calls E cs (C p) = (Inr (), ob') \<and> object_ended ob'"
  using assms(2) object_calls_to [of E C vt cs p, OF assms(1)] by auto

lemma object_life_cycle:
  assumes "new_object ob" "settings_accepted E ob cfg" "list_all (in_operation (message_accepted E ob)) cs"
  shows "\<exists>ob'. object_calls E (CallSetConfig cfg # CallStart # cs @ [CallStop]) ob = (Inr (), ob') \<and> object_ended ob'"
proof (cases ob)
  case (AppStatsPlugin p)
  show ?thesis
    using assms stats.life_cycle [where E = E and s = p and cfg = cfg and cs = cs] unfolding AppStatsPlugin
    by (intro object_survives [where vt = "stats_vt E"]) simp_all
next
  case (ResourcePlugin p)
  show ?thesis
    using assms resource.life_cycle [where E = E and s = p and cfg = cfg and cs = cs] unfolding ResourcePlugin
    by (intro object_survives [where vt = "resource_vt E"]) simp_all
next
  case (WinResourcePlugin p)
  show ?thesis
    using assms win.life_cycle [where E = E and s = p and cfg = cfg and cs = cs] unfolding WinResourcePlugin
    by (intro object_survives [where vt = "win_vt E"]) simp_all
next
  case (DltPlugin p)
  show ?thesis
    using assms dlt.life_cycle [where E = E and s = p and cfg = cfg and cs = cs] unfolding DltPlugin
    by (intro object_survives [where vt = "dlt_vt E"]) simp_all
next
  case (Log4jPlugin p)
  show ?thesis
    using assms log4j.life_cycle [where s = p and cfg = cfg and cs = cs] unfolding Log4jPlugin
    by (intro object_survives [where vt = "log4j_vt"]) simp_all
next
  case (JsonPlugin p)
  show ?thesis
    using assms json.life_cycle [where s = p and cfg = cfg and cs = cs] unfolding JsonPlugin
    by (intro object_survives [where vt = "json_vt"]) simp_all
next
  case (SnifferPlugin p)
  show ?thesis
    using assms sniffer.life_cycle [where E = E and s = p and cfg = cfg and cs = cs] unfolding SnifferPlugin
    by (intro object_survives [where vt = "sniffer_vt E"]) simp_all
next
  case (SocketReaderPlugin p)
  show ?thesis
    using assms reader.life_cycle [where E = E and s = p and cfg = cfg and cs = cs] unfolding SocketReaderPlugin
    by (intro object_survives [where vt = "reader_vt E"]) simp_all
next
  case (DbusCmdPlugin p)
  show ?thesis
    using assms cmd.life_cycle [where E = E and s = p and cfg = cfg and cs = cs] unfolding DbusCmdPlugin
    by (intro object_survives [where vt = "cmd_vt E"]) simp_all
next
  case (DbusMonitorPlugin p)
  show ?thesis
    using assms dbus.life_cycle [where E = E and s = p and cfg = cfg and cs = cs] unfolding DbusMonitorPlugin
    by (intro object_survives [where vt = "dbus_vt E"]) simp_all
qed

section \<open>The calls of a session on the plugins\<close>

text \<open>The plugins by their addresses. A fault names the plugin.\<close>

type_synonym plugins = "nat \<Rightarrow> plugin_object"

definition plugin_event :: "plugin_env \<Rightarrow> proxy_event \<Rightarrow> (nat \<times> plugin_fault, plugins, unit) op" where
  "plugin_event E ev h =
     (case event_call ev of
        None \<Rightarrow> (Inr (), h)
      | Some (i, c) \<Rightarrow>
          (case object_call E c (h i) of
             (Inl f, ob) \<Rightarrow> (Inl (i, f), h(i := ob))
           | (Inr _, ob) \<Rightarrow> (Inr (), h(i := ob))))"

definition plugin_events :: "plugin_env \<Rightarrow> proxy_event list \<Rightarrow> (nat \<times> plugin_fault, plugins, unit) op" where
  "plugin_events E evs = seqE (List.map (plugin_event E) evs)"

text \<open>Plugins share nothing: the trace runs without a fault when every plugin copes with the calls to it.\<close>

lemma plugin_events_project:
  assumes "\<And>i. \<exists>ob. object_calls E (calls_to i evs) (h i) = (Inr (), ob)"
  shows "\<exists>h'. plugin_events E evs h = (Inr (), h') \<and>
     (\<forall>i. object_calls E (calls_to i evs) (h i) = (Inr (), h' i))"
  using assms
proof (induction evs arbitrary: h)
  case (Cons ev evs)
  show ?case
  proof (cases "event_call ev")
    case None
    then have e: "plugin_events E (ev # evs) h = plugin_events E evs h"
      by (simp add: plugin_events_def plugin_event_def)
    have "\<exists>ob. object_calls E (calls_to i evs) (h i) = (Inr (), ob)" for i
      using Cons.prems [of i] None by simp
    then show ?thesis
      using Cons.IH [of h] None by (simp add: e)
  next
    case (Some jc)
    obtain j c where jc: "event_call ev = Some (j, c)"
      using Some by (cases jc) auto
    obtain r ob where call: "object_call E c (h j) = (r, ob)"
      by fastforce
    have r: "r = Inr ()"
      using Cons.prems [of j] jc call by (cases r) (auto simp: object_calls_def)
    let ?h = "h(j := ob)"
    have eq: "object_calls E (calls_to i (ev # evs)) (h i) = object_calls E (calls_to i evs) (?h i)" for i
      using jc call r by (simp add: object_calls_def)
    have "\<exists>ob. object_calls E (calls_to i evs) (?h i) = (Inr (), ob)" for i
      using Cons.prems [of i] eq by simp
    then obtain h' where h': "plugin_events E evs ?h = (Inr (), h')"
        "\<forall>i. object_calls E (calls_to i evs) (?h i) = (Inr (), h' i)"
      using Cons.IH [of ?h] by blast
    have "plugin_events E (ev # evs) h = (Inr (), h')"
      using h'(1) jc call r by (simp add: plugin_events_def plugin_event_def)
    then show ?thesis
      using h'(2) eq by auto
  qed
qed (simp add: plugin_events_def object_calls_def)

lemma calls_in_operation:
  "list_all (allowed (\<lambda>i. in_operation (ok i)) ptrs) evs \<Longrightarrow> list_all (in_operation (ok i)) (calls_to i evs)"
  by (induction evs) (auto simp: allowed_def split: option.splits)

lemma calls_to_absent:
  "list_all (allowed ok ptrs) evs \<Longrightarrow> i \<notin> set ptrs \<Longrightarrow> calls_to i evs = []"
  by (induction evs) (auto simp: allowed_def split: option.splits)

definition serves_of :: "message_type \<Rightarrow> message_type \<Rightarrow> plugins \<Rightarrow> nat \<Rightarrow> message_type" where
  "serves_of jsonType snifferType h i = object_type jsonType snifferType (h i)"

text \<open>What one plugin gets in a session, whether it was loaded or not.\<close>

lemma object_session:
  fixes rec :: "'s option" and vt :: "('e, 's) recorder_vt"
  assumes init: "initializePluginProvider L cf (new_PluginProxy rec) = (Inr () :: 'e proxy_error + unit, p1)"
    and session: "p2 = proxy_session vt cf (serves_of jsonType snifferType h) ins p1"
    and deinit: "deinitializePluginProvider p2 = (Inr () :: 'e proxy_error + unit, p3)"
    and loaded: "\<forall>(i, cfg) \<in> set (px_loadedPlugins p1).
      new_object (h i) \<and> settings_accepted E (h i) (pc_properties cfg)"
    and messages: "\<forall>m i. FromHost m \<in> set ins \<longrightarrow> serves_of jsonType snifferType h i = getMessageType m \<longrightarrow>
      message_accepted E (h i) (getMessageLength m) (getPayloadData m)"
  shows "\<exists>ob. object_calls E (calls_to i (px_trace p3)) (h i) = (Inr (), ob) \<and>
     (if i \<in> set (plugin_ptrs p1) then object_ended ob else ob = h i)"
proof -
  let ?ok = "\<lambda>i. in_operation (message_accepted E (h i))"
  have "quiet ?ok p1 p2"
    unfolding session using messages by (intro session_quiet) auto
  then obtain evs where evs: "list_all (allowed ?ok (plugin_ptrs p1)) evs"
    and calls: "\<And>i. calls_to i (px_trace p3) =
       (case map_of (px_loadedPlugins p1) i of
          None \<Rightarrow> calls_to i evs
        | Some cfg \<Rightarrow> CallSetConfig (pc_properties cfg) # CallStart # calls_to i evs @ [CallStop])"
    using calls_of_run [OF init _ deinit, of ?ok] by blast
  have absent: "object_calls E (calls_to i (px_trace p3)) (h i) = (Inr (), h i)"
    if "i \<notin> set (plugin_ptrs p1)"
  proof -
    have "map_of (px_loadedPlugins p1) i = None"
      using that by (simp add: plugin_ptrs_def map_of_eq_None_iff)
    then show ?thesis
      using calls_to_absent [OF evs that] by (simp add: calls object_calls_def)
  qed
  have present: "\<exists>ob. object_calls E (calls_to i (px_trace p3)) (h i) = (Inr (), ob) \<and> object_ended ob"
    if i: "i \<in> set (plugin_ptrs p1)"
  proof -
    obtain cfg where cfg: "map_of (px_loadedPlugins p1) i = Some cfg"
      using i by (auto simp: plugin_ptrs_def dest: weak_map_of_SomeI)
    then have "new_object (h i) \<and> settings_accepted E (h i) (pc_properties cfg)"
      using loaded map_of_SomeD by fastforce
    then show ?thesis
      using object_life_cycle [OF _ _ calls_in_operation [OF evs]] cfg by (simp add: calls)
  qed
  show ?thesis
    using absent present by (cases "i \<in> set (plugin_ptrs p1)") simp_all
qed


definition sample_env :: plugin_env where
  "sample_env =
     \<lparr> pe_parseUnsigned = (\<lambda>s. if s = ''1000'' then Some 1000 else None),
       pe_stats = \<lparr> se_slots = replicate 30 0, se_socket = 3, se_setsockopt = 0, se_bind = 0, se_listen = 0, se_reads = [] \<rparr>,
       pe_processorCount = 4, pe_fileBuffer = [], pe_canBind = (\<lambda>_. True), pe_captures = (\<lambda>_ _. True),
       pe_cancels = True, pe_wakes = True,
       pe_statsConfig = (\<lambda>_. [(APP_STATISTICS_TRIGGER, 0), (APP_STATISTICS_SET_RESOLUTION, 500)]),
       pe_dbusCall = (\<lambda>_. None), pe_stale = id, pe_accepts = (\<lambda>_. True) \<rparr>"

definition sample_libs :: "string \<Rightarrow> plugin_library" where
  "sample_libs path = \<lparr> lib_throws = False, lib_isLoaded = True, lib_hasSymbol = True,
                         lib_symbolNonNull = True, lib_instance = Some (length path) \<rparr>"

definition sample_plugins_config :: config_provider where
  "sample_plugins_config = new_ConfigProvider\<lparr> cf_pluginList :=
     [(new_PluginConfigItem ''stats'' ''/lib/a.so'')\<lparr> pc_properties := [(''samplingRate'', ''1000'')] \<rparr>,
      new_PluginConfigItem ''json'' ''/lib/js.so''] \<rparr>"

definition sample_plugins :: plugins where
  "sample_plugins i = (if i = 9 then AppStatsPlugin new_CLinuxAppStatsPlugin else JsonPlugin new_CjsonapiPlugin)"

definition sample_started :: "unit plugin_proxy" where
  "sample_started = (new_PluginProxy None)\<lparr> px_sender := True, px_loadedPlugins :=
       [(9, (new_PluginConfigItem ''stats'' ''/lib/a.so'')\<lparr> pc_properties := [(''samplingRate'', ''1000'')] \<rparr>),
        (10, new_PluginConfigItem ''json'' ''/lib/js.so'')],
     px_trace := [SetConfig 9 [(''samplingRate'', ''1000'')], SetConfig 10 [], StartPlugin 9, StartPlugin 10],
     px_isPluginStarted := True \<rparr>"

definition sample_recorder :: "(unit, unit) recorder_vt" where
  "sample_recorder = \<lparr> vt_recordMessage = (\<lambda>_ _. returnE True), vt_sendBufferedData = returnE [],
                       vt_resumeBuffering = returnE () \<rparr>"

lemma sample_started_result:
  "initializePluginProvider sample_libs sample_plugins_config (new_PluginProxy None) =
     (Inr () :: unit proxy_error + unit, sample_started)"
  by (simp add: initializePluginProvider_def new_PluginProxy_def thenE_def bindE_def loadPlugins_result
      setPluginsConfig_def startPlugins_def plugin_ptrs_def plugin_instance_def createPluginInstance_def
      sample_libs_def sample_plugins_config_def sample_started_def Plugins_def new_PluginConfigItem_def)


section \<open>Without a sampling rate\<close>

text \<open>The statistics plugin without a sampling rate in its settings, and the resource monitor with a rate of
  zero, block the agent's shutdown in \<^verbatim>\<open>stopPlugins\<close>: the plugins behind them in the map are never stopped.\<close>

lemma stats_rate_zero:
  assumes "stats_rate E cfg = 0"
    and "fst (start_collector (pe_stats E) c) = True"
    and "c = new_CThreadStatsCollector (fst (stats_settings (pe_parseUnsigned E) cfg ([], 0, False))) 0
               (se_slots (pe_stats E)) (replicate (BUF_SIZE + 1) CHR 0x00) (se_reads (pe_stats E))"
  shows "\<exists>p. run_calls (stats_vt E) [CallSetConfig cfg, CallStart, CallStop] new_CLinuxAppStatsPlugin =
     (Inl WaitBlocks, p)"
proof -
  obtain q ok where st: "stats_settings (pe_parseUnsigned E) cfg ([], 0, False) = (q, 0, ok)"
    using assms(1) unfolding stats_rate_def by (metis fst_conv snd_conv prod.exhaust)
  obtain c' where sc: "start_collector (pe_stats E) c = (True, c')"
    using assms(2) by (metis prod.collapse)
  have "tc_samplingRate c' = 0"
    using sc assms(3) by (auto simp: start_collector_def split: prod.splits)
  then show ?thesis
    using st sc assms(3)
    by (simp add: run_calls_def stats_vt_def stats_setConfig_def new_collector_def stats_startPlugin_def
        stats_stopPlugin_def new_CLinuxAppStatsPlugin_def raising_def thenE_def bindE_def returnE_def stats_fault_def)
qed

end
