(* ===== verification/DbusStart.thy ===== *)
theory DbusStart
  imports DbusMonitor
begin

text \<open>
  The start of the D-Bus monitor as two threads (\<^verbatim>\<open>CDBusProducer::dbusMonitorTask\<close> of \<^verbatim>\<open>dbus_producer.cpp\<close>, the
  beginning of \<^verbatim>\<open>CDBusConsumer::dbusConsumerLoop\<close> of \<^verbatim>\<open>dbus_consumer.cpp\<close>): the producer connects, the
  consumer fills the pool, the producer installs its rules and its filter and from then on receives
  messages. They meet in two events of the data pool. Meanwhile names change hands on the bus.
\<close>

section \<open>Steps\<close>

datatype producer_pc = Connecting | AwaitPool | AddingRules | AddingFilter | Dispatching | ProducerLeft

text \<open>The argument says whether the pool had been filled.\<close>

datatype starter_pc = AwaitConnection | CheckConnection | Populating | Announcing | Consuming | ConsumerLeft bool

text \<open>\<open>sa_connEvent\<close> and \<open>sa_popEvent\<close> are the auto-reset events \<^verbatim>\<open>mWaitConnection\<close> and \<^verbatim>\<open>mWaitPopulateDP\<close>;
  \<open>sa_own\<close> is the daemon's map of the owners.\<close>

record start_state =
  sa_pool :: data_pool
  sa_connection :: bool
  sa_connEvent :: bool
  sa_popEvent :: bool
  sa_producer :: producer_pc
  sa_consumer :: starter_pc
  sa_own :: ownership

definition start_begin :: "ownership \<Rightarrow> start_state" where
  "start_begin own = \<lparr> sa_pool = new_CDataPool, sa_connection = False, sa_connEvent = False,
     sa_popEvent = False, sa_producer = Connecting, sa_consumer = AwaitConnection, sa_own = own \<rparr>"

definition new_owner :: "string \<Rightarrow> string \<Rightarrow> ownership \<Rightarrow> ownership" where
  "new_owner name new own = own(name := (if new = [] then None else Some new))"

text \<open>The filling reads the owners the daemon has at that time. A signal of the daemon reaches the monitor once
  its rules and its filter are installed.\<close>

inductive start_step :: "start_state \<Rightarrow> start_state \<Rightarrow> bool" where
  connect: "sa_producer s = Connecting \<Longrightarrow>
    start_step s (s\<lparr> sa_connection := True, sa_connEvent := True, sa_producer := AwaitPool \<rparr>)"
| connect_fails: "sa_producer s = Connecting \<Longrightarrow>
    start_step s (s\<lparr> sa_connEvent := True, sa_producer := ProducerLeft \<rparr>)"
| pool_ready: "sa_producer s = AwaitPool \<Longrightarrow> sa_popEvent s \<Longrightarrow>
    start_step s (s\<lparr> sa_popEvent := False, sa_producer := AddingRules \<rparr>)"
| rules: "sa_producer s = AddingRules \<Longrightarrow> dbusMonitorAddMatchRule takes version = Inr (given, ok) \<Longrightarrow>
    start_step s (s\<lparr> sa_producer := (if ok then AddingFilter else ProducerLeft) \<rparr>)"
| rules_raise: "sa_producer s = AddingRules \<Longrightarrow> dbusMonitorAddMatchRule takes version = Inl e \<Longrightarrow>
    start_step s (s\<lparr> sa_producer := ProducerLeft \<rparr>)"
| add_filter: "sa_producer s = AddingFilter \<Longrightarrow>
    start_step s (s\<lparr> sa_producer := (if added then Dispatching else ProducerLeft) \<rparr>)"
| dispatch: "sa_producer s = Dispatching \<Longrightarrow>
    start_step s (s\<lparr> sa_pool := handleDbusMessage (Some m) (sa_pool s) \<rparr>)"
| own_change: "start_step s
    (s\<lparr> sa_own := new_owner name new (sa_own s),
        sa_pool := (if sa_producer s = Dispatching
                    then handleDbusMessage (Some (owner_signal name (owner_text (sa_own s) name) new)) (sa_pool s)
                    else sa_pool s) \<rparr>)"
| see_connection: "sa_consumer s = AwaitConnection \<Longrightarrow> sa_connEvent s \<Longrightarrow>
    start_step s (s\<lparr> sa_connEvent := False, sa_consumer := CheckConnection \<rparr>)"
| check: "sa_consumer s = CheckConnection \<Longrightarrow>
    start_step s (s\<lparr> sa_consumer := (if sa_connection s then Populating else ConsumerLeft False) \<rparr>)"
| populate: "sa_consumer s = Populating \<Longrightarrow> truthful bus (sa_own s) \<Longrightarrow>
    populateDataPool bus (sa_pool s) = (Inr b, p') \<Longrightarrow>
    start_step s (s\<lparr> sa_pool := p', sa_consumer := Announcing \<rparr>)"
| announce: "sa_consumer s = Announcing \<Longrightarrow>
    start_step s (s\<lparr> sa_popEvent := True, sa_consumer := Consuming \<rparr>)"
| consume: "sa_consumer s = Consuming \<Longrightarrow> dp_available (sa_pool s) \<Longrightarrow>
    consumer_pass bus (sa_pool s) = (Inr r, p') \<Longrightarrow> start_step s (s\<lparr> sa_pool := p' \<rparr>)"
| consume_raises: "sa_consumer s = Consuming \<Longrightarrow> dp_available (sa_pool s) \<Longrightarrow>
    consumer_pass bus (sa_pool s) = (Inl e, p') \<Longrightarrow>
    start_step s (s\<lparr> sa_pool := p', sa_consumer := ConsumerLeft True \<rparr>)"

inductive_cases start_stepE: "start_step s s'"

section \<open>The events order the threads\<close>

definition filled :: "starter_pc \<Rightarrow> bool" where
  "filled c \<longleftrightarrow> c \<in> {Announcing, Consuming, ConsumerLeft True}"

definition receiving :: "producer_pc \<Rightarrow> bool" where
  "receiving p \<longleftrightarrow> p \<in> {AddingRules, AddingFilter, Dispatching}"

definition start_inv :: "start_state \<Rightarrow> bool" where
  "start_inv s \<longleftrightarrow>
     (sa_consumer s = AwaitConnection \<longrightarrow> sa_producer s = Connecting \<or> sa_connEvent s) \<and>
     (sa_producer s = Connecting \<longrightarrow> sa_consumer s = AwaitConnection \<and> \<not> sa_connection s \<and> \<not> sa_connEvent s) \<and>
     (sa_producer s = AwaitPool \<longrightarrow> sa_connection s \<and>
        (sa_popEvent s \<or> sa_consumer s \<in> {AwaitConnection, CheckConnection, Populating, Announcing})) \<and>
     (sa_popEvent s \<or> receiving (sa_producer s) \<longrightarrow> sa_consumer s \<in> {Consuming, ConsumerLeft True}) \<and>
     (\<not> filled (sa_consumer s) \<longrightarrow> sa_pool s = new_CDataPool)"
lemma start_inv_begin: "start_inv (start_begin own)"
  by (simp add: start_inv_def start_begin_def receiving_def)

lemma start_inv_step: "start_inv s \<Longrightarrow> start_step s s' \<Longrightarrow> start_inv s'"
  by (erule start_stepE) (auto simp: start_inv_def filled_def receiving_def split: if_splits)

lemma start_inv_reachable: "start_step\<^sup>*\<^sup>* (start_begin own) s \<Longrightarrow> start_inv s"
  by (induction rule: rtranclp_induct) (auto intro: start_inv_begin start_inv_step)

text \<open>A thread that is not yet receiving, nor has given up, can always go on, or the other one can.\<close>

definition under_way :: "start_state \<Rightarrow> start_state \<Rightarrow> bool" where
  "under_way s s' \<longleftrightarrow> sa_producer s' \<noteq> sa_producer s \<or> sa_consumer s' \<noteq> sa_consumer s"

lemma producer_progress:
  assumes "sa_producer s \<in> {Connecting, AddingRules, AddingFilter} \<or> sa_producer s = AwaitPool \<and> sa_popEvent s"
  shows "\<exists>s'. start_step s s' \<and> under_way s s'"
proof -
  consider "sa_producer s = Connecting" | "sa_producer s = AddingRules" | "sa_producer s = AddingFilter"
    | "sa_producer s = AwaitPool" "sa_popEvent s"
    using assms by blast
  then show ?thesis
  proof cases
    case 1
    then show ?thesis
      using start_step.connect [of s] by (intro exI conjI) (auto simp: under_way_def)
  next
    case 2
    have "dbusMonitorAddMatchRule (\<lambda>_. False) (Inl PocoException) = Inl PocoException"
      by (simp add: dbusMonitorAddMatchRule_def and_then_def)
    then show ?thesis
      using start_step.rules_raise [OF 2] 2 by (intro exI conjI) (auto simp: under_way_def)
  next
    case 3
    then show ?thesis
      using start_step.add_filter [of s True] by (intro exI conjI) (auto simp: under_way_def)
  next
    case 4
    then show ?thesis
      using start_step.pool_ready [of s] by (intro exI conjI) (auto simp: under_way_def)
  qed
qed

lemma consumer_progress:
  assumes "sa_consumer s \<in> {CheckConnection, Announcing} \<or> sa_consumer s = AwaitConnection \<and> sa_connEvent s \<or>
      sa_consumer s = Populating \<and> sa_pool s = new_CDataPool"
    and "\<And>own. \<exists>bus. truthful bus own"
  shows "\<exists>s'. start_step s s' \<and> under_way s s'"
proof -
  consider "sa_consumer s = CheckConnection" | "sa_consumer s = Announcing"
    | "sa_consumer s = AwaitConnection" "sa_connEvent s" | "sa_consumer s = Populating" "sa_pool s = new_CDataPool"
    using assms(1) by blast
  then show ?thesis
  proof cases
    case 1
    then show ?thesis
      using start_step.check [of s] by (intro exI conjI) (auto simp: under_way_def split: if_splits)
  next
    case 2
    then show ?thesis
      using start_step.announce [of s] by (intro exI conjI) (auto simp: under_way_def)
  next
    case 3
    then show ?thesis
      using start_step.see_connection [of s] by (intro exI conjI) (auto simp: under_way_def)
  next
    case 4
    obtain bus where bus: "truthful bus (sa_own s)"
      using assms(2) by blast
    have "names_sound (sa_own s) new_CDataPool"
      by (simp add: names_sound_def new_CDataPool_def)
    then obtain p' where "populateDataPool bus (sa_pool s) = (Inr False, p')"
      using populate_ok [OF pool_ok_new _ bus] 4(2) by auto
    then show ?thesis
      using start_step.populate [OF 4(1) bus] 4(1) by (intro exI conjI) (auto simp: under_way_def)
  qed
qed

lemma truthful_exists: "\<exists>bus. truthful bus own"
  by (intro exI [of _ "\<lambda>_ _. None"]) (simp add: truthful_def dbusListNames_def)

lemma start_progress:
  assumes "start_inv s" "sa_producer s \<notin> {Dispatching, ProducerLeft}"
  shows "\<exists>s'. start_step s s' \<and> under_way s s'"
proof (cases "sa_producer s \<in> {Connecting, AddingRules, AddingFilter} \<or> sa_producer s = AwaitPool \<and> sa_popEvent s")
  case True
  then show ?thesis by (rule producer_progress)
next
  case False
  then have p: "sa_producer s = AwaitPool" "\<not> sa_popEvent s"
    using assms(2) by (cases "sa_producer s"; auto)+
  then have "sa_consumer s \<in> {CheckConnection, Announcing} \<or> sa_consumer s = AwaitConnection \<and> sa_connEvent s \<or>
      sa_consumer s = Populating \<and> sa_pool s = new_CDataPool"
    using assms(1) by (auto simp: start_inv_def filled_def)
  then show ?thesis
    using consumer_progress truthful_exists by blast
qed

section \<open>Properties\<close>



text \<open>A change between the filling and the filter.\<close>

definition one_name_bus :: "string \<Rightarrow> string \<Rightarrow> bus" where
  "one_name_bus n c method arg =
     (if method = ''ListNames'' then Some [DArray ''s'' [DString n]]
      else if method = ''GetNameOwner'' then Some [DString c] else None)"

definition one_name_pool :: "string \<Rightarrow> string \<Rightarrow> data_pool" where
  "one_name_pool n c = snd (populateDataPool (one_name_bus n c) new_CDataPool)"

lemma one_name_populated:
  assumes "n \<noteq> []" "hd n \<noteq> CHR '':''"
  shows "populateDataPool (one_name_bus n c) new_CDataPool = (Inr False, one_name_pool n c) \<and>
     dp_names (one_name_pool n c) = [(n, c)] \<and> dp_queue (one_name_pool n c) = []"
  using assms
  by (cases n)
    (simp_all add: one_name_pool_def populateDataPool_def dbusListNames_def parseListNamesReply_def
      one_name_bus_def insertService_def dbusGetNameOwner_def isNotUniqueConnID_def new_CDataPool_def
      thenE_def bindE_def Let_def)

lemma one_name_truthful:
  "n \<noteq> [] \<Longrightarrow> hd n \<noteq> CHR '':'' \<Longrightarrow> c \<noteq> [] \<Longrightarrow> own n = Some c \<Longrightarrow> truthful (one_name_bus n c) own"
  by (simp add: truthful_def dbusListNames_def parseListNamesReply_def one_name_bus_def)

lemma missed_reachable:
  assumes "n \<noteq> []" "hd n \<noteq> CHR '':''" "c \<noteq> []" "own n = Some c" "c' \<noteq> []"
  shows "start_step\<^sup>*\<^sup>* (start_begin own)
     \<lparr> sa_pool = one_name_pool n c, sa_connection = True, sa_connEvent = False, sa_popEvent = False,
       sa_producer = Dispatching, sa_consumer = Consuming, sa_own = own(n \<mapsto> c') \<rparr>"
proof -
  let ?p = "one_name_pool n c"
  let ?s = "\<lambda>pool ev pev pr co ow. \<lparr> sa_pool = pool, sa_connection = True, sa_connEvent = ev, sa_popEvent = pev,
       sa_producer = pr, sa_consumer = co, sa_own = ow \<rparr>"
  let ?s1 = "?s new_CDataPool True False AwaitPool AwaitConnection own"
  let ?s2 = "?s new_CDataPool False False AwaitPool CheckConnection own"
  let ?s3 = "?s new_CDataPool False False AwaitPool Populating own"
  let ?s4 = "?s ?p False False AwaitPool Announcing own"
  let ?s5 = "?s ?p False False AwaitPool Announcing (own(n \<mapsto> c'))"
  let ?s6 = "?s ?p False True AwaitPool Consuming (own(n \<mapsto> c'))"
  let ?s7 = "?s ?p False False AddingRules Consuming (own(n \<mapsto> c'))"
  let ?s8 = "?s ?p False False AddingFilter Consuming (own(n \<mapsto> c'))"
  let ?s9 = "?s ?p False False Dispatching Consuming (own(n \<mapsto> c'))"
  have "start_step (start_begin own) ?s1"
    using start_step.connect [of "start_begin own"] by (simp add: start_begin_def)
  moreover have "start_step ?s1 ?s2" "start_step ?s2 ?s3"
    using start_step.see_connection [of ?s1] start_step.check [of ?s2] by simp_all
  moreover have "start_step ?s3 ?s4"
    using start_step.populate [of ?s3 "one_name_bus n c" False ?p] one_name_truthful [where own = own and n = n and c = c, OF assms(1-4)]
      one_name_populated [OF assms(1,2), of c] by simp
  moreover have "start_step ?s4 ?s5"
    using start_step.own_change [of ?s4 n c'] assms(5) by (simp add: new_owner_def)
  moreover have "start_step ?s5 ?s6" "start_step ?s6 ?s7"
    using start_step.announce [of ?s5] start_step.pool_ready [of ?s6] by simp_all
  moreover have "start_step ?s7 ?s8"
  proof -
    obtain given where "dbusMonitorAddMatchRule (\<lambda>_. True) (Inr 6) = Inr (given, True)"
      by (simp add: dbusMonitorAddMatchRule_def and_then_def match_rules_def Let_def)
    then show ?thesis
      using start_step.rules [of ?s7 "\<lambda>_. True" "Inr 6" given True] by simp
  qed
  moreover have "start_step ?s8 ?s9"
    using start_step.add_filter [of ?s8 True] by simp
  ultimately show ?thesis
    by (meson converse_rtranclp_into_rtranclp rtranclp.rtrancl_refl)
qed

text \<open>C37: The start can miss a change. When a name changes hands after the pool was filled and before the
  producer's filter is installed, no message announces it: the monitor reaches its normal operation, both
  threads running and nothing queued, and resolves the name to the connection that had it before.\<close>

theorem change_missed:
  assumes "n \<noteq> []" "hd n \<noteq> CHR '':''" "c \<noteq> []" "own n = Some c" "c' \<noteq> []" "c' \<noteq> c"
  shows "\<exists>s. start_step\<^sup>*\<^sup>* (start_begin own) s \<and> sa_producer s = Dispatching \<and> sa_consumer s = Consuming \<and>
     dp_queue (sa_pool s) = [] \<and> sa_own s n = Some c' \<and> getUniqueConnectionName (sa_pool s) n = Some c"
  using missed_reachable [where own = own and n = n and c = c and c' = c', OF assms(1-5)] one_name_populated [OF assms(1,2), of c]
  by (intro exI [of _ "\<lparr> sa_pool = one_name_pool n c, sa_connection = True, sa_connEvent = False,
        sa_popEvent = False, sa_producer = Dispatching, sa_consumer = Consuming, sa_own = own(n \<mapsto> c') \<rparr>"])
    (simp add: getUniqueConnectionName_def)

lemma change_missed_witness:
  "\<exists>s. start_step\<^sup>*\<^sup>* (start_begin [''org.x'' \<mapsto> '':1.7'']) s \<and> sa_producer s = Dispatching \<and>
     sa_consumer s = Consuming \<and> dp_queue (sa_pool s) = [] \<and> sa_own s ''org.x'' = Some '':1.9'' \<and>
     getUniqueConnectionName (sa_pool s) ''org.x'' = Some '':1.7''"
  using change_missed [of "''org.x''" "'':1.7''" "[''org.x'' \<mapsto> '':1.7'']" "'':1.9''"] by simp

end
