(* ===== verification/Sessions.thy ===== *)
theory Sessions
  imports PluginSenders
begin

text \<open>
  The agent over its life: plugins send, clients come and go, and the sender of the current connection
  makes some passes now and then. The abstract view is what the clients' ends read and what has been lost;
  the agent (the models of the runtime, the plugin proxy, the recorder, the controller and the dispatcher)
  refines it.
\<close>

section \<open>The agent with its sender\<close>

text \<open>The sender thread of the current connection, by a number of passes at a time; between them plugins and
  the event loop go on.\<close>

datatype live_event =
    Agent host_event
  | SenderPasses nat

definition sender_passes :: "codec \<Rightarrow> nat \<Rightarrow> unit agent_op" where
  "sender_passes C n = on_com (\<lambda>c.
     (case cc_messageHandler c of
        None \<Rightarrow> (Inr (), c)
      | Some d \<Rightarrow>
          (case runSenderActivity C 0 n d of
             (Inl _, d') \<Rightarrow> (Inl ComNullPointer, c\<lparr> cc_messageHandler := Some d' \<rparr>)
           | (Inr _, d') \<Rightarrow> (Inr (), c\<lparr> cc_messageHandler := Some d' \<rparr>))))"

fun live_step :: "rec_env \<Rightarrow> codec \<Rightarrow> msg_env \<Rightarrow> live_event \<Rightarrow> unit agent_op" where
  "live_step E C env (Agent ev) = agent_event E env ([], []) ev"
| "live_step E C env (SenderPasses n) = sender_passes C n"

definition live_events :: "rec_env \<Rightarrow> codec \<Rightarrow> msg_env \<Rightarrow> live_event list \<Rightarrow> unit agent_op" where
  "live_events E C env evs = seqE (map (live_step E C env) evs)"

fun agent_history :: "live_event list \<Rightarrow> host_event list" where
  "agent_history [] = []"
| "agent_history (Agent ev # evs) = ev # agent_history evs"
| "agent_history (SenderPasses n # evs) = agent_history evs"

text \<open>What went over the sockets of the connections that have been closed, and goes over the current one.\<close>

fun closed_wires :: "com_call list \<Rightarrow> byte list list" where
  "closed_wires [] = []"
| "closed_wires (MessageHandlerClosed d # cs) = d_out d # closed_wires cs"
| "closed_wires (_ # cs) = closed_wires cs"

section \<open>The abstract view\<close>

text \<open>Contents that wait in the recorder or in the send queue, contents the current client has got, and for each
  earlier client what it got and what it did not.\<close>

record host_view =
  hv_connected :: bool
  hv_waiting :: "(message_type \<times> byte list) list"
  hv_read :: "(message_type \<times> byte list) list"
  hv_clients :: "((message_type \<times> byte list) list \<times> (message_type \<times> byte list) list) list"

definition new_view :: host_view where
  "new_view = \<lparr> hv_connected = False, hv_waiting = [], hv_read = [], hv_clients = [] \<rparr>"

fun view_step :: "live_event \<Rightarrow> host_view \<Rightarrow> host_view" where
  "view_step (Agent Connect) v =
     v\<lparr> hv_connected := True, hv_waiting := (MSG_TYPE_CHRONOGRAPH_CALIBRATION, []) # hv_waiting v \<rparr>"
| "view_step (Agent Disconnect) v =
     v\<lparr> hv_connected := False, hv_waiting := [], hv_read := [],
        hv_clients := hv_clients v @ [(hv_read v, hv_waiting v)] \<rparr>"
| "view_step (Agent (Send env ty n buf ts ctx)) v =
     v\<lparr> hv_waiting := hv_waiting v @ [content (new_ProtocolMessage env ty n buf False ts ctx)] \<rparr>"
| "view_step (SenderPasses n) v =
     (if hv_connected v
      then v\<lparr> hv_waiting := drop n (hv_waiting v), hv_read := hv_read v @ take n (hv_waiting v) \<rparr> else v)"

text \<open>Every client starts with the calibration; without them, the contents in the order they were sent.\<close>

definition session_contents :: "(message_type \<times> byte list) list \<times> (message_type \<times> byte list) list \<Rightarrow>
    (message_type \<times> byte list) list" where
  "session_contents s = tl (fst s @ snd s)"

definition view_contents :: "host_view \<Rightarrow> (message_type \<times> byte list) list" where
  "view_contents v = concat (map session_contents (hv_clients v)) @
     (if hv_connected v then session_contents (hv_read v, hv_waiting v) else hv_waiting v)"

definition view_wf :: "host_view \<Rightarrow> bool" where
  "view_wf v \<longleftrightarrow> (if hv_connected v then \<exists>xs. hv_read v @ hv_waiting v = (MSG_TYPE_CHRONOGRAPH_CALIBRATION, []) # xs
     else hv_read v = [])"

lemma append_front: "xs @ ys = z # zs \<Longrightarrow> xs @ ys @ us = z # zs @ us"
  by (metis append_Cons append_assoc)

lemma view_step_conserves:
  assumes "view_wf v" "alternating (hv_connected v) (agent_history [ev])"
  shows "view_wf (view_step ev v) \<and>
    view_contents (view_step ev v) = view_contents v @ map content (sent_messages (agent_history [ev]))"
  using assms
proof (cases ev)
  case (Agent h)
  then show ?thesis
    using assms by (cases h) (auto simp: view_wf_def view_contents_def session_contents_def append_front)
next
  case (SenderPasses n)
  have "(hv_read v @ take n (hv_waiting v)) @ drop n (hv_waiting v) = hv_read v @ hv_waiting v"
    by simp
  then show ?thesis
    using assms SenderPasses by (simp add: view_wf_def view_contents_def session_contents_def)
qed

text \<open>The host's end, reading a whole stream.\<close>

definition reads_contents :: "codec \<Rightarrow> msg_env \<Rightarrow> (message_type \<times> byte list) list \<Rightarrow> byte list \<Rightarrow> bool" where
  "reads_contents C henv contents wire \<longleftrightarrow>
     (\<forall>cs peer. concat cs = wire \<and> [] \<notin> set cs \<and> d_in peer = chunks cs \<longrightarrow>
        (\<exists>peer' got. runReceiverActivity C henv (length contents) peer = (Inr (), peer') \<and> d_in peer' = [] \<and>
           d_metaDataQueue peer' = d_metaDataQueue peer @ map NTFY_NEW_MESSAGE_FROM_HOST_RECEIVED got \<and>
           map content got = contents))"

definition carries :: "codec \<Rightarrow> (message_type \<times> byte list) list \<Rightarrow> byte list \<Rightarrow> bool" where
  "carries C contents wire \<longleftrightarrow>
     (\<exists>ms. wire = concat (map (wire_bytes C) ms) \<and> (\<forall>m \<in> set ms. framable C m) \<and> map content ms = contents)"

lemma carries_read:
  assumes "carries C contents wire" "e_alloc henv = (\<lambda>_. True)"
  shows "reads_contents C henv contents wire"
  unfolding reads_contents_def
proof (intro allI impI)
  fix cs and peer :: dispatcher
  assume cs: "concat cs = wire \<and> [] \<notin> set cs \<and> d_in peer = chunks cs"
  obtain ms where ms: "wire = concat (map (wire_bytes C) ms)" "\<forall>m \<in> set ms. framable C m" "map content ms = contents"
    using assms(1) by (auto simp: carries_def)
  obtain peer' where "runReceiverActivity C henv (length ms) peer = (Inr (), peer')" "d_in peer' = []"
      "d_metaDataQueue peer' = d_metaDataQueue peer @ map (\<lambda>m. NTFY_NEW_MESSAGE_FROM_HOST_RECEIVED (received henv m)) ms"
    using run_receiver [OF ms(2), of cs peer henv] cs ms(1) by auto
  moreover have "map content (map (received henv) ms) = contents"
    using ms(2,3) content_received [OF _ _ _ assms(2)] by (auto simp: framable_def)
  moreover have "length contents = length ms"
    using ms(3) by (metis length_map)
  ultimately show "\<exists>peer' got. runReceiverActivity C henv (length contents) peer = (Inr (), peer') \<and> d_in peer' = [] \<and>
      d_metaDataQueue peer' = d_metaDataQueue peer @ map NTFY_NEW_MESSAGE_FROM_HOST_RECEIVED got \<and>
      map content got = contents"
    by (intro exI [of _ peer'] exI [of _ "map (received henv) ms"]) simp
qed

section \<open>The refinement\<close>

definition sender_holds ::
    "codec \<Rightarrow> dispatcher \<Rightarrow> (message_type \<times> byte list) list \<Rightarrow> (message_type \<times> byte list) list \<Rightarrow> bool" where
  "sender_holds C d sent waiting \<longleftrightarrow> d_sends d = [] \<and> d_senderRunning d \<and>
     d_messagesAvailable d = (d_messageQueue d \<noteq> []) \<and> (\<forall>m \<in> set (d_messageQueue d). framable C m) \<and>
     map content (d_messageQueue d) = waiting \<and> carries C sent (d_out d)"

definition recorder_holds :: "rec_env \<Rightarrow> codec \<Rightarrow> recorder \<Rightarrow> (message_type \<times> byte list) list \<Rightarrow> bool" where
  "recorder_holds E C r waiting \<longleftrightarrow>
     (\<exists>ms. buffering_holding E r ms \<and> (\<forall>m \<in> set ms. framable C (replayed E m)) \<and> map content ms = waiting)"

definition agent_shows :: "rec_env \<Rightarrow> codec \<Rightarrow> agent \<Rightarrow> host_view \<Rightarrow> bool" where
  "agent_shows E C a v \<longleftrightarrow>
     (\<exists>p c r. ag_plugins a = Some p \<and> ag_com a = Some c \<and> px_recorder p = Some r \<and>
        \<not> cf_recorderOn (ag_config a) \<and> px_sender p \<and> px_connectionEstablished p = hv_connected v \<and>
        list_all2 (carries C) (map fst (hv_clients v)) (closed_wires (cc_calls c)) \<and>
        (if hv_connected v
         then buffering_idle E r \<and> (\<exists>d. cc_messageHandler c = Some d \<and> sender_holds C d (hv_read v) (hv_waiting v))
         else cc_messageHandler c = None \<and> recorder_holds E C r (hv_waiting v) \<and> hv_read v = []))"

lemma carries_append:
  "carries C xs w \<Longrightarrow> \<forall>m \<in> set ms. framable C m \<Longrightarrow>
     carries C (xs @ map content ms) (w @ concat (map (wire_bytes C) ms))"
  unfolding carries_def by (elim exE) (rule_tac x = "msa @ ms" in exI, auto)

lemma closed_wires_append: "closed_wires (xs @ ys) = closed_wires xs @ closed_wires ys"
  by (induction xs rule: closed_wires.induct) simp_all

lemma sender_holds_passes:
  assumes "sender_holds C d sent waiting"
  shows "\<exists>r d'. runSenderActivity C 0 n d = (Inr r, d') \<and> sender_holds C d' (sent @ take n waiting) (drop n waiting)"
proof -
  let ?q = "d_messageQueue d"
  have h: "\<forall>m \<in> set ?q. framable C m" "d_sends d = []" "d_messagesAvailable d = (?q \<noteq> [])"
      "map content ?q = waiting" "carries C sent (d_out d)" "d_senderRunning d"
    using assms by (simp_all add: sender_holds_def)
  obtain r d' where d': "runSenderActivity C 0 n d = (Inr r, d')" "d_messageQueue d' = drop n ?q"
      "d_out d' = d_out d @ concat (map (wire_bytes C) (take n ?q))" "d_sends d' = []"
      "d_messagesAvailable d' = (d_messageQueue d' \<noteq> [])" "d_senderRunning d' = d_senderRunning d"
    using run_sender_rounds [OF h(1-3), of 0 n] by auto
  have "carries C (sent @ map content (take n ?q)) (d_out d')"
    unfolding d'(3) using h(1) by (intro carries_append h(5)) (auto dest: in_set_takeD)
  moreover have "map content (take n ?q) = take n waiting" "map content (drop n ?q) = drop n waiting"
    using h(4) by (auto simp: take_map drop_map)
  moreover have "\<forall>m \<in> set (drop n ?q). framable C m"
    using h(1) by (auto dest: in_set_dropD)
  ultimately show ?thesis
    using d' h(6) by (intro exI [of _ r] exI [of _ d']) (simp add: sender_holds_def)
qed

lemma sender_holds_send:
  assumes "sender_holds C d sent waiting" "framable C m" "\<not> isUrgent m"
  shows "sender_holds C (Dispatcher.sendMessage m d) sent (waiting @ [content m])"
  using assms sendMessage_running [of d m]
  by (auto simp: sender_holds_def framable_def sendMessage_wire)

lemma shows_passes:
  assumes "agent_shows E C a v"
  shows "\<exists>a'. sender_passes C n a = (Inr (), a') \<and> agent_shows E C a' (view_step (SenderPasses n) v)"
proof -
  obtain p c r where a: "ag_plugins a = Some p" "ag_com a = Some c" "px_recorder p = Some r"
      "\<not> cf_recorderOn (ag_config a)" "px_sender p" "px_connectionEstablished p = hv_connected v"
      "list_all2 (carries C) (map fst (hv_clients v)) (closed_wires (cc_calls c))"
    and st: "if hv_connected v
         then buffering_idle E r \<and> (\<exists>d. cc_messageHandler c = Some d \<and> sender_holds C d (hv_read v) (hv_waiting v))
         else cc_messageHandler c = None \<and> recorder_holds E C r (hv_waiting v) \<and> hv_read v = []"
    using assms unfolding agent_shows_def by blast
  show ?thesis
  proof (cases "hv_connected v")
    case False
    have same: "a\<lparr> ag_com := Some c \<rparr> = a"
      using a(2) by simp
    have pass: "sender_passes C n a = (Inr (), a\<lparr> ag_com := Some c \<rparr>)"
      using False st a(2) by (simp add: sender_passes_def on_com_def)
    show ?thesis
      using assms False unfolding pass same by simp
  next
    case True
    then obtain d where d: "cc_messageHandler c = Some d" "sender_holds C d (hv_read v) (hv_waiting v)"
      and idle: "buffering_idle E r"
      using st by auto
    obtain k d' where d': "runSenderActivity C 0 n d = (Inr k, d')"
        "sender_holds C d' (hv_read v @ take n (hv_waiting v)) (drop n (hv_waiting v))"
      using sender_holds_passes [OF d(2)] by blast
    let ?a = "a\<lparr> ag_com := Some (c\<lparr> cc_messageHandler := Some d' \<rparr>) \<rparr>"
    have "sender_passes C n a = (Inr (), ?a)"
      using a(2) d(1) d'(1) by (simp add: sender_passes_def on_com_def)
    moreover have "agent_shows E C ?a (view_step (SenderPasses n) v)"
      unfolding agent_shows_def using a True d'(2) idle by simp
    ultimately show ?thesis
      by blast
  qed
qed

lemma shows_sends:
  assumes "agent_shows E C a v" "ev = Send env' ty n buf ts ctx"
    and "m = new_ProtocolMessage env' ty n buf False ts ctx" "sendable E C m" "framable C m"
  shows "\<exists>a'. agent_event E env socket ev a = (Inr (), a') \<and> agent_shows E C a' (view_step (Agent ev) v)"
proof -
  obtain p c r where a: "ag_plugins a = Some p" "ag_com a = Some c" "px_recorder p = Some r"
      "\<not> cf_recorderOn (ag_config a)" "px_sender p" "px_connectionEstablished p = hv_connected v"
      "list_all2 (carries C) (map fst (hv_clients v)) (closed_wires (cc_calls c))"
    and st: "if hv_connected v
         then buffering_idle E r \<and> (\<exists>d. cc_messageHandler c = Some d \<and> sender_holds C d (hv_read v) (hv_waiting v))
         else cc_messageHandler c = None \<and> recorder_holds E C r (hv_waiting v) \<and> hv_read v = []"
    using assms(1) unfolding agent_shows_def by blast
  have m: "recordable E m" "isValid m" "\<not> isUrgent m"
    using assms(3-5) by (auto simp: sendable_def framable_def new_ProtocolMessage_valid_sel)
  show ?thesis
  proof (cases "hv_connected v")
    case False
    then obtain ms where ms: "buffering_holding E r ms" "\<forall>m \<in> set ms. framable C (replayed E m)"
        "map content ms = hv_waiting v"
      using st by (auto simp: recorder_holds_def)
    obtain r' where r': "recordMessage E m False r = (Inr False, r')" "buffering_holding E r' (ms @ [m])"
      using buffering_record [OF ms(1) m(1)] by blast
    let ?a = "a\<lparr> ag_plugins := Some (p\<lparr> px_recorder := Some r' \<rparr>), ag_com := Some c \<rparr>"
    have "agent_event E env socket ev a = (Inr (), ?a)"
      using a False r'(1) assms(2,3)
      by (simp add: agent_event_def manager_then_com_def on_com_def PluginProxy.sendMessage_def thenE_def bindE_def
          recorder_call_def recorder_ops_def)
    moreover have "recorder_holds E C r' (hv_waiting v @ [content m])"
      unfolding recorder_holds_def using r'(2) ms(2,3) assms(4)
      by (intro exI [of _ "ms @ [m]"]) (auto simp: sendable_def)
    then have "agent_shows E C ?a (view_step (Agent ev) v)"
      unfolding agent_shows_def using a False st assms(2,3) by simp
    ultimately show ?thesis
      by blast
  next
    case True
    then obtain d where d: "cc_messageHandler c = Some d" "sender_holds C d (hv_read v) (hv_waiting v)"
      and idle: "buffering_idle E r"
      using st by auto
    let ?c = "c\<lparr> cc_messageHandler := Some (Dispatcher.sendMessage m d) \<rparr>"
    let ?a = "a\<lparr> ag_plugins := Some (p\<lparr> px_trace := px_trace p @ [ToClient m] \<rparr>), ag_com := Some ?c \<rparr>"
    have "agent_event E env socket ev a = (Inr (), ?a)"
      using a True d(1) assms(2,3)
      by (simp add: agent_event_def manager_then_com_def on_com_def PluginProxy.sendMessage_def thenE_def bindE_def
          emit_def com_sendMessage_def)
    moreover have "agent_shows E C ?a (view_step (Agent ev) v)"
      unfolding agent_shows_def
      using a True idle sender_holds_send [OF d(2) assms(5) m(3)] assms(2,3) by simp
    ultimately show ?thesis
      by blast
  qed
qed

text \<open>A client comes: what the recorder has is behind the calibration in the new connection's queue.\<close>

lemma shows_connects:
  assumes "agent_shows E C a v" "\<not> hv_connected v" "framable C (calibration env)"
  shows "\<exists>a'. agent_event E env ([], []) Connect a = (Inr (), a') \<and> agent_shows E C a' (view_step (Agent Connect) v)"
proof -
  obtain p c r where a: "ag_plugins a = Some p" "ag_com a = Some c" "px_recorder p = Some r"
      "\<not> cf_recorderOn (ag_config a)" "px_sender p"
      "list_all2 (carries C) (map fst (hv_clients v)) (closed_wires (cc_calls c))"
    and st: "cc_messageHandler c = None" "recorder_holds E C r (hv_waiting v)" "hv_read v = []"
    using assms(1,2) unfolding agent_shows_def by auto
  obtain ms where ms: "buffering_holding E r ms" "\<forall>m \<in> set ms. framable C (replayed E m)" "map content ms = hv_waiting v"
    using st(2) by (auto simp: recorder_holds_def)
  obtain p' r' c' d' where step: "agent_event E env ([], []) Connect a = (Inr (), a\<lparr> ag_plugins := Some p', ag_com := Some c' \<rparr>)"
      "cc_messageHandler c' = Some d'" "cc_calls c' = cc_calls c @ [HostConnectionEstablished]"
      "d_messageQueue d' = calibration env # map (replayed E) ms" "px_recorder p' = Some r'" "buffering_idle E r'"
      "px_sender p' = px_sender p" "px_connectionEstablished p'" "d_sends d' = []" "d_out d' = []"
      "d_messagesAvailable d'" "d_senderRunning d'"
    using agent_connects [OF a(1-3) ms(1), of env "([], [])"] by auto
  have "content (replayed E m) = content m" if "m \<in> set ms" for m
    using ms(1) that by (intro content_replayed) (auto simp: buffering_holding_def)
  then have "map (content \<circ> replayed E) ms = map content ms"
    by simp
  then have "map content (d_messageQueue d') = (MSG_TYPE_CHRONOGRAPH_CALIBRATION, []) # hv_waiting v"
    using step(4) ms(3) by (simp add: content_new)
  then have "sender_holds C d' [] ((MSG_TYPE_CHRONOGRAPH_CALIBRATION, []) # hv_waiting v)"
    using step(4,9-12) ms(2) assms(3) by (auto simp: sender_holds_def carries_def)
  then have "agent_shows E C (a\<lparr> ag_plugins := Some p', ag_com := Some c' \<rparr>) (view_step (Agent Connect) v)"
    unfolding agent_shows_def using a step st(3) by (simp add: closed_wires_append)
  then show ?thesis
    using step(1) by blast
qed

lemma shows_disconnects:
  assumes "agent_shows E C a v" "hv_connected v"
  shows "\<exists>a'. agent_event E env socket Disconnect a = (Inr (), a') \<and> agent_shows E C a' (view_step (Agent Disconnect) v)"
proof -
  obtain p c r d where a: "ag_plugins a = Some p" "ag_com a = Some c" "px_recorder p = Some r"
      "\<not> cf_recorderOn (ag_config a)" "px_sender p"
      "list_all2 (carries C) (map fst (hv_clients v)) (closed_wires (cc_calls c))"
    and st: "buffering_idle E r" "cc_messageHandler c = Some d" "sender_holds C d (hv_read v) (hv_waiting v)"
    using assms unfolding agent_shows_def by auto
  obtain r' where r': "resumeBuffering E r = (Inr (), r')" "buffering_holding E r' []"
    using buffering_resume [OF st(1)] by blast
  let ?p = "p\<lparr> px_recorder := Some r', px_trace := px_trace p @ map OnConnectionLost (plugin_ptrs p),
      px_connectionEstablished := False \<rparr>"
  let ?c = "c\<lparr> cc_messageHandler := None, cc_calls := cc_calls c @
      [HostConnectionLost, MessageHandlerClosed (closeConnection d), SignalNextServerRun] \<rparr>"
  let ?a = "a\<lparr> ag_plugins := Some ?p, ag_com := Some ?c \<rparr>"
  have "onHostConnectionLost (recorder_ops E) p = (Inr (), ?p)"
    using a(3) r'(1)
    by (simp add: onHostConnectionLost_def thenE_def bindE_def recorder_call_def recorder_ops_def emit_def plugin_ptrs_def)
  moreover have "oConnectionClosedbyClient c = (Inr (), ?c)"
    using st(2) by (simp add: oConnectionClosedbyClient_def call_def thenE_def bindE_def)
  ultimately have "agent_event E env socket Disconnect a = (Inr (), ?a)"
    using a(1,2) by (simp add: agent_event_def manager_then_com_def on_com_def)
  moreover have "d_out (closeConnection d) = d_out d"
    by (simp add: closeConnection_def shutdownReceiverBranch_def shutdownSenderBranch_def clearPendingMessages_def
        notifyMessagesAvailable_def)
  then have "carries C (hv_read v) (d_out (closeConnection d))"
    using st(3) by (simp add: sender_holds_def)
  then have "agent_shows E C ?a (view_step (Agent Disconnect) v)"
    unfolding agent_shows_def using a r'(2)
    by (simp add: closed_wires_append list_all2_appendI recorder_holds_def)
  ultimately show ?thesis
    by blast
qed

definition reportable :: "rec_env \<Rightarrow> codec \<Rightarrow> host_event list \<Rightarrow> bool" where
  "reportable E C evs \<longleftrightarrow> (\<forall>m \<in> set (sent_messages evs). sendable E C m \<and> framable C m)"

lemma shows_step:
  assumes "agent_shows E C a v" "alternating (hv_connected v) (agent_history [ev])"
    and "reportable E C (agent_history [ev])" "framable C (calibration env)"
  shows "\<exists>a'. live_step E C env ev a = (Inr (), a') \<and> agent_shows E C a' (view_step ev v)"
proof (cases ev)
  case (SenderPasses n)
  then show ?thesis
    using shows_passes [OF assms(1)] by simp
next
  case (Agent h)
  show ?thesis
  proof (cases h)
    case Connect
    then show ?thesis
      using shows_connects [OF assms(1) _ assms(4)] assms(2) Agent by simp
  next
    case Disconnect
    then show ?thesis
      using shows_disconnects [OF assms(1)] assms(2) Agent by simp
  next
    case (Send env' ty n buf ts ctx)
    then show ?thesis
      using shows_sends [OF assms(1) Send refl] assms(3) Agent by (simp add: reportable_def)
  qed
qed

lemma alternating_split:
  "alternating b (agent_history (ev # evs)) \<longleftrightarrow>
     alternating b (agent_history [ev]) \<and>
     (\<forall>v. hv_connected v = b \<longrightarrow> alternating (hv_connected (view_step ev v)) (agent_history evs))"
proof (cases ev)
  case (Agent h)
  have "\<exists>v :: host_view. hv_connected v = b"
    by (rule exI [of _ "new_view\<lparr> hv_connected := b \<rparr>"]) simp
  then show ?thesis
    using Agent by (cases h) auto
next
  case (SenderPasses n)
  have "\<exists>v :: host_view. hv_connected v = b"
    by (rule exI [of _ "new_view\<lparr> hv_connected := b \<rparr>"]) simp
  then show ?thesis
    using SenderPasses by auto
qed

lemma history_split:
  "sent_messages (agent_history (ev # evs)) = sent_messages (agent_history [ev]) @ sent_messages (agent_history evs)"
  by (cases ev) (simp_all add: sent_messages_append [symmetric])

lemma shows_events:
  assumes "agent_shows E C a v" "view_wf v" "alternating (hv_connected v) (agent_history evs)"
    and "reportable E C (agent_history evs)" "framable C (calibration env)"
  shows "\<exists>a'. live_events E C env evs a = (Inr (), a') \<and> agent_shows E C a' (fold view_step evs v) \<and>
    view_contents (fold view_step evs v) = view_contents v @ map content (sent_messages (agent_history evs))"
  using assms
proof (induction evs arbitrary: a v)
  case Nil
  then show ?case
    by (simp add: live_events_def)
next
  case (Cons ev evs)
  have now: "alternating (hv_connected v) (agent_history [ev])"
    and later: "alternating (hv_connected (view_step ev v)) (agent_history evs)"
    using Cons.prems(3) alternating_split [of "hv_connected v" ev evs] by blast+
  have ok: "reportable E C (agent_history [ev])" "reportable E C (agent_history evs)"
    using Cons.prems(4) by (auto simp: reportable_def history_split [of ev evs])
  obtain a1 where a1: "live_step E C env ev a = (Inr (), a1)" "agent_shows E C a1 (view_step ev v)"
    using shows_step [OF Cons.prems(1) now ok(1) Cons.prems(5)] by blast
  have wf: "view_wf (view_step ev v)" and contents:
    "view_contents (view_step ev v) = view_contents v @ map content (sent_messages (agent_history [ev]))"
    using view_step_conserves [OF Cons.prems(2) now] by simp_all
  obtain a' where a': "live_events E C env evs a1 = (Inr (), a')" "agent_shows E C a' (fold view_step evs (view_step ev v))"
    "view_contents (fold view_step evs (view_step ev v)) =
       view_contents (view_step ev v) @ map content (sent_messages (agent_history evs))"
    using Cons.IH [OF a1(2) wf later ok(2) Cons.prems(5)] by blast
  then show ?case
    using a1(1) contents by (intro exI [of _ a'])
      (simp add: live_events_def thenE_def bindE_def history_split [of ev evs])
qed

lemma started_shows:
  assumes "cf = snd (initialize xml new_ConfigProvider)"
    and "\<not> cf_recorderOn cf" "buffering_env (E cf)" "\<forall>k. fs (re_tempName (E cf) k) = None"
  shows "\<exists>a. run xml E fs L new_CTargetAgentRuntime = (Inr (), a) \<and> agent_shows (E cf) C a new_view"
proof -
  obtain r where r: "create_recorder (E cf) BufferingHandler fs = (Inr (), r)" "buffering_holding (E cf) r []"
    using create_buffering_holding [OF assms(3,4)] by blast
  let ?a = "\<lparr> ag_config = cf, ag_plugins = Some (started_proxy L cf r), ag_com = Some (started_com cf), ag_logger = True \<rparr>"
  have "run xml E fs L new_CTargetAgentRuntime = (Inr (), ?a)"
    using run_started [OF assms(1)] r(1) assms(2) by (simp add: recorder_kind_of_def)
  moreover have "agent_shows (E cf) C ?a new_view"
    unfolding agent_shows_def using r(2) assms(2)
    by (simp add: started_proxy_def new_PluginProxy_def started_com_def new_ComController_def new_view_def recorder_holds_def)
  ultimately show ?thesis
    by blast
qed

section \<open>Properties\<close>

text \<open>C2: The agent serves its clients. Run the agent with the buffering handler; plugins send, clients come and
  go in turn over healthy sockets, and the sender makes passes at any moments. Nothing raises, and however
  the streams are cut on the way each client reads the calibration first and then, in order, what the
  abstract view says: what was recorded while there was no client and what was sent while it was connected,
  as far as the sender got. Of what was sent nothing is doubled, reordered or lost, but what waits in the
  send queue when its client leaves.\<close>

theorem clients_served:
  assumes "cf = snd (initialize xml new_ConfigProvider)"
    and "\<not> cf_recorderOn cf" "buffering_env (E cf)" "\<forall>k. fs (re_tempName (E cf) k) = None"
    and "alternating False (agent_history evs)" "reportable (E cf) C (agent_history evs)"
    and "framable C (calibration env)" "e_alloc henv = (\<lambda>_. True)" "v = fold view_step evs new_view"
  shows "\<exists>a c. thenE (run xml E fs L) (live_events (E cf) C env evs) new_CTargetAgentRuntime = (Inr (), a) \<and>
    ag_com a = Some c \<and>
    list_all2 (reads_contents C henv) (map fst (hv_clients v)) (closed_wires (cc_calls c)) \<and>
    (if hv_connected v
     then \<exists>d. cc_messageHandler c = Some d \<and> reads_contents C henv (hv_read v) (d_out d) \<and>
            map content (d_messageQueue d) = hv_waiting v
     else cc_messageHandler c = None) \<and>
    view_contents v = map content (sent_messages (agent_history evs))"
proof -
  obtain a0 where a0: "run xml E fs L new_CTargetAgentRuntime = (Inr (), a0)" "agent_shows (E cf) C a0 new_view"
    using started_shows [where E = E and C = C and L = L, OF assms(1-4)] by blast
  have start: "view_wf new_view" "alternating (hv_connected new_view) (agent_history evs)"
    using assms(5) by (simp_all add: view_wf_def new_view_def)
  obtain a where a: "live_events (E cf) C env evs a0 = (Inr (), a)" "agent_shows (E cf) C a v"
      "view_contents v = view_contents new_view @ map content (sent_messages (agent_history evs))"
    using shows_events [OF a0(2) start assms(6,7)] assms(9) by blast
  obtain c where c: "ag_com a = Some c" "list_all2 (carries C) (map fst (hv_clients v)) (closed_wires (cc_calls c))"
    and st: "if hv_connected v
       then \<exists>d. cc_messageHandler c = Some d \<and> sender_holds C d (hv_read v) (hv_waiting v)
       else cc_messageHandler c = None"
    using a(2) unfolding agent_shows_def by (auto split: if_splits)
  have "list_all2 (reads_contents C henv) (map fst (hv_clients v)) (closed_wires (cc_calls c))"
    using c(2) by (rule list_all2_mono) (rule carries_read [OF _ assms(8)])
  moreover have "if hv_connected v
     then \<exists>d. cc_messageHandler c = Some d \<and> reads_contents C henv (hv_read v) (d_out d) \<and>
            map content (d_messageQueue d) = hv_waiting v
     else cc_messageHandler c = None"
    using st carries_read [OF _ assms(8)] by (auto simp: sender_holds_def)
  moreover have "view_contents v = map content (sent_messages (agent_history evs))"
    using a(3) by (simp add: view_contents_def new_view_def)
  ultimately show ?thesis
    using a0(1) a(1) c(1) by (intro exI [of _ a] exI [of _ c]) (simp add: thenE_def bindE_def)
qed

definition sample_life :: "live_event list" where
  "sample_life = [Agent (Send sample_msgEnv 2 1 [7] 9 None), Agent Connect,
     Agent (Send sample_msgEnv 2 1 [8] 9 None), SenderPasses 2, Agent Disconnect,
     Agent (Send sample_msgEnv 2 1 [5] 9 None), Agent Connect, SenderPasses 1]"

theorem clients_served_witness:
  "\<exists>a c w d. thenE (run sample_xml (\<lambda>_. sample_rec_env) (\<lambda>_. None) no_library)
       (live_events sample_rec_env sample_codec sample_msgEnv sample_life) new_CTargetAgentRuntime = (Inr (), a) \<and>
     ag_com a = Some c \<and> closed_wires (cc_calls c) = [w] \<and> cc_messageHandler c = Some d \<and>
     reads_contents sample_codec sample_msgEnv [(99, []), (2, [7])] w \<and>
     reads_contents sample_codec sample_msgEnv [(99, [])] (d_out d) \<and>
     map content (d_messageQueue d) = [(2, [5])]"
proof -
  have contents: "content (new_ProtocolMessage sample_msgEnv 2 1 [x] False 9 None) = (2, [x])" for x
    by (rule content_new) (simp_all add: sample_msgEnv_def)
  have ok: "sendable sample_rec_env sample_codec (new_ProtocolMessage sample_msgEnv 2 1 [x] False 9 None) \<and>
      framable sample_codec (new_ProtocolMessage sample_msgEnv 2 1 [x] False 9 None)" for x
    using sample_sendable [of 2 "[x]" 9] sample_message_framable [of 2 "[x]" 9] by (simp add: sample_message_def)
  have alt: "alternating False (agent_history sample_life)"
    and rep: "reportable sample_rec_env sample_codec (agent_history sample_life)"
    using ok by (simp_all add: sample_life_def reportable_def)
  have alloc: "e_alloc sample_msgEnv = (\<lambda>_. True)"
    by (simp add: sample_msgEnv_def)
  have view: "fold view_step sample_life new_view = \<lparr> hv_connected = True, hv_waiting = [(2, [5])], hv_read = [(99, [])],
      hv_clients = [([(99, []), (2, [7])], [(2, [8])])] \<rparr>"
    by (simp add: sample_life_def new_view_def contents)
  obtain a c where a: "thenE (run sample_xml (\<lambda>_. sample_rec_env) (\<lambda>_. None) no_library)
      (live_events sample_rec_env sample_codec sample_msgEnv sample_life) new_CTargetAgentRuntime = (Inr (), a)"
      "ag_com a = Some c"
    and earlier: "list_all2 (reads_contents sample_codec sample_msgEnv) [[(99, []), (2, [7])]] (closed_wires (cc_calls c))"
    and current: "\<exists>d. cc_messageHandler c = Some d \<and> reads_contents sample_codec sample_msgEnv [(99, [])] (d_out d) \<and>
      map content (d_messageQueue d) = [(2, [5])]"
    using clients_served [where E = "\<lambda>_. sample_rec_env" and fs = "\<lambda>_. None" and xml = sample_xml and
        L = no_library and env = sample_msgEnv and henv = sample_msgEnv,
        OF refl sample_not_recording sample_buffering_env _ alt rep sample_calibration alloc refl]
    unfolding view by fastforce
  obtain w where w: "closed_wires (cc_calls c) = [w]" "reads_contents sample_codec sample_msgEnv [(99, []), (2, [7])] w"
    using earlier by (auto simp: list_all2_Cons1)
  obtain d where d: "cc_messageHandler c = Some d" "reads_contents sample_codec sample_msgEnv [(99, [])] (d_out d)"
      "map content (d_messageQueue d) = [(2, [5])]"
    using current by (elim exE conjE)
  show ?thesis
    by (intro exI conjI) (rule a w d)+
qed

end
